(* ===== verification/Biot_Prelude.thy ===== *)
theory Biot_Prelude
  imports Main "HOL-Library.Word" "HOL-Library.Char_ord" "HOL-Library.List_Lexorder"
begin

text \<open>
  The vocabulary every other theory of the development shares: the name of a byte, results as
  sums (\<open>Inl\<close> is the Go \<open>err != nil\<close> branch, \<open>Inr\<close> the value), the two
  sequencing combinators that stand for \<open>if err != nil { return err }\<close> in pure and in
  stateful code, the transition-system locale with its reachable states, and the collections of
  rewrite rules that carry the component proofs.
\<close>

named_theorems result_simps \<open>equations that step through results and stateful calls\<close>
named_theorems bound_simps \<open>the numeric bounds the program declares\<close>

type_synonym byte = "8 word"
type_synonym ('e, 'a) result = "'e + 'a"
type_synonym ('w, 'e, 'a) action = "'w \<Rightarrow> ('e, 'a) result \<times> 'w"

section \<open>Results\<close>

text \<open>\<open>value, err := f(); if err != nil { return err }; rest\<close> in code without state.\<close>

fun andThen :: "('e, 'a) result \<Rightarrow> ('a \<Rightarrow> ('e, 'b) result) \<Rightarrow> ('e, 'b) result" where
  "andThen (Inl e) k = Inl e"
| "andThen (Inr a) k = k a"

fun mapErr :: "('e \<Rightarrow> 'f) \<Rightarrow> ('e, 'a) result \<Rightarrow> ('f, 'a) result" where
  "mapErr f (Inl e) = Inl (f e)"
| "mapErr f (Inr a) = Inr a"

fun isOk :: "('e, 'a) result \<Rightarrow> bool" where
  "isOk (Inl _) = False"
| "isOk (Inr _) = True"

lemma andThen_eq_Inr_iff:
  "andThen r k = Inr b \<longleftrightarrow> (\<exists>a. r = Inr a \<and> k a = Inr b)"
  by (cases r) auto

lemma andThen_eq_Inl_iff:
  "andThen r k = Inl e \<longleftrightarrow> r = Inl e \<or> (\<exists>a. r = Inr a \<and> k a = Inl e)"
  by (cases r) auto

lemma isOk_iff: "isOk r \<longleftrightarrow> (\<exists>a. r = Inr a)"
  by (cases r) auto

lemma mapErr_eq_Inr [simp]: "mapErr f r = Inr a \<longleftrightarrow> r = Inr a"
  by (cases r) auto

section \<open>Stateful calls\<close>

text \<open>
  The same sequencing when the call also changes the world: an error stops the rest, and keeps
  whatever the failed call did to the world.
\<close>

definition succeed :: "'a \<Rightarrow> ('w, 'e, 'a) action" where
  "succeed a w = (Inr a, w)"

definition failWith :: "'e \<Rightarrow> ('w, 'e, 'a) action" where
  "failWith e w = (Inl e, w)"

definition lift :: "('e, 'a) result \<Rightarrow> ('w, 'e, 'a) action" where
  "lift r w = (r, w)"

definition attempt ::
  "('w, 'e, 'a) action \<Rightarrow> ('a \<Rightarrow> ('w, 'e, 'b) action) \<Rightarrow> ('w, 'e, 'b) action" where
  "attempt m k w = (case m w of (Inl e, w') \<Rightarrow> (Inl e, w') | (Inr a, w') \<Rightarrow> k a w')"

definition wrapErr :: "('e \<Rightarrow> 'f) \<Rightarrow> ('w, 'e, 'a) action \<Rightarrow> ('w, 'f, 'a) action" where
  "wrapErr f m w = (case m w of (r, w') \<Rightarrow> (mapErr f r, w'))"

lemma succeed_run [result_simps]: "succeed a w = (Inr a, w)"
  by (simp add: succeed_def)

lemma failWith_run [result_simps]: "failWith e w = (Inl e, w)"
  by (simp add: failWith_def)

lemma lift_run [result_simps]: "lift r w = (r, w)"
  by (simp add: lift_def)

lemma attempt_Inl [result_simps]: "m w = (Inl e, w') \<Longrightarrow> attempt m k w = (Inl e, w')"
  by (simp add: attempt_def)

lemma attempt_Inr [result_simps]: "m w = (Inr a, w') \<Longrightarrow> attempt m k w = k a w'"
  by (simp add: attempt_def)

lemma attempt_eq_Inr_iff:
  "attempt m k w = (Inr b, w'') \<longleftrightarrow> (\<exists>a w'. m w = (Inr a, w') \<and> k a w' = (Inr b, w''))"
  by (auto simp: attempt_def split: prod.splits sum.splits)

lemma attempt_Inr_elim [elim]:
  assumes "attempt m k w = (Inr b, w'')"
  obtains a w' where "m w = (Inr a, w')" and "k a w' = (Inr b, w'')"
  using assms by (auto simp: attempt_eq_Inr_iff)

lemma attempt_cases:
  assumes "attempt m k w = (r, w'')"
  obtains (fails) e where "m w = (Inl e, w'')" and "r = Inl e"
  | (goes) a w' where "m w = (Inr a, w')" and "k a w' = (r, w'')"
  using assms by (auto simp: attempt_def split: prod.splits sum.splits)

text \<open>
  Relations between the world before and after a call compose along \<open>attempt\<close>: what is
  reflexive, transitive and kept by each part is kept by the whole.
\<close>

definition keeps :: "('w \<Rightarrow> 'w \<Rightarrow> bool) \<Rightarrow> ('w, 'e, 'a) action \<Rightarrow> bool" where
  "keeps R m \<longleftrightarrow> (\<forall>w r w'. m w = (r, w') \<longrightarrow> R w w')"

lemma keepsD: "keeps R m \<Longrightarrow> m w = (r, w') \<Longrightarrow> R w w'"
  by (auto simp: keeps_def)

lemma keeps_attempt:
  assumes "transp R" and "keeps R m" and "\<And>a. keeps R (k a)"
  shows "keeps R (attempt m k)"
  unfolding keeps_def
proof (intro allI impI)
  fix w r w''
  assume "attempt m k w = (r, w'')"
  then show "R w w''"
    by (cases rule: attempt_cases) (use assms in \<open>blast dest: keepsD transpD\<close>)+
qed

lemma keeps_pure [simp]:
  assumes "reflp R"
  shows "keeps R (succeed a)" "keeps R (failWith e)" "keeps R (lift r)"
  using assms by (auto simp: keeps_def result_simps reflp_def)

lemma keeps_wrapErr: "keeps R m \<Longrightarrow> keeps R (wrapErr f m)"
  by (auto simp: keeps_def wrapErr_def split: prod.splits)

text \<open>
  A Hoare logic for stateful calls: \<open>leads P m Q E\<close> says that from a world where \<open>P\<close> holds, \<open>m\<close>
  ends either with a value and a world that satisfy \<open>Q\<close>, or with an error in a world that
  satisfies \<open>E\<close>.
\<close>

definition leads ::
  "('w \<Rightarrow> bool) \<Rightarrow> ('w, 'e, 'a) action \<Rightarrow> ('a \<Rightarrow> 'w \<Rightarrow> bool) \<Rightarrow> ('w \<Rightarrow> bool) \<Rightarrow> bool" where
  "leads P m Q E \<longleftrightarrow>
     (\<forall>w. P w \<longrightarrow> (case m w of (Inl e, w') \<Rightarrow> E w' | (Inr a, w') \<Rightarrow> Q a w'))"

lemma leadsI:
  assumes "\<And>w e w'. P w \<Longrightarrow> m w = (Inl e, w') \<Longrightarrow> E w'" and "\<And>w a w'. P w \<Longrightarrow> m w = (Inr a, w') \<Longrightarrow> Q a w'"
  shows "leads P m Q E"
  unfolding leads_def by (auto split: prod.splits sum.splits intro: assms)

lemma leadsD:
  assumes "leads P m Q E" and "P w"
  shows "m w = (Inl e, w') \<Longrightarrow> E w'" and "m w = (Inr a, w') \<Longrightarrow> Q a w'"
  using assms unfolding leads_def by (auto split: prod.splits)

lemma leads_attempt:
  assumes "leads P m Q E" and "\<And>a. leads (Q a) (k a) S E"
  shows "leads P (attempt m k) S E"
proof (rule leadsI)
  fix w e w'
  assume "P w" and "attempt m k w = (Inl e, w')"
  from this(2) show "E w'"
    by (cases rule: attempt_cases) (use assms \<open>P w\<close> in \<open>auto dest: leadsD\<close>)
next
  fix w a w'
  assume "P w" and "attempt m k w = (Inr a, w')"
  from this(2) show "S a w'"
    by (cases rule: attempt_cases) (use assms \<open>P w\<close> in \<open>auto dest: leadsD\<close>)
qed

lemma leads_conseq:
  assumes "leads P' m Q' E'" and "\<And>w. P w \<Longrightarrow> P' w" and "\<And>a w. Q' a w \<Longrightarrow> Q a w" and "\<And>w. E' w \<Longrightarrow> E w"
  shows "leads P m Q E"
  by (rule leadsI) (use assms in \<open>blast dest: leadsD\<close>)+

lemma leads_pure:
  "leads (Q a) (succeed a) Q E" "leads E (failWith e) Q E"
  "(\<And>w. P w \<Longrightarrow> E w) \<Longrightarrow> (\<And>a. x = Inr a \<Longrightarrow> (\<And>w. P w \<Longrightarrow> Q a w)) \<Longrightarrow> leads P (lift x) Q E"
  by (auto intro!: leadsI simp: result_simps)

lemma leads_wrapErr: "leads P m Q E \<Longrightarrow> leads P (wrapErr f m) Q E"
  by (auto intro!: leadsI simp: wrapErr_def split: prod.splits dest: leadsD)
     (metis leadsD mapErr.simps old.sum.exhaust sum.distinct(1))

lemma leads_given: "(b \<Longrightarrow> leads P m Q E) \<Longrightarrow> leads (\<lambda>w. P w \<and> b) m Q E"
  by (simp add: leads_def)

lemma leads_If:
  "(b \<Longrightarrow> leads P m Q E) \<Longrightarrow> (\<not> b \<Longrightarrow> leads P n Q E) \<Longrightarrow> leads P (if b then m else n) Q E"
  by simp

section \<open>Transition systems\<close>

text \<open>
  The concurrent parts of the program are step relations. The locale fixes an initial-state
  predicate and a step relation; an invariant that holds initially and is kept by every step
  holds in every reachable state. \<open>inv_step\<close> may use an invariant already proved, so
  invariants are established one after the other.
\<close>

inductive reachable :: "('s \<Rightarrow> bool) \<Rightarrow> ('s \<Rightarrow> 's \<Rightarrow> bool) \<Rightarrow> 's \<Rightarrow> bool"
  for init step where
  reach_init: "init s \<Longrightarrow> reachable init step s"
| reach_step: "reachable init step s \<Longrightarrow> step s t \<Longrightarrow> reachable init step t"

lemma reachable_mono: "reachable init step s \<Longrightarrow> (\<And>s. init s \<Longrightarrow> init' s) \<Longrightarrow> reachable init' step s"
  by (induction rule: reachable.induct) (auto intro: reachable.intros)

locale transition_system =
  fixes init :: "'s \<Rightarrow> bool" and step :: "'s \<Rightarrow> 's \<Rightarrow> bool" and inv :: "'s \<Rightarrow> bool"
  assumes inv_init: "init s \<Longrightarrow> inv s"
    and inv_step: "inv s \<Longrightarrow> step s t \<Longrightarrow> inv t"
begin

lemma inv_reachable: "reachable init step s \<Longrightarrow> inv s"
  by (induction rule: reachable.induct) (auto intro: inv_init inv_step)

lemma inv_steps: "inv s \<Longrightarrow> step\<^sup>*\<^sup>* s t \<Longrightarrow> inv t"
  by (rotate_tac, induction rule: rtranclp_induct) (auto intro: inv_step)

end

text \<open>
  A step relation is given by a function that performs a move in a state where it is possible;
  \<open>runMoves\<close> performs a list of them, and \<open>finishes\<close> says that a few moves of a given kind are enough
  to reach a goal.
\<close>

inductive moves :: "('m \<Rightarrow> 's \<Rightarrow> 's option) \<Rightarrow> 's \<Rightarrow> 's \<Rightarrow> bool" for perform where
  moved: "perform m s = Some t \<Longrightarrow> moves perform s t"

inductive_cases movesE [elim]: "moves perform s t"

fun runMoves :: "('m \<Rightarrow> 's \<Rightarrow> 's option) \<Rightarrow> 'm list \<Rightarrow> 's \<Rightarrow> 's option" where
  "runMoves perform [] s = Some s"
| "runMoves perform (m # ms) s = Option.bind (perform m s) (runMoves perform ms)"

lemma runMoves_reachable:
  "reachable init (moves perform) s \<Longrightarrow> runMoves perform ms s = Some t \<Longrightarrow> reachable init (moves perform) t"
proof (induction ms arbitrary: s)
  case (Cons m ms)
  then obtain u where u: "perform m s = Some u" "runMoves perform ms u = Some t"
    by (auto simp: bind_eq_Some_conv)
  show ?case
    by (rule Cons.IH [OF reach_step [OF Cons.prems(1) moved [of perform, OF u(1)]] u(2)])
qed simp

definition finishes :: "('m \<Rightarrow> 's \<Rightarrow> 's option) \<Rightarrow> 'm set \<Rightarrow> nat \<Rightarrow> ('s \<Rightarrow> bool) \<Rightarrow> 's \<Rightarrow> bool" where
  "finishes perform kinds n goal s \<longleftrightarrow>
     (\<exists>ms t. set ms \<subseteq> kinds \<and> length ms \<le> n \<and> runMoves perform ms s = Some t \<and> goal t)"

lemma finishes_now: "goal s \<Longrightarrow> finishes perform kinds n goal s"
  unfolding finishes_def by (intro exI [of _ "[]"]) simp

lemma finishes_move:
  assumes "perform m s = Some u" and "m \<in> kinds" and "finishes perform kinds n goal u"
  shows "finishes perform kinds (Suc n) goal s"
proof -
  from assms(3) obtain ms t where "set ms \<subseteq> kinds" "length ms \<le> n" "runMoves perform ms u = Some t" "goal t"
    unfolding finishes_def by blast
  with assms(1,2) show ?thesis unfolding finishes_def by (intro exI [of _ "m # ms"] exI [of _ t]) simp
qed

lemma finishes_last: "perform m s = Some t \<Longrightarrow> m \<in> kinds \<Longrightarrow> goal t \<Longrightarrow> finishes perform kinds 1 goal s"
  unfolding One_nat_def by (rule finishes_move [OF _ _ finishes_now])

lemma finishes_two: "perform m s = Some u \<Longrightarrow> m \<in> kinds \<Longrightarrow> finishes perform kinds 1 goal u \<Longrightarrow> finishes perform kinds 2 goal s"
  using finishes_move [of perform m s u kinds 1 goal] by (simp add: numeral_2_eq_2)

lemma finishes_mono: "finishes perform kinds n goal s \<Longrightarrow> n \<le> k \<Longrightarrow> finishes perform kinds k goal s"
  unfolding finishes_def by (meson order_trans)

section \<open>Lists and bytes\<close>

lemma take_append_exact [simp]: "length xs = n \<Longrightarrow> take n (xs @ ys) = xs"
  by simp

lemma drop_append_exact [simp]: "length xs = n \<Longrightarrow> drop n (xs @ ys) = ys"
  by simp

lemma length_Suc_obtain:
  assumes "length xs = Suc n"
  obtains y ys where "xs = y # ys" and "length ys = n"
  using assms by (cases xs) auto

end
