(* ===== verification/Go_Strings.thy ===== *)
theory Go_Strings
  imports Biot_Prelude
begin

text \<open>
  What the program uses of Go's \<open>strings\<close> and \<open>strconv\<close> packages. A Go string is a
  sequence of bytes, and so is HOL's \<^typ>\<open>string\<close>, whose characters have eight bits;
  Go's \<open><\<close> on strings is the lexicographic order of \<open>HOL-Library.List_Lexorder\<close> over
  the byte order of \<open>HOL-Library.Char_ord\<close>. An \<open>int\<close> of the CLI has 64 bits.
\<close>

section \<open>Prefixes, suffixes, trimming\<close>

definition hasPrefix :: "'a list \<Rightarrow> 'a list \<Rightarrow> bool" where
  "hasPrefix s p \<longleftrightarrow> take (length p) s = p"

definition hasSuffix :: "'a list \<Rightarrow> 'a list \<Rightarrow> bool" where
  "hasSuffix s p \<longleftrightarrow> hasPrefix (rev s) (rev p)"

definition trimSuffix :: "'a list \<Rightarrow> 'a list \<Rightarrow> 'a list" where
  "trimSuffix s p = (if hasSuffix s p then take (length s - length p) s else s)"

definition trimLeft :: "'a set \<Rightarrow> 'a list \<Rightarrow> 'a list" where
  "trimLeft cs s = dropWhile (\<lambda>c. c \<in> cs) s"

definition trimRight :: "'a set \<Rightarrow> 'a list \<Rightarrow> 'a list" where
  "trimRight cs s = rev (dropWhile (\<lambda>c. c \<in> cs) (rev s))"

definition trimBoth :: "'a set \<Rightarrow> 'a list \<Rightarrow> 'a list" where
  "trimBoth cs s = trimRight cs (trimLeft cs s)"

lemma hasPrefix_iff: "hasPrefix s p \<longleftrightarrow> (\<exists>t. s = p @ t)"
  by (metis append_eq_conv_conj append_take_drop_id hasPrefix_def)

lemma hasSuffix_iff: "hasSuffix s p \<longleftrightarrow> (\<exists>t. s = t @ p)"
proof -
  have "hasSuffix s p \<longleftrightarrow> (\<exists>t. rev s = rev p @ t)"
    by (simp add: hasSuffix_def hasPrefix_iff)
  also have "\<dots> \<longleftrightarrow> (\<exists>t. s = t @ p)"
    by (metis rev_append rev_rev_ident)
  finally show ?thesis .
qed

lemma hasPrefix_Nil [simp]: "hasPrefix s []"
  by (simp add: hasPrefix_def)

lemma hasPrefix_Cons [simp]:
  "hasPrefix (x # xs) (y # ys) \<longleftrightarrow> x = y \<and> hasPrefix xs ys"
  "\<not> hasPrefix [] (y # ys)"
  by (auto simp: hasPrefix_def)

lemma hasPrefix_self [simp]: "hasPrefix s s"
  by (simp add: hasPrefix_def)

lemma hasPrefix_append [simp]: "hasPrefix (p @ t) p"
  by (simp add: hasPrefix_def)

lemma hasSuffix_append [simp]: "hasSuffix (t @ p) p"
  by (auto simp: hasSuffix_iff)

lemma hasSuffix_single [simp]: "hasSuffix s [c] \<longleftrightarrow> s \<noteq> [] \<and> last s = c"
  by (metis append_butlast_last_id hasSuffix_iff last_snoc snoc_eq_iff_butlast)

lemma trimSuffix_append [simp]: "trimSuffix (t @ p) p = t"
  by (simp add: trimSuffix_def)

lemma trimSuffix_single:
  "trimSuffix s [c] = (if s \<noteq> [] \<and> last s = c then butlast s else s)"
  by (simp add: trimSuffix_def butlast_conv_take)

lemma length_trimSuffix: "length (trimSuffix s p) \<le> length s"
  by (simp add: trimSuffix_def)

lemma trimRight_append_same:
  "set t \<subseteq> cs \<Longrightarrow> trimRight cs (s @ t) = trimRight cs s"
  by (simp add: trimRight_def dropWhile_append subset_eq)

lemma trimRight_idem [simp]: "trimRight cs (trimRight cs s) = trimRight cs s"
  by (simp add: trimRight_def dropWhile_idem)

lemma trimRight_last: "trimRight cs s \<noteq> [] \<Longrightarrow> last (trimRight cs s) \<notin> cs"
  unfolding trimRight_def
  by (metis (mono_tags, lifting) dropWhile_eq_Nil_conv hd_dropWhile last_rev rev_is_Nil_conv)

lemma trimRight_prefix: "\<exists>t. s = trimRight cs s @ t \<and> set t \<subseteq> cs"
proof -
  have "rev s = takeWhile (\<lambda>c. c \<in> cs) (rev s) @ dropWhile (\<lambda>c. c \<in> cs) (rev s)"
    by simp
  then have "s = rev (dropWhile (\<lambda>c. c \<in> cs) (rev s)) @ rev (takeWhile (\<lambda>c. c \<in> cs) (rev s))"
    by (metis rev_append rev_rev_ident)
  moreover have "set (takeWhile (\<lambda>c. c \<in> cs) (rev s)) \<subseteq> cs"
    using set_takeWhileD by fastforce
  ultimately show ?thesis
    unfolding trimRight_def by (metis set_rev)
qed

text \<open>
  \<open>strings.TrimSpace\<close> removes the runes of \<open>unicode.IsSpace\<close>. Their UTF-8 encodings
  are listed byte by byte; no encoding is a proper prefix or suffix of text that decodes
  differently, so comparing bytes at both ends is what the rune loop does.
\<close>

definition spaceEncodings :: "string list" where
  "spaceEncodings =
     [[CHR 0x09], [CHR 0x0A], [CHR 0x0B], [CHR 0x0C], [CHR 0x0D], [CHR 0x20],
      [CHR 0xC2, CHR 0x85], [CHR 0xC2, CHR 0xA0], [CHR 0xE1, CHR 0x9A, CHR 0x80],
      [CHR 0xE2, CHR 0x80, CHR 0x80], [CHR 0xE2, CHR 0x80, CHR 0x81], [CHR 0xE2, CHR 0x80, CHR 0x82],
      [CHR 0xE2, CHR 0x80, CHR 0x83], [CHR 0xE2, CHR 0x80, CHR 0x84], [CHR 0xE2, CHR 0x80, CHR 0x85],
      [CHR 0xE2, CHR 0x80, CHR 0x86], [CHR 0xE2, CHR 0x80, CHR 0x87], [CHR 0xE2, CHR 0x80, CHR 0x88],
      [CHR 0xE2, CHR 0x80, CHR 0x89], [CHR 0xE2, CHR 0x80, CHR 0x8A], [CHR 0xE2, CHR 0x80, CHR 0xA8],
      [CHR 0xE2, CHR 0x80, CHR 0xA9], [CHR 0xE2, CHR 0x80, CHR 0xAF], [CHR 0xE2, CHR 0x81, CHR 0x9F],
      [CHR 0xE3, CHR 0x80, CHR 0x80]]"

function stripFront :: "string list \<Rightarrow> string \<Rightarrow> string" where
  "stripFront es s =
     (case filter (\<lambda>e. e \<noteq> [] \<and> hasPrefix s e) es of
        [] \<Rightarrow> s
      | e # _ \<Rightarrow> stripFront es (drop (length e) s))"
  by pat_completeness auto
termination
proof (relation "measure (\<lambda>(es, s). length s)")
  fix es :: "string list" and s e ys
  assume "filter (\<lambda>e. e \<noteq> [] \<and> hasPrefix s e) es = e # ys"
  then have "e \<noteq> [] \<and> hasPrefix s e"
    by (metis (mono_tags, lifting) list.set_intros(1) mem_Collect_eq set_filter)
  then show "((es, drop (length e) s), (es, s)) \<in> measure (\<lambda>(es, s). length s)"
    by (auto simp: hasPrefix_iff)
qed simp

declare stripFront.simps [simp del]

definition trimSpace :: "string \<Rightarrow> string" where
  "trimSpace s =
     rev (stripFront (map rev spaceEncodings) (rev (stripFront spaceEncodings s)))"

section \<open>Splitting, joining, searching\<close>

fun splitOn :: "'a \<Rightarrow> 'a list \<Rightarrow> 'a list list" where
  "splitOn c [] = [[]]"
| "splitOn c (x # xs) =
     (if x = c then [] # splitOn c xs
      else (case splitOn c xs of [] \<Rightarrow> [[x]] | y # ys \<Rightarrow> (x # y) # ys))"

fun joinWith :: "'a list \<Rightarrow> 'a list list \<Rightarrow> 'a list" where
  "joinWith sep [] = []"
| "joinWith sep [x] = x"
| "joinWith sep (x # y # zs) = x @ sep @ joinWith sep (y # zs)"

fun contains :: "'a list \<Rightarrow> 'a list \<Rightarrow> bool" where
  "contains [] p \<longleftrightarrow> p = []"
| "contains (x # xs) p \<longleftrightarrow> hasPrefix (x # xs) p \<or> contains xs p"

fun replaceAll :: "'a list \<Rightarrow> 'a list \<Rightarrow> 'a list \<Rightarrow> 'a list" where
  "replaceAll old new [] = []"
| "replaceAll old new (x # xs) =
     (if old \<noteq> [] \<and> hasPrefix (x # xs) old
      then new @ replaceAll old new (drop (length old - 1) xs)
      else x # replaceAll old new xs)"

lemma splitOn_nonempty [simp]: "splitOn c s \<noteq> []"
  by (induction s) (auto split: list.splits)

lemma splitOn_cases:
  obtains y ys where "splitOn c s = y # ys"
  by (cases "splitOn c s") simp_all

lemma splitOn_no_sep: "\<forall>p \<in> set (splitOn c s). c \<notin> set p"
  by (induction s) (auto split: list.splits)

lemma joinWith_splitOn: "joinWith [c] (splitOn c s) = s"
proof (induction s)
  case (Cons x xs)
  obtain y ys where "splitOn c xs = y # ys" by (rule splitOn_cases)
  with Cons.IH show ?case by (cases ys) auto
qed simp

lemma splitOn_plain: "c \<notin> set s \<Longrightarrow> splitOn c s = [s]"
  by (induction s) auto

lemma splitOn_append_sep: "c \<notin> set s \<Longrightarrow> splitOn c (s @ c # t) = s # splitOn c t"
  by (induction s) auto

lemma splitOn_joinWith:
  "xs \<noteq> [] \<Longrightarrow> \<forall>x \<in> set xs. c \<notin> set x \<Longrightarrow> splitOn c (joinWith [c] xs) = xs"
proof (induction "[c]" xs rule: joinWith.induct)
  case (2 x)
  then show ?case by (simp add: splitOn_plain)
next
  case (3 x y zs)
  then show ?case by (simp add: splitOn_append_sep)
qed simp

lemma contains_iff: "contains s p \<longleftrightarrow> (\<exists>a b. s = a @ p @ b)"
proof (induction s)
  case (Cons x xs)
  show ?case
  proof
    assume "contains (x # xs) p"
    then show "\<exists>a b. x # xs = a @ p @ b"
      using Cons.IH by (metis Cons_eq_append_conv append_Cons contains.simps(2) hasPrefix_iff)
  next
    assume "\<exists>a b. x # xs = a @ p @ b"
    then obtain a b where ab: "x # xs = a @ p @ b" by blast
    show "contains (x # xs) p"
    proof (cases a)
      case Nil
      with ab have "hasPrefix (x # xs) p" by simp
      then show ?thesis by simp
    next
      case (Cons z a')
      with ab have "xs = a' @ p @ b" by simp
      then show ?thesis using Cons.IH by auto
    qed
  qed
qed auto

lemma replaceAll_absent: "\<not> contains s old \<Longrightarrow> replaceAll old new s = s"
  by (induction s) auto

section \<open>Decimal numbers\<close>

definition digitChar :: "nat \<Rightarrow> char" where
  "digitChar d = char_of (48 + d)"

definition isDigit :: "char \<Rightarrow> bool" where
  "isDigit c \<longleftrightarrow> 48 \<le> (of_char c :: nat) \<and> (of_char c :: nat) \<le> 57"

definition digitVal :: "char \<Rightarrow> nat" where
  "digitVal c = of_char c - 48"

fun showNat :: "nat \<Rightarrow> string" where
  "showNat n = (if n < 10 then [digitChar n] else showNat (n div 10) @ [digitChar (n mod 10)])"

declare showNat.simps [simp del]

definition itoa :: "int \<Rightarrow> string" where
  "itoa i = (if i < 0 then CHR ''-'' # showNat (nat (- i)) else showNat (nat i))"

definition digitsVal :: "string \<Rightarrow> nat" where
  "digitsVal s = foldl (\<lambda>n c. 10 * n + digitVal c) 0 s"

definition parseDigits :: "string \<Rightarrow> nat option" where
  "parseDigits s = (if s \<noteq> [] \<and> list_all isDigit s then Some (digitsVal s) else None)"

definition inInt64 :: "int \<Rightarrow> bool" where
  "inInt64 i \<longleftrightarrow> - (2 ^ 63) \<le> i \<and> i < 2 ^ 63"

text \<open>\<open>strconv.Atoi\<close>: an optional sign, at least one digit, and the range of \<open>int\<close>.\<close>

definition atoi :: "string \<Rightarrow> int option" where
  "atoi s =
     (let neg = hasPrefix s ''-'';
          ds = (if hasPrefix s ''-'' \<or> hasPrefix s ''+'' then tl s else s)
      in case parseDigits ds of
           None \<Rightarrow> None
         | Some n \<Rightarrow>
             (let i = (if neg then - int n else int n)
              in if inInt64 i then Some i else None))"

lemma of_char_digitChar: "d < 10 \<Longrightarrow> (of_char (digitChar d) :: nat) = 48 + d"
  by (simp add: digitChar_def of_char_of)

lemma isDigit_digitChar [simp]: "d < 10 \<Longrightarrow> isDigit (digitChar d)"
  by (simp add: isDigit_def of_char_digitChar)

lemma digitVal_digitChar [simp]: "d < 10 \<Longrightarrow> digitVal (digitChar d) = d"
  by (simp add: digitVal_def of_char_digitChar)

lemma digitsVal_snoc: "digitsVal (s @ [c]) = 10 * digitsVal s + digitVal c"
  by (simp add: digitsVal_def)

lemma showNat_digits: "showNat n \<noteq> [] \<and> list_all isDigit (showNat n) \<and> digitsVal (showNat n) = n"
proof (induction n rule: showNat.induct)
  case (1 n)
  show ?case
  proof (cases "n < 10")
    case True
    then show ?thesis by (simp add: showNat.simps digitsVal_def)
  next
    case False
    with 1 show ?thesis
      by (simp add: showNat.simps [of n] digitsVal_snoc)
  qed
qed

lemma parseDigits_showNat [simp]: "parseDigits (showNat n) = Some n"
  by (simp add: parseDigits_def showNat_digits)

lemma showNat_Cons:
  obtains c cs where "showNat n = c # cs" and "isDigit c"
  using showNat_digits [of n] by (cases "showNat n") auto

lemma not_isDigit_sign [simp]:
  "\<not> isDigit (CHR ''-'')" "\<not> isDigit (CHR ''+'')"
  by (simp_all add: isDigit_def)

lemma atoi_itoa:
  assumes "inInt64 i"
  shows "atoi (itoa i) = Some i"
proof (cases "i < 0")
  case True
  with assms show ?thesis by (simp add: atoi_def itoa_def)
next
  case False
  obtain c cs where s: "showNat (nat i) = c # cs" and "isDigit c"
    by (rule showNat_Cons)
  then have "c \<noteq> CHR ''-''" "c \<noteq> CHR ''+''" by auto
  then have "atoi (showNat (nat i)) = (case parseDigits (showNat (nat i)) of None \<Rightarrow> None
      | Some n \<Rightarrow> (if inInt64 (int n) then Some (int n) else None))"
    by (simp add: atoi_def s split: option.splits)
  with False assms show ?thesis by (simp add: itoa_def)
qed

lemma showNat_inj: "showNat m = showNat n \<Longrightarrow> m = n"
  by (metis showNat_digits)

lemma atoi_range: "atoi s = Some i \<Longrightarrow> inInt64 i"
  by (auto simp: atoi_def Let_def split: option.splits if_splits)

end
