(* ===== verification/Go_Io.thy ===== *)
theory Go_Io
  imports Go_Strings
begin

text \<open>
  Byte streams as the program sees them through \<open>io.Reader\<close>, \<open>io.Writer\<close> and
  \<open>bufio.Reader\<close>. A reader holds every byte that will still arrive and the error the stream
  ends with; a writer holds what was accepted and how much more it will accept before it fails.
  The theory also states the interface of a self-delimiting encoding, and what follows from it for
  a stream of encoded items.
\<close>

section \<open>Bytes and characters\<close>

definition byteChar :: "byte \<Rightarrow> char" where
  "byteChar b = char_of (unat b)"

definition charByte :: "char \<Rightarrow> byte" where
  "charByte c = word_of_nat (of_char c)"

definition bytesString :: "byte list \<Rightarrow> string" where
  "bytesString bs = map byteChar bs"

definition stringBytes :: "string \<Rightarrow> byte list" where
  "stringBytes s = map charByte s"

lemma byteChar_charByte [simp]: "byteChar (charByte c) = c"
proof -
  have "(of_char c :: nat) < 2 ^ 8" by simp
  then have "unat (word_of_nat (of_char c) :: byte) = of_char c"
    by (simp add: unat_of_nat)
  then show ?thesis by (simp add: byteChar_def charByte_def)
qed

lemma charByte_byteChar [simp]: "charByte (byteChar b) = b"
proof -
  have "unat b < 256" using unsigned_less [of b, where ?'a = nat] by simp
  then show ?thesis by (simp add: byteChar_def charByte_def of_char_of)
qed

lemma bytesString_stringBytes [simp]: "bytesString (stringBytes s) = s"
  by (simp add: bytesString_def stringBytes_def comp_def)

lemma stringBytes_bytesString [simp]: "stringBytes (bytesString bs) = bs"
  by (simp add: bytesString_def stringBytes_def comp_def)

lemma length_stringBytes [simp]: "length (stringBytes s) = length s"
  by (simp add: stringBytes_def)

section \<open>Readers\<close>

datatype ioErr = EOF | UnexpectedEOF | BufferFull | ConnErr

record reader =
  unread :: "byte list"
  ends :: ioErr

text \<open>\<open>io.ReadFull\<close>: all \<open>n\<close> bytes, or the error that stopped it.\<close>

definition readFull :: "nat \<Rightarrow> (reader, ioErr, byte list) action" where
  "readFull n r =
     (if n \<le> length (unread r) then (Inr (take n (unread r)), r\<lparr>unread := drop n (unread r)\<rparr>)
      else (Inl (if unread r \<noteq> [] \<and> ends r = EOF then UnexpectedEOF else ends r),
            r\<lparr>unread := []\<rparr>))"

text \<open>
  \<open>bufio.Reader.ReadSlice\<close> with a buffer of \<open>cap\<close> bytes: the line up to and including
  the delimiter when it fits into the buffer.
\<close>

definition readSlice :: "nat \<Rightarrow> byte \<Rightarrow> (reader, ioErr, byte list) action" where
  "readSlice cap delim r =
     (let line = takeWhile (\<lambda>b. b \<noteq> delim) (unread r);
          rest = dropWhile (\<lambda>b. b \<noteq> delim) (unread r)
      in if rest \<noteq> [] \<and> length line < cap then (Inr (line @ [delim]), r\<lparr>unread := tl rest\<rparr>)
         else if cap \<le> length (unread r) then (Inl BufferFull, r\<lparr>unread := drop cap (unread r)\<rparr>)
         else (Inl (ends r), r\<lparr>unread := []\<rparr>))"

text \<open>\<open>io.ReadAll (io.LimitReader r n)\<close>: at most \<open>n\<close> bytes; an end before that is no error.\<close>

definition readAllLimited :: "nat \<Rightarrow> (reader, ioErr, byte list) action" where
  "readAllLimited n r =
     (if n \<le> length (unread r) \<or> ends r = EOF
      then (Inr (take n (unread r)), r\<lparr>unread := drop n (unread r)\<rparr>)
      else (Inl (ends r), r\<lparr>unread := []\<rparr>))"

lemma readFull_Inr_iff:
  "readFull n r = (Inr bs, r') \<longleftrightarrow>
     length bs = n \<and> unread r = bs @ unread r' \<and> r' = r\<lparr>unread := unread r'\<rparr>"
proof
  assume "readFull n r = (Inr bs, r')"
  then show "length bs = n \<and> unread r = bs @ unread r' \<and> r' = r\<lparr>unread := unread r'\<rparr>"
    by (auto simp: readFull_def split: if_splits)
next
  assume a: "length bs = n \<and> unread r = bs @ unread r' \<and> r' = r\<lparr>unread := unread r'\<rparr>"
  then have "take n (unread r) = bs" "drop n (unread r) = unread r'" "n \<le> length (unread r)"
    by auto
  with a show "readFull n r = (Inr bs, r')" by (simp add: readFull_def)
qed

lemma readFull_append [result_simps]:
  "length bs = n \<Longrightarrow> unread r = bs @ rest \<Longrightarrow> readFull n r = (Inr bs, r\<lparr>unread := rest\<rparr>)"
  by (simp add: readFull_Inr_iff)

lemma readFull_short [result_simps]:
  "length (unread r) < n \<Longrightarrow> readFull n r =
     (Inl (if unread r \<noteq> [] \<and> ends r = EOF then UnexpectedEOF else ends r), r\<lparr>unread := []\<rparr>)"
  by (simp add: readFull_def)

lemma readSlice_line:
  assumes "delim \<notin> set line" and "unread r = line @ delim # rest" and "length line < cap"
  shows "readSlice cap delim r = (Inr (line @ [delim]), r\<lparr>unread := rest\<rparr>)"
proof -
  have "takeWhile (\<lambda>b. b \<noteq> delim) (unread r) = line"
    using assms(1) unfolding assms(2) by (subst takeWhile_append2) auto
  moreover have "dropWhile (\<lambda>b. b \<noteq> delim) (unread r) = delim # rest"
    using assms(1) unfolding assms(2) by (subst dropWhile_append2) auto
  ultimately show ?thesis using assms(3) by (simp add: readSlice_def)
qed

lemma readSlice_bound:
  "readSlice cap delim r = (Inr l, r') \<Longrightarrow> length l \<le> cap \<and> unread r = l @ unread r'"
proof -
  assume "readSlice cap delim r = (Inr l, r')"
  then have l: "dropWhile (\<lambda>b. b \<noteq> delim) (unread r) \<noteq> []"
    "length (takeWhile (\<lambda>b. b \<noteq> delim) (unread r)) < cap"
    "l = takeWhile (\<lambda>b. b \<noteq> delim) (unread r) @ [delim]"
    "unread r' = tl (dropWhile (\<lambda>b. b \<noteq> delim) (unread r))"
    by (auto simp: readSlice_def Let_def split: if_splits)
  moreover have "hd (dropWhile (\<lambda>b. b \<noteq> delim) (unread r)) = delim"
    using hd_dropWhile [OF l(1)] by simp
  ultimately show ?thesis
    by (metis Suc_leI append.assoc append_Cons append_Nil length_append_singleton list.collapse
        takeWhile_dropWhile_id)
qed

section \<open>Writers\<close>

record writer =
  written :: "byte list"
  room :: "nat option"

text \<open>A write that does not fit is accepted in part and fails.\<close>

definition writeBytes :: "byte list \<Rightarrow> (writer, ioErr, unit) action" where
  "writeBytes bs w =
     (case room w of
        None \<Rightarrow> (Inr (), w\<lparr>written := written w @ bs\<rparr>)
      | Some k \<Rightarrow>
          if length bs \<le> k
          then (Inr (), w\<lparr>written := written w @ bs, room := Some (k - length bs)\<rparr>)
          else (Inl ConnErr, w\<lparr>written := written w @ take k bs, room := Some 0\<rparr>))"

definition wouldFit :: "nat \<Rightarrow> writer \<Rightarrow> bool" where
  "wouldFit n w \<longleftrightarrow> (case room w of None \<Rightarrow> True | Some k \<Rightarrow> n \<le> k)"

definition advance :: "byte list \<Rightarrow> writer \<Rightarrow> writer" where
  "advance bs w = w\<lparr>written := written w @ bs, room := map_option (\<lambda>k. k - length bs) (room w)\<rparr>"

lemma write_ok_iff: "writeBytes bs w = (Inr (), w') \<longleftrightarrow> wouldFit (length bs) w \<and> w' = advance bs w"
  by (cases w) (auto simp: writeBytes_def wouldFit_def advance_def split: option.splits)

lemma write_fits [result_simps]: "wouldFit (length bs) w \<Longrightarrow> writeBytes bs w = (Inr (), advance bs w)"
  by (simp add: write_ok_iff)

lemma advance_advance [simp]: "advance bs (advance as w) = advance (as @ bs) w"
  by (cases w; cases "room w") (simp_all add: advance_def)

lemma wouldFit_advance: "wouldFit (length bs) (advance as w) \<and> wouldFit (length as) w
    \<longleftrightarrow> wouldFit (length as + length bs) w"
  by (cases "room w") (auto simp: wouldFit_def advance_def)

lemma written_advance [simp]: "written (advance bs w) = written w @ bs"
  by (simp add: advance_def)

text \<open>Nothing that was written is taken back.\<close>

definition extends :: "writer \<Rightarrow> writer \<Rightarrow> bool" where
  "extends w w' \<longleftrightarrow> (\<exists>bs. written w' = written w @ bs)"

lemma extends_refl_trans: "reflp extends" "transp extends"
  by (auto simp: reflp_def transp_def extends_def)

lemma keeps_extends_write: "keeps extends (writeBytes bs)"
  by (auto simp: keeps_def writeBytes_def extends_def split: option.splits if_splits)

section \<open>Self-delimiting encodings\<close>

text \<open>Reading \<open>n\<close> items one after the other.\<close>

fun decodeMany :: "('b list \<Rightarrow> ('x \<times> 'b list) option) \<Rightarrow> nat \<Rightarrow> 'b list \<Rightarrow> ('x list \<times> 'b list) option"
where
  "decodeMany dec 0 bs = Some ([], bs)"
| "decodeMany dec (Suc n) bs =
     (case dec bs of
        None \<Rightarrow> None
      | Some (x, rest) \<Rightarrow> map_option (\<lambda>(xs, r). (x # xs, r)) (decodeMany dec n rest))"

text \<open>
  What a sender and a receiver agree on: decoding the encoding of a good item, whatever follows it,
  gives that item and leaves what follows.
\<close>

locale stream_codec =
  fixes enc :: "'x \<Rightarrow> 'b list" and good :: "'x \<Rightarrow> bool"
    and dec :: "'b list \<Rightarrow> ('x \<times> 'b list) option"
  assumes dec_enc: "good x \<Longrightarrow> dec (enc x @ rest) = Some (x, rest)"
begin

lemma decode_stream:
  "list_all good xs \<Longrightarrow> decodeMany dec (length xs) (concat (map enc xs) @ rest) = Some (xs, rest)"
  by (induction xs) (simp_all add: dec_enc)

lemma enc_cancel:
  "good x \<Longrightarrow> good y \<Longrightarrow> enc x @ r = enc y @ s \<Longrightarrow> x = y \<and> r = s"
  by (metis Pair_inject dec_enc option.inject)

lemma enc_not_prefix: "good x \<Longrightarrow> good y \<Longrightarrow> enc y = enc x @ r \<Longrightarrow> r = []"
  using enc_cancel [of x y r "[]"] by simp

end

text \<open>An exact decoder accepts nothing but encodings of good items.\<close>

locale exact_codec = stream_codec +
  assumes dec_only: "dec bs = Some (x, rest) \<Longrightarrow> bs = enc x @ rest \<and> good x"
begin

lemma decode_stream_only:
  "decodeMany dec n bs = Some (xs, rest) \<Longrightarrow>
     length xs = n \<and> list_all good xs \<and> bs = concat (map enc xs) @ rest"
proof (induction n arbitrary: bs xs)
  case (Suc n)
  then obtain x r ys where "dec bs = Some (x, r)" "decodeMany dec n r = Some (ys, rest)"
    "xs = x # ys"
    by (auto split: option.splits)
  with Suc.IH [of r ys] dec_only [of bs x r] show ?case by auto
qed simp

lemma dec_iff: "dec bs = Some (x, rest) \<longleftrightarrow> good x \<and> bs = enc x @ rest"
  using dec_enc dec_only by blast

lemma truncated_fails:
  assumes "good x" and "enc x = bs @ rest0" and "rest0 \<noteq> []"
  shows "dec bs = None"
proof (rule ccontr)
  assume "dec bs \<noteq> None"
  then obtain y rest where y: "good y" "bs = enc y @ rest" by (auto simp: dec_iff)
  with assms have "enc x = enc y @ (rest @ rest0)" by simp
  with enc_not_prefix [OF y(1) assms(1)] assms(3) show False by simp
qed

end

end
