(* ===== verification/Agent_Frame.thy ===== *)
theory Agent_Frame
  imports Go_Io
begin

unbundle bit_operations_syntax

text \<open>
  The shell frames of \<open>agent/protocol/frame.go\<close>: one type byte, a big-endian 32-bit length,
  the payload. \<open>readFrame\<close> and \<open>writeFrame\<close> are \<open>ReadFrame\<close> and
  \<open>WriteFrame\<close> over the readers and writers of \<open>Go_Io\<close>.
\<close>

section \<open>The code\<close>

definition FramePayloadLimit :: nat where
  [bound_simps]: "FramePayloadLimit = 64 * 1024"

definition FrameData :: byte where "FrameData = 0"

definition FrameResize :: byte where "FrameResize = 1"

definition FrameExit :: byte where "FrameExit = 2"

datatype frameErr = FrameIO ioErr | ErrFrameTooLarge

record frame =
  ftype :: byte
  payload :: "byte list"

text \<open>\<open>binary.BigEndian.Uint32\<close> and \<open>PutUint32\<close>.\<close>

fun getUint32 :: "byte list \<Rightarrow> 32 word" where
  "getUint32 [a, b, c, d] =
     ucast d OR push_bit 8 (ucast c) OR push_bit 16 (ucast b) OR push_bit 24 (ucast a)"
| "getUint32 _ = 0"

definition putUint32 :: "32 word \<Rightarrow> byte list" where
  "putUint32 v = [ucast (drop_bit 24 v), ucast (drop_bit 16 v), ucast (drop_bit 8 v), ucast v]"

definition readFrame :: "(reader, frameErr, frame) action" where
  "readFrame =
     attempt (wrapErr FrameIO (readFull 5)) (\<lambda>header.
       let len = getUint32 (drop 1 header) in
       if len > word_of_nat FramePayloadLimit then failWith ErrFrameTooLarge
       else attempt (wrapErr FrameIO (readFull (unat len))) (\<lambda>body.
         succeed \<lparr>ftype = header ! 0, payload = body\<rparr>))"

definition writeFrame :: "byte \<Rightarrow> byte list \<Rightarrow> (writer, frameErr, unit) action" where
  "writeFrame t p =
     (if length p > FramePayloadLimit then failWith ErrFrameTooLarge
      else attempt (wrapErr FrameIO (writeBytes (t # putUint32 (word_of_nat (length p))))) (\<lambda>_.
        wrapErr FrameIO (writeBytes p)))"

section \<open>The wire format\<close>

definition encodeFrame :: "frame \<Rightarrow> byte list" where
  "encodeFrame f = ftype f # putUint32 (word_of_nat (length (payload f))) @ payload f"

definition frameOk :: "frame \<Rightarrow> bool" where
  "frameOk f \<longleftrightarrow> length (payload f) \<le> FramePayloadLimit"

definition decodeFrame :: "byte list \<Rightarrow> (frame \<times> byte list) option" where
  "decodeFrame bs =
     (case readFrame \<lparr>unread = bs, ends = EOF\<rparr> of
        (Inr f, r) \<Rightarrow> Some (f, unread r)
      | (Inl _, _) \<Rightarrow> None)"

lemma encodeFrame_eta [simp]: "encodeFrame \<lparr>ftype = ftype f, payload = payload f\<rparr> = encodeFrame f"
  by (simp add: encodeFrame_def)

lemma length_putUint32 [simp]: "length (putUint32 v) = 4"
  by (simp add: putUint32_def)

lemma getUint32_putUint32 [simp]: "getUint32 (putUint32 v) = v"
  by (rule bit_word_eqI)
    (auto simp: putUint32_def bit_simps not_less le_diff_conv2 not_le less_diff_conv
      intro: le_less_trans)

lemma putUint32_getUint32:
  "length bs = 4 \<Longrightarrow> putUint32 (getUint32 bs) = bs"
proof -
  assume "length bs = 4"
  then obtain a b c d where bs: "bs = [a, b, c, d]"
    by (auto simp: numeral_eq_Suc length_Suc_conv)
  show ?thesis
    unfolding bs putUint32_def
    by (auto intro!: bit_word_eqI simp: bit_simps; drule bit_imp_le_length; simp)
qed

lemma limit_word: "unat (word_of_nat FramePayloadLimit :: 32 word) = FramePayloadLimit"
  by (simp add: FramePayloadLimit_def)

lemma length_word:
  assumes "n \<le> FramePayloadLimit"
  shows "unat (word_of_nat n :: 32 word) = n"
  using assms by (simp add: FramePayloadLimit_def unat_of_nat)

lemma over_limit_iff:
  "v > (word_of_nat FramePayloadLimit :: 32 word) \<longleftrightarrow> FramePayloadLimit < unat v"
  by (simp add: word_less_nat_alt limit_word)

text \<open>Every run of \<open>readFrame\<close>, branch by branch.\<close>

lemma readFrame_no_header:
  "length (unread r) < 5 \<Longrightarrow> readFrame r =
     (Inl (FrameIO (if unread r \<noteq> [] \<and> ends r = EOF then UnexpectedEOF else ends r)),
      r\<lparr>unread := []\<rparr>)"
  by (simp add: readFrame_def attempt_def wrapErr_def readFull_short)

lemma header_split:
  assumes "5 \<le> length bs"
  obtains t v rest where "bs = (t # putUint32 v) @ rest"
proof -
  obtain t l rest where "bs = (t # l) @ rest" and "length l = 4"
  proof
    show "bs = (hd bs # take 4 (tl bs)) @ drop 5 bs"
      using assms by (cases bs) (simp_all add: numeral_eq_Suc)
    show "length (take 4 (tl bs)) = 4" using assms by simp
  qed
  with that putUint32_getUint32 show thesis by metis
qed

lemma readFrame_header:
  assumes "unread r = (t # putUint32 v) @ rest"
  shows "readFrame r =
     (if FramePayloadLimit < unat v then (Inl ErrFrameTooLarge, r\<lparr>unread := rest\<rparr>)
      else if unat v \<le> length rest
      then (Inr \<lparr>ftype = t, payload = take (unat v) rest\<rparr>, r\<lparr>unread := drop (unat v) rest\<rparr>)
      else (Inl (FrameIO (if rest \<noteq> [] \<and> ends r = EOF then UnexpectedEOF else ends r)),
            r\<lparr>unread := []\<rparr>))"
proof -
  have "readFull 5 r = (Inr (t # putUint32 v), r\<lparr>unread := rest\<rparr>)"
    by (rule readFull_append) (simp_all add: assms)
  then show ?thesis
    by (auto simp: readFrame_def attempt_def wrapErr_def over_limit_iff readFull_def Let_def
        result_simps)
qed

lemma writeFrame_run:
  assumes "length p \<le> FramePayloadLimit" and "wouldFit (5 + length p) w"
  shows "writeFrame t p w = (Inr (), advance (encodeFrame \<lparr>ftype = t, payload = p\<rparr>) w)"
proof -
  let ?h = "t # putUint32 (word_of_nat (length p))"
  have "wouldFit (length ?h) w" "wouldFit (length p) (advance ?h w)"
    using assms(2) wouldFit_advance [of p ?h w] by auto
  then show ?thesis
    using assms(1) by (simp add: writeFrame_def attempt_def wrapErr_def write_fits encodeFrame_def)
qed

lemma writeFrame_too_large:
  "FramePayloadLimit < length p \<Longrightarrow> writeFrame t p w = (Inl ErrFrameTooLarge, w)"
  by (simp add: writeFrame_def failWith_run)

lemma writeFrame_ok_iff:
  "writeFrame t p w = (Inr (), w') \<longleftrightarrow>
     length p \<le> FramePayloadLimit \<and> wouldFit (5 + length p) w
     \<and> w' = advance (encodeFrame \<lparr>ftype = t, payload = p\<rparr>) w"
proof
  assume a: "writeFrame t p w = (Inr (), w')"
  let ?h = "t # putUint32 (word_of_nat (length p))"
  have p: "length p \<le> FramePayloadLimit"
    using a by (auto simp: writeFrame_def failWith_run split: if_splits)
  with a obtain w1 where "writeBytes ?h w = (Inr (), w1)" "writeBytes p w1 = (Inr (), w')"
    by (auto simp: writeFrame_def attempt_eq_Inr_iff wrapErr_def split: prod.splits)
  then have "wouldFit (length ?h) w" "wouldFit (length p) (advance ?h w)"
    "w' = advance p (advance ?h w)"
    by (auto simp: write_ok_iff)
  with p wouldFit_advance [of p ?h w]
  show "length p \<le> FramePayloadLimit \<and> wouldFit (5 + length p) w
      \<and> w' = advance (encodeFrame \<lparr>ftype = t, payload = p\<rparr>) w"
    by (simp add: encodeFrame_def)
qed (simp add: writeFrame_run)

lemma keeps_extends_writeFrame: "keeps extends (writeFrame t p)"
  unfolding writeFrame_def
  using extends_refl_trans
  by (auto intro!: keeps_attempt keeps_wrapErr keeps_extends_write)

section \<open>The frame stream\<close>

interpretation frames: exact_codec encodeFrame frameOk decodeFrame
proof unfold_locales
  fix f :: frame and rest
  assume "frameOk f"
  then have l: "length (payload f) \<le> FramePayloadLimit" by (simp add: frameOk_def)
  show "decodeFrame (encodeFrame f @ rest) = Some (f, rest)"
    unfolding decodeFrame_def
    by (subst readFrame_header [where t = "ftype f" and v = "word_of_nat (length (payload f))"
          and rest = "payload f @ rest"])
      (use l in \<open>simp_all add: encodeFrame_def length_word\<close>)
next
  fix bs and f :: frame and rest
  assume d: "decodeFrame bs = Some (f, rest)"
  then have "5 \<le> length bs"
    by (rule contrapos_pp) (simp add: decodeFrame_def readFrame_no_header)
  then obtain t v tl where bs: "bs = (t # putUint32 v) @ tl" by (rule header_split)
  from d have "unat v \<le> FramePayloadLimit" "unat v \<le> length tl"
    "f = \<lparr>ftype = t, payload = take (unat v) tl\<rparr>" "rest = drop (unat v) tl"
    unfolding decodeFrame_def
    by (auto simp: readFrame_header [where t = t and v = v and rest = tl] bs split: if_splits)
  then show "bs = encodeFrame f @ rest \<and> frameOk f"
    by (simp add: bs encodeFrame_def frameOk_def)
qed

text \<open>A sender that writes its frames one after the other and stops at the first failure.\<close>

fun sendFrames :: "frame list \<Rightarrow> (writer, frameErr, unit) action" where
  "sendFrames [] = succeed ()"
| "sendFrames (f # fs) = attempt (writeFrame (ftype f) (payload f)) (\<lambda>_. sendFrames fs)"

lemma sendFrames_ok:
  "sendFrames fs w = (Inr (), w') \<Longrightarrow>
     list_all frameOk fs \<and> written w' = written w @ concat (map encodeFrame fs)"
proof (induction fs arbitrary: w)
  case (Cons f fs)
  then obtain w1 where f: "writeFrame (ftype f) (payload f) w = (Inr (), w1)"
    and fs: "sendFrames fs w1 = (Inr (), w')"
    by (auto simp: attempt_eq_Inr_iff)
  from f Cons.IH [OF fs] show ?case by (auto simp: writeFrame_ok_iff frameOk_def)
qed (simp add: succeed_def)

section \<open>Properties\<close>

text \<open>C4: Frames written one after the other are read back one after the other: whatever
  sequence of frames \<open>WriteFrame\<close> accepted, reading as many frames from what was written gives
  the same sequence, and leaves untouched whatever follows on the connection.\<close>

theorem frame_stream_roundtrip:
  assumes "sendFrames fs w = (Inr (), w')"
  shows "decodeMany decodeFrame (length fs) (drop (length (written w)) (written w') @ rest)
    = Some (fs, rest)"
  using sendFrames_ok [OF assms] frames.decode_stream [of fs rest] by simp

theorem frame_stream_roundtrip_witness:
  "decodeMany decodeFrame (Suc (Suc 0)) [0, 0, 0, 0, 2, 104, 105, 2, 0, 0, 0, 1, 7, 99]
    = Some ([\<lparr>ftype = FrameData, payload = [104, 105]\<rparr>, \<lparr>ftype = FrameExit, payload = [7]\<rparr>], [99])"
proof -
  let ?fs = "[\<lparr>ftype = FrameData, payload = [104, 105]\<rparr>, \<lparr>ftype = FrameExit, payload = [7]\<rparr>]"
  let ?w = "\<lparr>written = [], room = Some 20\<rparr>"
  have "sendFrames ?fs ?w
      = (Inr (), \<lparr>written = [0, 0, 0, 0, 2, 104, 105, 2, 0, 0, 0, 1, 7], room = Some 7\<rparr>)"
    by (simp add: writeFrame_def attempt_def wrapErr_def writeBytes_def succeed_def putUint32_def
        FramePayloadLimit_def FrameData_def FrameExit_def drop_bit_eq_div)
  from frame_stream_roundtrip [OF this, of "[99]"] show ?thesis
    by (simp del: decodeMany.simps)
qed

text \<open>C17: \<open>ReadFrame\<close> accepts exactly the encodings of frames within the payload limit, and
  consumes exactly the frame it returns: no byte of the next frame is taken, none is left behind.\<close>

theorem readFrame_exact:
  "readFrame r = (Inr f, r') \<longleftrightarrow>
     length (payload f) \<le> FramePayloadLimit \<and> unread r = encodeFrame f @ unread r'
     \<and> r' = r\<lparr>unread := unread r'\<rparr>"
proof (cases "5 \<le> length (unread r)")
  case True
  then obtain t v tl where tl: "unread r = (t # putUint32 v) @ tl" by (rule header_split)
  let ?n = "unat v"
  have dec: "decodeFrame (unread r) = (if FramePayloadLimit < ?n \<or> length tl < ?n then None
      else Some (\<lparr>ftype = t, payload = take ?n tl\<rparr>, drop ?n tl))"
    unfolding decodeFrame_def
    by (subst readFrame_header [where t = t and v = v and rest = tl]) (auto simp: tl not_le)
  have run: "readFrame r = (Inr f, r') \<longleftrightarrow>
      decodeFrame (unread r) = Some (f, unread r') \<and> r' = r\<lparr>unread := unread r'\<rparr>"
    unfolding dec readFrame_header [OF tl] by (auto simp: not_le)
  show ?thesis unfolding run frames.dec_iff frameOk_def by blast
next
  case False
  then show ?thesis by (auto simp: readFrame_no_header encodeFrame_def)
qed

text \<open>A header that announces more than 64 KiB is refused with \<open>ErrFrameTooLarge\<close> before a
  byte of its payload is read, and nothing else is refused for its size.\<close>

theorem readFrame_too_large:
  "readFrame r = (Inl ErrFrameTooLarge, r') \<longleftrightarrow>
     (\<exists>t v. unread r = (t # putUint32 v) @ unread r' \<and> 65536 < unat v \<and> r' = r\<lparr>unread := unread r'\<rparr>)"
proof (cases "5 \<le> length (unread r)")
  case True
  then obtain t v tl where tl: "unread r = (t # putUint32 v) @ tl" by (rule header_split)
  have inj: "putUint32 v = putUint32 v' \<Longrightarrow> v = v'" for v'
    by (metis getUint32_putUint32)
  show ?thesis
    unfolding readFrame_header [OF tl]
    by (auto simp: tl FramePayloadLimit_def dest!: inj)
next
  case False
  then show ?thesis by (auto simp: readFrame_no_header)
qed

text \<open>A frame cut short by the end of the connection is an error, never a shorter frame: no
  proper front of an encoded frame is read as a frame.\<close>

theorem truncated_frame_fails:
  assumes "length (payload f) \<le> FramePayloadLimit" and "encodeFrame f = bs @ lost" and "lost \<noteq> []"
  shows "\<exists>e. fst (readFrame \<lparr>unread = bs, ends = EOF\<rparr>) = Inl (FrameIO e)"
proof -
  have none: "decodeFrame bs = None"
    by (rule frames.truncated_fails [OF _ assms(2,3)]) (simp add: frameOk_def assms(1))
  show ?thesis
  proof (cases "5 \<le> length bs")
    case True
    then obtain t v tl where bs: "bs = (t # putUint32 v) @ tl" by (rule header_split)
    obtain x :: "32 word" where x: "x = word_of_nat (length (payload f))" by simp
    then have "encodeFrame f = ftype f # putUint32 x @ payload f" by (simp add: encodeFrame_def)
    then have "ftype f # putUint32 x @ payload f = bs @ lost" using assms(2) by (rule subst)
    then have "putUint32 x = putUint32 v" by (simp add: bs)
    then have "v = x" by (metis getUint32_putUint32)
    with x assms(1) have "unat v \<le> FramePayloadLimit" by (simp add: length_word)
    with none show ?thesis
      by (auto simp: decodeFrame_def bs readFrame_header [where t = t and v = v and rest = tl]
          split: if_splits)
  qed (simp add: readFrame_no_header)
qed

theorem truncated_frame_fails_witness:
  "\<exists>e. fst (readFrame \<lparr>unread = [0, 0, 0, 0, 2, 104], ends = EOF\<rparr>) = Inl (FrameIO e)"
  by (rule truncated_frame_fails [of "\<lparr>ftype = 0, payload = [104, 105]\<rparr>" _ "[105]"])
    (simp_all add: FramePayloadLimit_def encodeFrame_def putUint32_def drop_bit_eq_div)

end
