(* ===== verification/Go_Utf8.thy ===== *)
theory Go_Utf8
  imports Go_Strings
begin

text \<open>
  What the program uses of Go's \<open>unicode/utf8\<close>: decoding the rune at the front of a string,
  \<open>utf8.Valid\<close>, and encoding a rune. The byte ranges are those of the package's tables:
  no overlong form, no surrogate, nothing beyond U+10FFFF.
\<close>

section \<open>Decoding\<close>

definition code :: "char \<Rightarrow> nat" where
  "code c = of_char c"

definition isCont :: "char \<Rightarrow> bool" where
  "isCont c \<longleftrightarrow> 0x80 \<le> code c \<and> code c \<le> 0xBF"

text \<open>The well-formed rune at the front of a string and its size in bytes, if there is one.\<close>

fun utf8Head :: "string \<Rightarrow> (nat \<times> nat) option" where
  "utf8Head [] = None"
| "utf8Head (a # s) =
     (let x = code a in
      if x < 0x80 then Some (x, 1)
      else if x < 0xC2 then None
      else if x < 0xE0 then
        (case s of
           b # _ \<Rightarrow>
             if isCont b then Some ((x - 0xC0) * 64 + (code b - 0x80), 2) else None
         | _ \<Rightarrow> None)
      else if x < 0xF0 then
        (case s of
           b # c # _ \<Rightarrow>
             if isCont b \<and> isCont c \<and> (x = 0xE0 \<longrightarrow> 0xA0 \<le> code b) \<and> (x = 0xED \<longrightarrow> code b \<le> 0x9F)
             then Some ((x - 0xE0) * 4096 + (code b - 0x80) * 64 + (code c - 0x80), 3) else None
         | _ \<Rightarrow> None)
      else if x < 0xF5 then
        (case s of
           b # c # d # _ \<Rightarrow>
             if isCont b \<and> isCont c \<and> isCont d \<and> (x = 0xF0 \<longrightarrow> 0x90 \<le> code b) \<and> (x = 0xF4 \<longrightarrow> code b \<le> 0x8F)
             then Some ((x - 0xF0) * 262144 + (code b - 0x80) * 4096 + (code c - 0x80) * 64
                        + (code d - 0x80), 4) else None
         | _ \<Rightarrow> None)
      else None)"

text \<open>\<open>utf8.DecodeRune\<close>: U+FFFD of width 1 for a malformed front, of width 0 at the end.\<close>

definition runeError :: nat where
  "runeError = 0xFFFD"

definition decodeRune :: "string \<Rightarrow> nat \<times> nat" where
  "decodeRune s =
     (case utf8Head s of Some p \<Rightarrow> p | None \<Rightarrow> (runeError, if s = [] then 0 else 1))"

lemma utf8Head_size:
  assumes "utf8Head s = Some (r, n)"
  shows "0 < n" "n \<le> 4" "n \<le> length s"
  using assms
  by (cases s; auto simp: Let_def split: if_splits list.splits)+

lemma utf8Head_append:
  assumes "utf8Head s = Some (r, n)"
  shows "utf8Head (s @ t) = Some (r, n)"
  using assms by (cases s) (auto simp: Let_def split: if_splits list.splits)

lemma utf8Head_take:
  assumes "utf8Head s = Some (r, n)"
  shows "utf8Head (take n s) = Some (r, n)"
  using assms
  by (cases s) (auto simp: Let_def split: if_splits list.splits)

lemma utf8Head_ascii [simp]: "code c < 0x80 \<Longrightarrow> utf8Head (c # s) = Some (code c, 1)"
  by (simp add: Let_def)

section \<open>Validity\<close>

function utf8Valid :: "string \<Rightarrow> bool" where
  "utf8Valid s =
     (if s = [] then True
      else (case utf8Head s of None \<Rightarrow> False | Some (r, n) \<Rightarrow> utf8Valid (drop n s)))"
  by pat_completeness auto
termination
  by (relation "measure length") (auto dest!: utf8Head_size(1))

declare utf8Valid.simps [simp del]

lemma utf8Valid_Nil [simp]: "utf8Valid []"
  by (simp add: utf8Valid.simps)

lemma utf8Valid_step:
  "utf8Head s = Some (r, n) \<Longrightarrow> utf8Valid s = utf8Valid (drop n s)"
  by (cases "s = []") (auto simp: utf8Valid.simps [of s])

lemma utf8Valid_ascii [simp]: "code c < 0x80 \<Longrightarrow> utf8Valid (c # s) = utf8Valid s"
  by (subst utf8Valid_step) auto

lemma utf8Valid_cases:
  assumes "utf8Valid s" and "s \<noteq> []"
  obtains r n where "utf8Head s = Some (r, n)" and "utf8Valid (drop n s)"
  using assms by (auto simp: utf8Valid.simps [of s] split: option.splits)

lemma utf8Valid_append:
  "utf8Valid s \<Longrightarrow> utf8Valid (s @ t) = utf8Valid t"
proof (induction s rule: utf8Valid.induct)
  case (1 s)
  show ?case
  proof (cases "s = []")
    case False
    with "1.prems" obtain r n where h: "utf8Head s = Some (r, n)" and v: "utf8Valid (drop n s)"
      by (rule utf8Valid_cases)
    then have "utf8Valid (s @ t) = utf8Valid (drop n (s @ t))"
      by (intro utf8Valid_step utf8Head_append)
    also have "drop n (s @ t) = drop n s @ t"
      using utf8Head_size(3) [OF h] by simp
    also have "utf8Valid (drop n s @ t) = utf8Valid t"
      using "1.IH" [OF False h refl v] .
    finally show ?thesis .
  qed simp
qed

text \<open>
  A valid string has a rune boundary within the three bytes before any position: a cut there
  loses at most three bytes.
\<close>

lemma utf8Valid_boundary:
  "utf8Valid s \<Longrightarrow> l \<le> length s \<Longrightarrow> \<exists>k \<le> l. l \<le> k + 3 \<and> utf8Valid (take k s)"
proof (induction s arbitrary: l rule: utf8Valid.induct)
  case (1 s)
  show ?case
  proof (cases "s = []")
    case True
    with "1.prems" show ?thesis by auto
  next
    case False
    with "1.prems"(1) obtain r n where h: "utf8Head s = Some (r, n)" and v: "utf8Valid (drop n s)"
      by (rule utf8Valid_cases)
    note n = utf8Head_size [OF h]
    show ?thesis
    proof (cases "l < n")
      case True
      with n have "l \<le> 0 + 3 \<and> utf8Valid (take 0 s)" by simp
      then show ?thesis by blast
    next
      case False
      then have "l - n \<le> length (drop n s)" using "1.prems"(2) by simp
      with "1.IH" [OF \<open>s \<noteq> []\<close> h refl v] obtain k where
        k: "k \<le> l - n" "l - n \<le> k + 3" "utf8Valid (take k (drop n s))" by blast
      have "take (n + k) s = take n s @ take k (drop n s)"
        by (rule take_add)
      moreover have "utf8Valid (take n s)"
        using utf8Valid_step [OF utf8Head_take [OF h]] by simp
      ultimately have "utf8Valid (take (n + k) s)"
        using k(3) by (simp add: utf8Valid_append)
      moreover have "n + k \<le> l" "l \<le> n + k + 3"
        using False k(1,2) by linarith+
      ultimately show ?thesis by blast
    qed
  qed
qed

section \<open>Encoding\<close>

definition isRune :: "nat \<Rightarrow> bool" where
  "isRune r \<longleftrightarrow> r < 0xD800 \<or> (0xE000 \<le> r \<and> r \<le> 0x10FFFF)"

text \<open>\<open>utf8.EncodeRune\<close>: a value that is no rune is written as U+FFFD.\<close>

definition encodeRune :: "nat \<Rightarrow> string" where
  "encodeRune r0 =
     (let r = (if isRune r0 then r0 else runeError) in
      if r < 0x80 then [char_of r]
      else if r < 0x800 then [char_of (0xC0 + r div 64), char_of (0x80 + r mod 64)]
      else if r < 0x10000 then
        [char_of (0xE0 + r div 4096), char_of (0x80 + r div 64 mod 64), char_of (0x80 + r mod 64)]
      else
        [char_of (0xF0 + r div 262144), char_of (0x80 + r div 4096 mod 64),
         char_of (0x80 + r div 64 mod 64), char_of (0x80 + r mod 64)])"

lemma code_char_of: "n < 256 \<Longrightarrow> code (char_of n) = n"
  by (simp add: code_def of_char_of)

lemma char_of_code [simp]: "char_of (code c) = c"
  by (simp add: code_def)

lemma code_less [simp]: "code c < 256"
  by (simp add: code_def)

lemma sextet_one [simp]:
  fixes m k :: nat
  shows "k < 64 \<Longrightarrow> (m * 64 + k) div 64 = m" "k < 64 \<Longrightarrow> (m * 64 + k) mod 64 = k"
  by simp_all

lemma sextet_three [simp]:
  fixes i j k :: nat
  assumes "j < 64" "k < 64"
  shows "(i * 4096 + j * 64 + k) div 64 = i * 64 + j" "(i * 4096 + j * 64 + k) mod 64 = k"
    "(i * 4096 + j * 64 + k) div 4096 = i"
proof -
  have eq: "i * 4096 + j * 64 + k = (i * 64 + j) * 64 + k" by simp
  show "(i * 4096 + j * 64 + k) div 64 = i * 64 + j" "(i * 4096 + j * 64 + k) mod 64 = k"
    unfolding eq using assms by (simp_all only: sextet_one)
  then show "(i * 4096 + j * 64 + k) div 4096 = i"
    using assms(1) div_mult2_eq [of "i * 4096 + j * 64 + k" 64 64] by simp
qed

lemma sextet_four [simp]:
  fixes i j k l :: nat
  assumes "j < 64" "k < 64" "l < 64"
  shows "(i * 262144 + j * 4096 + k * 64 + l) div 64 = i * 4096 + j * 64 + k"
    "(i * 262144 + j * 4096 + k * 64 + l) mod 64 = l"
    "(i * 262144 + j * 4096 + k * 64 + l) div 4096 = i * 64 + j"
    "(i * 262144 + j * 4096 + k * 64 + l) div 262144 = i"
proof -
  let ?r = "i * 262144 + j * 4096 + k * 64 + l"
  have eq: "?r = (i * 4096 + j * 64 + k) * 64 + l" by simp
  show r: "?r div 64 = i * 4096 + j * 64 + k" and "?r mod 64 = l"
    unfolding eq using assms by (simp_all only: sextet_one)
  show "?r div 4096 = i * 64 + j"
    using assms r div_mult2_eq [of ?r 64 64] by simp
  show "?r div 262144 = i"
    using assms r div_mult2_eq [of ?r 64 4096] by simp
qed

lemma sextet_obtain:
  obtains i j :: nat where "r = i * 64 + j" and "j < 64"
  using that [of "r div 64" "r mod 64"] by simp

lemma encodeRune_head:
  assumes "isRune r"
  shows "utf8Head (encodeRune r @ t) = Some (r, length (encodeRune r))"
proof -
  obtain p l where p: "r = p * 64 + l" "l < 64" by (rule sextet_obtain)
  obtain q k where q: "p = q * 64 + k" "k < 64" by (rule sextet_obtain)
  obtain i j where i: "q = i * 64 + j" "j < 64" by (rule sextet_obtain)
  consider (1) "r < 0x80" | (2) "0x80 \<le> r" "r < 0x800" | (3) "0x800 \<le> r" "r < 0x10000"
    | (4) "0x10000 \<le> r" "r \<le> 0x10FFFF"
    using assms unfolding isRune_def by atomize_elim linarith
  then show ?thesis
  proof cases
    case 1
    then show ?thesis using assms by (simp add: encodeRune_def code_char_of)
  next
    case 2
    then have "2 \<le> p" "p < 32" using p by linarith+
    with 2 p assms show ?thesis
      by (simp add: encodeRune_def Let_def code_char_of isCont_def)
  next
    case 3
    have r: "r = q * 4096 + k * 64 + l" using p q by simp
    have "q < 16" "q = 0 \<Longrightarrow> 32 \<le> k" using 3 r p q by linarith+
    moreover have "q = 13 \<Longrightarrow> k \<le> 31"
      using assms r p q unfolding isRune_def by linarith
    moreover have "r div 64 = p" "r mod 64 = l" "r div 4096 = q" "p mod 64 = k"
      using p q r by simp_all
    ultimately show ?thesis
      using 3 p(2) q assms r
      by (simp add: encodeRune_def Let_def code_char_of isCont_def)
  next
    case 4
    have r: "r = i * 262144 + j * 4096 + k * 64 + l" using p q i by simp
    have "i < 5" "i = 0 \<Longrightarrow> 16 \<le> j" "i = 4 \<Longrightarrow> j \<le> 15" using 4 r p q i by linarith+
    moreover have "r div 64 = p" "r mod 64 = l" "r div 4096 = q" "r div 262144 = i"
      using p q i r by simp_all
    moreover have "p mod 64 = k" using q by simp
    moreover have "q mod 64 = j" using i by simp
    ultimately show ?thesis
      using 4 p(2) q(2) i(2) assms r
      by (simp add: encodeRune_def Let_def code_char_of isCont_def)
  qed
qed

lemma isRune_runeError [simp]: "isRune runeError"
  by (simp add: isRune_def runeError_def)

lemma encodeRune_not_rune: "\<not> isRune r \<Longrightarrow> encodeRune r = encodeRune runeError"
  by (simp add: encodeRune_def)

lemma utf8Valid_encodeRune: "utf8Valid (encodeRune r @ t) = utf8Valid t"
proof (cases "isRune r")
  case True
  from utf8Valid_step [OF encodeRune_head [OF this, of t]] show ?thesis by simp
next
  case False
  then have "encodeRune r = encodeRune runeError" by (rule encodeRune_not_rune)
  with utf8Valid_step [OF encodeRune_head [OF isRune_runeError, of t]] show ?thesis by simp
qed

text \<open>
  Decoding is onto the runes, and encoding gives back the bytes that were decoded. The four
  forms of a rune are named by the six-bit groups they carry.
\<close>

lemma cont_obtain:
  assumes "isCont c"
  obtains j where "c = char_of (0x80 + j :: nat)" and "code c = 0x80 + j" and "j < 64"
proof -
  have c: "code c = 0x80 + (code c - 0x80)" "code c - 0x80 < 64"
    using assms by (auto simp: isCont_def)
  then have "c = char_of (0x80 + (code c - 0x80))" by (metis char_of_code)
  with c that show thesis by blast
qed

lemma lead_obtain:
  assumes "b \<le> code c"
  obtains i where "c = char_of (b + i :: nat)" and "code c = b + i"
  using assms that [of "code c - b"] by (metis char_of_code le_add_diff_inverse)

lemma utf8Head_forms:
  assumes "utf8Head s = Some (r, n)"
  obtains
    (one) a t where "s = a # t" "code a < 0x80" "r = code a" "n = 1"
  | (two) i j t where "s = char_of (0xC0 + i) # char_of (0x80 + j) # t"
      "2 \<le> i" "i < 32" "j < 64" "r = i * 64 + j" "n = 2"
  | (three) i j k t where "s = char_of (0xE0 + i) # char_of (0x80 + j) # char_of (0x80 + k) # t"
      "i < 16" "j < 64" "k < 64" "i = 0 \<Longrightarrow> 32 \<le> j" "i = 13 \<Longrightarrow> j < 32"
      "r = i * 4096 + j * 64 + k" "n = 3"
  | (four) i j k l t where
      "s = char_of (0xF0 + i) # char_of (0x80 + j) # char_of (0x80 + k) # char_of (0x80 + l) # t"
      "i < 5" "j < 64" "k < 64" "l < 64" "i = 0 \<Longrightarrow> 16 \<le> j" "i = 4 \<Longrightarrow> j < 16"
      "r = i * 262144 + j * 4096 + k * 64 + l" "n = 4"
proof (cases s)
  case Nil
  with assms show thesis by simp
next
  case (Cons a t)
  consider "code a < 0x80" | "0xC2 \<le> code a" "code a < 0xE0" | "0xE0 \<le> code a" "code a < 0xF0"
    | "0xF0 \<le> code a" "code a < 0xF5"
    using assms Cons by (fastforce simp: Let_def split: if_splits)
  then show thesis
  proof cases
    case 1
    with assms Cons show thesis by (intro one [of a t]) auto
  next
    case 2
    with assms Cons obtain b t' where t: "t = b # t'" and b: "isCont b"
      and r: "r = (code a - 0xC0) * 64 + (code b - 0x80)" and n: "n = 2"
      by (auto simp: Let_def split: if_splits list.splits)
    obtain j where j: "b = char_of (0x80 + j)" "code b = 0x80 + j" "j < 64"
      using b by (rule cont_obtain)
    from 2 have "0xC0 \<le> code a" by simp
    then obtain i where i: "a = char_of (0xC0 + i)" "code a = 0xC0 + i" by (rule lead_obtain)
    show thesis
      by (rule two [of i j t']) (use Cons t i j 2 r n in auto)
  next
    case 3
    with assms Cons obtain b c t' where t: "t = b # c # t'" and b: "isCont b" and c: "isCont c"
      and lo: "code a = 0xE0 \<Longrightarrow> 0xA0 \<le> code b" and hi: "code a = 0xED \<Longrightarrow> code b \<le> 0x9F"
      and r: "r = (code a - 0xE0) * 4096 + (code b - 0x80) * 64 + (code c - 0x80)" and n: "n = 3"
      by (auto simp: Let_def split: if_splits list.splits)
    obtain j where j: "b = char_of (0x80 + j)" "code b = 0x80 + j" "j < 64"
      using b by (rule cont_obtain)
    obtain k where k: "c = char_of (0x80 + k)" "code c = 0x80 + k" "k < 64"
      using c by (rule cont_obtain)
    obtain i where i: "a = char_of (0xE0 + i)" "code a = 0xE0 + i" using 3(1) by (rule lead_obtain)
    show thesis
      by (rule three [of i j k t']) (use Cons t i j k 3 r n lo hi in auto)
  next
    case 4
    with assms Cons obtain b c d t' where t: "t = b # c # d # t'"
      and b: "isCont b" and c: "isCont c" and d: "isCont d"
      and lo: "code a = 0xF0 \<Longrightarrow> 0x90 \<le> code b" and hi: "code a = 0xF4 \<Longrightarrow> code b \<le> 0x8F"
      and r: "r = (code a - 0xF0) * 262144 + (code b - 0x80) * 4096 + (code c - 0x80) * 64
                  + (code d - 0x80)" and n: "n = 4"
      by (auto simp: Let_def split: if_splits list.splits)
    obtain j where j: "b = char_of (0x80 + j)" "code b = 0x80 + j" "j < 64"
      using b by (rule cont_obtain)
    obtain k where k: "c = char_of (0x80 + k)" "code c = 0x80 + k" "k < 64"
      using c by (rule cont_obtain)
    obtain l where l: "d = char_of (0x80 + l)" "code d = 0x80 + l" "l < 64"
      using d by (rule cont_obtain)
    obtain i where i: "a = char_of (0xF0 + i)" "code a = 0xF0 + i" using 4(1) by (rule lead_obtain)
    show thesis
      by (rule four [of i j k l t']) (use Cons t i j k l 4 r n lo hi in auto)
  qed
qed

lemma utf8Head_isRune:
  assumes "utf8Head s = Some (r, n)"
  shows "isRune r"
  using assms
proof (cases rule: utf8Head_forms)
  case (three i j k t)
  then consider "i < 13" | "i = 13" "j < 32" | "13 < i" by linarith
  then show ?thesis using three by cases (auto simp: isRune_def)
next
  case (four i j k l t)
  then have "65536 \<le> r" by (cases "i = 0") auto
  moreover have "r \<le> 0x10FFFF" using four by (cases "i = 4") auto
  ultimately show ?thesis by (simp add: isRune_def)
qed (auto simp: isRune_def)

lemma encodeRune_utf8Head:
  assumes "utf8Head s = Some (r, n)"
  shows "encodeRune r = take n s"
  using assms
proof (cases rule: utf8Head_forms)
  case (one a t)
  then show ?thesis using utf8Head_isRune [OF assms] by (simp add: encodeRune_def)
next
  case (two i j t)
  then have "128 \<le> r" "r < 2048" by auto
  with two show ?thesis using utf8Head_isRune [OF assms] by (simp add: encodeRune_def Let_def)
next
  case (three i j k t)
  then have "2048 \<le> r" "r < 65536" by (cases "i = 0"; auto)+
  with three show ?thesis using utf8Head_isRune [OF assms] by (simp add: encodeRune_def Let_def)
next
  case (four i j k l t)
  then have "65536 \<le> r" by (cases "i = 0") auto
  with four show ?thesis using utf8Head_isRune [OF assms] by (simp add: encodeRune_def Let_def)
qed

text \<open>ASCII text is valid.\<close>

lemma utf8Valid_text:
  assumes "list_all (\<lambda>c. code c < 0x80) s"
  shows "utf8Valid s"
  using assms by (induction s) simp_all

end
