(* ===== verification/Go_Json.thy ===== *)
theory Go_Json
  imports Go_Utf8 "HOL-Library.AList"
begin

text \<open>
  What the program uses of Go's \<open>encoding/json\<close>: the scanner's grammar (a lexer and a
  pushdown machine whose stack is the scanner's parse-state stack, with its depth limit), string
  unquoting, the decoding of values into strings, integers, slices and structs, and the encoder.
  A \<open>json.RawMessage\<close> is the syntax tree of the value it delimits.
\<close>

datatype json =
    JNull
  | JBool bool
  | JNum string
  | JStr string
  | JArr "json list"
  | JObj "(string \<times> json) list"

section \<open>The lexer\<close>

datatype jtok = TLBrace | TRBrace | TLBrack | TRBrack | TColon | TComma
  | TStr string | TNum string | TTrue | TFalse | TNull

definition isWs :: "char \<Rightarrow> bool" where
  "isWs c \<longleftrightarrow> c = CHR 0x20 \<or> c = CHR 0x09 \<or> c = CHR 0x0A \<or> c = CHR 0x0D"

definition hexVal :: "char \<Rightarrow> nat option" where
  "hexVal c =
     (let x = code c in
      if 48 \<le> x \<and> x \<le> 57 then Some (x - 48)
      else if 97 \<le> x \<and> x \<le> 102 then Some (x - 87)
      else if 65 \<le> x \<and> x \<le> 70 then Some (x - 55)
      else None)"

fun hex4 :: "string \<Rightarrow> (nat \<times> string) option" where
  "hex4 (a # b # c # d # t) =
     (case (hexVal a, hexVal b, hexVal c, hexVal d) of
        (Some x, Some y, Some z, Some w) \<Rightarrow> Some (((x * 16 + y) * 16 + z) * 16 + w, t)
      | _ \<Rightarrow> None)"
| "hex4 _ = None"

definition escapedHex4 :: "string \<Rightarrow> (nat \<times> string) option" where
  "escapedHex4 s = (if hasPrefix s [CHR 0x5C, CHR ''u''] then hex4 (drop 2 s) else None)"

definition simpleEscape :: "char \<Rightarrow> char option" where
  "simpleEscape e =
     (if e = CHR 0x22 \<or> e = CHR 0x5C \<or> e = CHR ''/'' then Some e
      else if e = CHR ''b'' then Some (CHR 0x08)
      else if e = CHR ''f'' then Some (CHR 0x0C)
      else if e = CHR ''n'' then Some (CHR 0x0A)
      else if e = CHR ''r'' then Some (CHR 0x0D)
      else if e = CHR ''t'' then Some (CHR 0x09)
      else None)"

definition isSurrogate :: "nat \<Rightarrow> bool" where
  "isSurrogate r \<longleftrightarrow> 0xD800 \<le> r \<and> r < 0xE000"

definition pairRune :: "nat \<Rightarrow> nat \<Rightarrow> nat option" where
  "pairRune r1 r2 =
     (if 0xD800 \<le> r1 \<and> r1 < 0xDC00 \<and> 0xDC00 \<le> r2 \<and> r2 < 0xE000
      then Some ((r1 - 0xD800) * 1024 + (r2 - 0xDC00) + 0x10000) else None)"

definition prepend :: "string \<Rightarrow> (string \<times> string) option \<Rightarrow> (string \<times> string) option" where
  "prepend p x = map_option (\<lambda>(b, t). (p @ b, t)) x"

lemma hex4_shorter: "hex4 s = Some (r, t) \<Longrightarrow> length t < length s"
  by (cases s rule: hex4.cases) (auto split: option.splits)

lemma escapedHex4_shorter: "escapedHex4 s = Some (r, t) \<Longrightarrow> length t < length s"
  by (auto simp: escapedHex4_def split: if_splits dest!: hex4_shorter)

lemma decodeRune_size: "s \<noteq> [] \<Longrightarrow> 0 < snd (decodeRune s)"
  by (auto simp: decodeRune_def dest: utf8Head_size(1) split: option.splits)

text \<open>
  One element of a string literal: the closing quote, a piece of decoded text, or an error. A
  malformed UTF-8 byte becomes U+FFFD, and so does a surrogate without its partner.
\<close>

datatype strElem = StrEnd string | StrPiece string string | StrBad

definition unicodeEscape :: "nat \<Rightarrow> string \<Rightarrow> strElem" where
  "unicodeEscape r v =
     (if isSurrogate r then
        (case escapedHex4 v of
           None \<Rightarrow> StrPiece (encodeRune runeError) v
         | Some (r2, v2) \<Rightarrow>
             (case pairRune r r2 of
                None \<Rightarrow> StrPiece (encodeRune runeError) v
              | Some p \<Rightarrow> StrPiece (encodeRune p) v2))
      else StrPiece (encodeRune r) v)"

definition escapeElem :: "string \<Rightarrow> strElem" where
  "escapeElem t =
     (case t of
        [] \<Rightarrow> StrBad
      | e # u \<Rightarrow>
          if e = CHR ''u'' then
            (case hex4 u of None \<Rightarrow> StrBad | Some (r, v) \<Rightarrow> unicodeEscape r v)
          else
            (case simpleEscape e of None \<Rightarrow> StrBad | Some d \<Rightarrow> StrPiece [d] u))"

definition strElem :: "string \<Rightarrow> strElem" where
  "strElem s =
     (case s of
        [] \<Rightarrow> StrBad
      | c # t \<Rightarrow>
          if c = CHR 0x22 then StrEnd t
          else if c = CHR 0x5C then escapeElem t
          else if code c < 0x20 then StrBad
          else StrPiece (encodeRune (fst (decodeRune s))) (drop (snd (decodeRune s)) s))"

lemma unicodeEscape_shorter: "unicodeEscape r v = StrPiece p t \<Longrightarrow> length t \<le> length v"
  by (auto simp: unicodeEscape_def dest!: escapedHex4_shorter split: if_splits option.splits)

lemma escapeElem_shorter: "escapeElem s = StrPiece p t \<Longrightarrow> length t < length s"
  by (auto simp: escapeElem_def dest!: unicodeEscape_shorter hex4_shorter
      split: if_splits option.splits list.splits)

lemma strElem_shorter: "strElem s = StrPiece p t \<Longrightarrow> length t < length s"
  using decodeRune_size [of s]
  by (cases s) (auto simp: strElem_def diff_Suc_less less_Suc_eq_le split: if_splits
      dest!: escapeElem_shorter)

lemma strElem_end: "strElem s = StrEnd t \<Longrightarrow> length t < length s"
  by (cases s) (auto simp: strElem_def escapeElem_def unicodeEscape_def
      split: if_splits option.splits list.splits)

text \<open>
  The text of a string literal after its opening quote: the decoded bytes and what follows the
  closing quote.
\<close>

function scanStr :: "string \<Rightarrow> (string \<times> string) option" where
  "scanStr s =
     (case strElem s of
        StrBad \<Rightarrow> None
      | StrEnd t \<Rightarrow> Some ([], t)
      | StrPiece p t \<Rightarrow> prepend p (scanStr t))"
  by pat_completeness auto
termination
  by (relation "measure length") (auto dest: strElem_shorter)

declare scanStr.simps [simp del]

lemma prepend_eq_Some:
  "prepend p x = Some (b, t) \<longleftrightarrow> (\<exists>b'. x = Some (b', t) \<and> b = p @ b')"
  by (auto simp: prepend_def)

lemma scanStr_shorter: "scanStr s = Some (b, t) \<Longrightarrow> length t < length s"
proof (induction s arbitrary: b rule: scanStr.induct)
  case (1 s)
  show ?case
  proof (cases "strElem s")
    case (StrPiece p u)
    with "1.prems" obtain b' where "scanStr u = Some (b', t)"
      by (subst (asm) scanStr.simps) (auto simp: prepend_eq_Some)
    with "1.IH" [OF StrPiece] strElem_shorter [OF StrPiece] show ?thesis by fastforce
  qed (use "1.prems" in \<open>auto simp: scanStr.simps [of s] dest: strElem_end\<close>)
qed

definition scanFrac :: "string \<Rightarrow> (string \<times> string) option" where
  "scanFrac s =
     (if hasPrefix s ''.'' then
        (case takeWhile isDigit (tl s) of
           [] \<Rightarrow> None
         | ds \<Rightarrow> Some (CHR ''.'' # ds, dropWhile isDigit (tl s)))
      else Some ([], s))"

definition scanExp :: "string \<Rightarrow> (string \<times> string) option" where
  "scanExp s =
     (if hasPrefix s ''e'' \<or> hasPrefix s ''E'' then
        (let t = tl s;
             sg = (if hasPrefix t ''+'' \<or> hasPrefix t ''-'' then take 1 t else []);
             u = drop (length sg) t
         in case takeWhile isDigit u of
              [] \<Rightarrow> None
            | ds \<Rightarrow> Some (take 1 s @ sg @ ds, dropWhile isDigit u))
      else Some ([], s))"

definition numSign :: "string \<Rightarrow> string" where
  "numSign s = (if hasPrefix s ''-'' then ''-'' else [])"

definition numInt :: "string \<Rightarrow> (string \<times> string) option" where
  "numInt s =
     (case s of
        [] \<Rightarrow> None
      | c # t \<Rightarrow>
          if \<not> isDigit c then None
          else if c = CHR ''0'' then Some ([c], t)
          else Some (takeWhile isDigit s, dropWhile isDigit s))"

definition scanNum :: "string \<Rightarrow> (string \<times> string) option" where
  "scanNum s =
     (case numInt (drop (length (numSign s)) s) of
        None \<Rightarrow> None
      | Some (ip, a) \<Rightarrow>
          (case scanFrac a of
             None \<Rightarrow> None
           | Some (fp, b) \<Rightarrow>
               (case scanExp b of
                  None \<Rightarrow> None
                | Some (ep, u) \<Rightarrow> Some (numSign s @ ip @ fp @ ep, u))))"

text \<open>Scanning a number takes a non-empty front of the text.\<close>

lemma split_takeWhile: "takeWhile P s = f \<Longrightarrow> dropWhile P s = t \<Longrightarrow> s = f @ t"
  by (metis takeWhile_dropWhile_id)

lemma scanFrac_split: "scanFrac s = Some (f, t) \<Longrightarrow> s = f @ t"
  by (cases s) (auto simp: scanFrac_def intro: split_takeWhile [THEN trans]
      split: if_splits list.splits dest!: split_takeWhile [OF _ refl])

lemma scanExp_split: "scanExp s = Some (f, t) \<Longrightarrow> s = f @ t"
proof -
  assume a: "scanExp s = Some (f, t)"
  show "s = f @ t"
  proof (cases "hasPrefix s ''e'' \<or> hasPrefix s ''E''")
    case True
    define sg where "sg = (if hasPrefix (tl s) ''+'' \<or> hasPrefix (tl s) ''-'' then take 1 (tl s) else [])"
    define u where "u = drop (length sg) (tl s)"
    have "tl s = sg @ u"
      unfolding u_def sg_def by (cases "tl s") auto
    moreover have "s = take 1 s @ tl s" using True by (cases s) auto
    moreover have "f = take 1 s @ sg @ takeWhile isDigit u" "t = dropWhile isDigit u"
      using a True unfolding scanExp_def Let_def sg_def [symmetric] u_def [symmetric]
      by (auto split: list.splits)
    ultimately show ?thesis by (metis append.assoc takeWhile_dropWhile_id)
  next
    case False
    with a show ?thesis by (simp add: scanExp_def)
  qed
qed

lemma numSign_split: "s = numSign s @ drop (length (numSign s)) s"
  by (auto simp: numSign_def hasPrefix_iff)

lemma numInt_split: "numInt s = Some (i, t) \<Longrightarrow> s = i @ t \<and> i \<noteq> []"
  by (cases s) (auto simp: numInt_def split: if_splits dest: split_takeWhile)

lemma scanNum_split:
  assumes "scanNum s = Some (n, t)"
  shows "s = n @ t" "n \<noteq> []"
proof -
  obtain ip a fp b ep where i: "numInt (drop (length (numSign s)) s) = Some (ip, a)"
    and f: "scanFrac a = Some (fp, b)" and e: "scanExp b = Some (ep, t)"
    and n: "n = numSign s @ ip @ fp @ ep"
    using assms unfolding scanNum_def by (auto split: option.splits)
  from numInt_split [OF i] show "n \<noteq> []" by (simp add: n)
  show "s = n @ t"
    using numSign_split [of s] numInt_split [OF i] scanFrac_split [OF f] scanExp_split [OF e] n
    by simp
qed

section \<open>Tokens\<close>

text \<open>The token at the front of the text: white space is skipped one byte at a time.\<close>

datatype lexElem = LexSkip string | LexTok jtok string | LexBad

definition lexElem :: "char \<Rightarrow> string \<Rightarrow> lexElem" where
  "lexElem c t =
     (if isWs c then LexSkip t
      else if c = CHR 0x7B then LexTok TLBrace t
      else if c = CHR 0x7D then LexTok TRBrace t
      else if c = CHR 0x5B then LexTok TLBrack t
      else if c = CHR 0x5D then LexTok TRBrack t
      else if c = CHR 0x3A then LexTok TColon t
      else if c = CHR 0x2C then LexTok TComma t
      else if c = CHR 0x22 then
        (case scanStr t of None \<Rightarrow> LexBad | Some (b, u) \<Rightarrow> LexTok (TStr b) u)
      else if c = CHR ''-'' \<or> isDigit c then
        (case scanNum (c # t) of None \<Rightarrow> LexBad | Some (n, u) \<Rightarrow> LexTok (TNum n) u)
      else if hasPrefix (c # t) ''true'' then LexTok TTrue (drop 3 t)
      else if hasPrefix (c # t) ''false'' then LexTok TFalse (drop 4 t)
      else if hasPrefix (c # t) ''null'' then LexTok TNull (drop 3 t)
      else LexBad)"

lemma lexElem_skip: "lexElem c t = LexSkip u \<Longrightarrow> length u < Suc (length t)"
  unfolding lexElem_def by (simp split: if_split_asm option.split_asm prod.split_asm)

lemma scanNum_shorter: "scanNum s = Some (n, u) \<Longrightarrow> length u < length s"
  using scanNum_split by fastforce

lemma lexElem_tok:
  assumes "lexElem c t = LexTok k u"
  shows "length u < Suc (length t)"
proof -
  have "u = t \<or> (\<exists>b. scanStr t = Some (b, u)) \<or> (\<exists>n. scanNum (c # t) = Some (n, u))
      \<or> u = drop 3 t \<or> u = drop 4 t"
    using assms unfolding lexElem_def
    by (simp split: if_split_asm option.split_asm prod.split_asm)
  then show ?thesis
    by (auto dest: scanStr_shorter scanNum_shorter)
qed

function lexJson :: "string \<Rightarrow> jtok list option" where
  "lexJson [] = Some []"
| "lexJson (c # t) =
     (case lexElem c t of
        LexBad \<Rightarrow> None
      | LexSkip u \<Rightarrow> lexJson u
      | LexTok k u \<Rightarrow> map_option (Cons k) (lexJson u))"
  by pat_completeness auto
termination
  by (relation "measure length") (auto dest: lexElem_skip lexElem_tok)

declare lexJson.simps(2) [simp del]

section \<open>The pushdown machine\<close>

text \<open>
  A frame is an open array or object with the elements read so far, latest first; an object's
  frame also holds the key whose value is awaited.
\<close>

datatype jframe = FArr "json list" | FObj "(string \<times> json) list" string

datatype jmode =
    ExpValue             \<comment> \<open>a value must come\<close>
  | ExpFirst             \<comment> \<open>after an opening bracket: a value or the closing bracket\<close>
  | ExpKey               \<comment> \<open>after a comma of an object: a key must come\<close>
  | ExpFirstKey          \<comment> \<open>after an opening brace: a key or the closing brace\<close>
  | ExpColon
  | AfterValue           \<comment> \<open>inside an array or object: a comma or the close\<close>
  | Finished json

definition maxNestingDepth :: nat where
  "maxNestingDepth = 10000"

fun complete :: "json \<Rightarrow> jframe list \<Rightarrow> jmode \<times> jframe list" where
  "complete v [] = (Finished v, [])"
| "complete v (FArr vs # st) = (AfterValue, FArr (v # vs) # st)"
| "complete v (FObj kvs k # st) = (AfterValue, FObj ((k, v) # kvs) k # st)"

fun startValue :: "jtok \<Rightarrow> jframe list \<Rightarrow> (jmode \<times> jframe list) option" where
  "startValue (TStr b) st = Some (complete (JStr b) st)"
| "startValue (TNum n) st = Some (complete (JNum n) st)"
| "startValue TTrue st = Some (complete (JBool True) st)"
| "startValue TFalse st = Some (complete (JBool False) st)"
| "startValue TNull st = Some (complete JNull st)"
| "startValue TLBrack st =
     (if length st < maxNestingDepth then Some (ExpFirst, FArr [] # st) else None)"
| "startValue TLBrace st =
     (if length st < maxNestingDepth then Some (ExpFirstKey, FObj [] [] # st) else None)"
| "startValue _ _ = None"

fun jstep :: "jmode \<times> jframe list \<Rightarrow> jtok \<Rightarrow> (jmode \<times> jframe list) option" where
  "jstep (ExpValue, st) t = startValue t st"
| "jstep (ExpFirst, FArr vs # st) TRBrack = Some (complete (JArr (rev vs)) st)"
| "jstep (ExpFirst, st) t = startValue t st"
| "jstep (ExpFirstKey, FObj kvs k # st) TRBrace = Some (complete (JObj (rev kvs)) st)"
| "jstep (ExpFirstKey, FObj kvs k # st) (TStr b) = Some (ExpColon, FObj kvs b # st)"
| "jstep (ExpKey, FObj kvs k # st) (TStr b) = Some (ExpColon, FObj kvs b # st)"
| "jstep (ExpColon, st) TColon = Some (ExpValue, st)"
| "jstep (AfterValue, FArr vs # st) TComma = Some (ExpValue, FArr vs # st)"
| "jstep (AfterValue, FArr vs # st) TRBrack = Some (complete (JArr (rev vs)) st)"
| "jstep (AfterValue, FObj kvs k # st) TComma = Some (ExpKey, FObj kvs k # st)"
| "jstep (AfterValue, FObj kvs k # st) TRBrace = Some (complete (JObj (rev kvs)) st)"
| "jstep _ _ = None"

fun jrun :: "jmode \<times> jframe list \<Rightarrow> jtok list \<Rightarrow> (jmode \<times> jframe list) option" where
  "jrun c [] = Some c"
| "jrun c (t # ts) = (case jstep c t of None \<Rightarrow> None | Some c' \<Rightarrow> jrun c' ts)"

definition parseJson :: "string \<Rightarrow> json option" where
  "parseJson s =
     (case lexJson s of
        None \<Rightarrow> None
      | Some ts \<Rightarrow>
          (case jrun (ExpValue, []) ts of
             Some (Finished v, []) \<Rightarrow> Some v
           | _ \<Rightarrow> None))"

lemma jrun_append: "jrun c (ts @ us) = (case jrun c ts of None \<Rightarrow> None | Some c' \<Rightarrow> jrun c' us)"
  by (induction ts arbitrary: c) (auto split: option.splits)

section \<open>Decoding into Go values\<close>

text \<open>
  \<open>json.Unmarshal\<close> stores into an existing value and goes on after a type mismatch, which it
  reports at the end: a decoder maps the old value to the new one and says whether all of it
  fitted. A null leaves a scalar, a string or a struct alone and empties a slice.
\<close>

type_synonym 'a decoder = "json \<Rightarrow> 'a \<Rightarrow> 'a \<times> bool"

fun decString :: "string decoder" where
  "decString (JStr b) old = (b, True)"
| "decString JNull old = (old, True)"
| "decString _ old = (old, False)"

fun decBool :: "bool decoder" where
  "decBool (JBool b) old = (b, True)"
| "decBool JNull old = (old, True)"
| "decBool _ old = (old, False)"

definition numInt64 :: "string \<Rightarrow> int option" where
  "numInt64 n =
     (let neg = hasPrefix n ''-'' in
      case parseDigits (if neg then tl n else n) of
        None \<Rightarrow> None
      | Some k \<Rightarrow>
          (let i = (if neg then - int k else int k) in if inInt64 i then Some i else None))"

fun decInt :: "int decoder" where
  "decInt (JNum n) old = (case numInt64 n of Some i \<Rightarrow> (i, True) | None \<Rightarrow> (old, False))"
| "decInt JNull old = (old, True)"
| "decInt _ old = (old, False)"

fun decUint16 :: "16 word decoder" where
  "decUint16 (JNum n) old =
     (case parseDigits n of
        Some k \<Rightarrow> if k < 65536 then (of_nat k, True) else (old, False)
      | None \<Rightarrow> (old, False))"
| "decUint16 JNull old = (old, True)"
| "decUint16 _ old = (old, False)"

fun decElems :: "'a decoder \<Rightarrow> 'a \<Rightarrow> json list \<Rightarrow> 'a list \<Rightarrow> 'a list \<times> bool" where
  "decElems d z [] olds = ([], True)"
| "decElems d z (j # js) olds =
     (let (x, ok) = d j (case olds of [] \<Rightarrow> z | old # _ \<Rightarrow> old);
          (xs, oks) = decElems d z js (tl olds)
      in (x # xs, ok \<and> oks))"

fun decSlice :: "'a decoder \<Rightarrow> 'a \<Rightarrow> 'a list decoder" where
  "decSlice d z (JArr js) old = decElems d z js old"
| "decSlice d z JNull old = ([], True)"
| "decSlice d z _ old = (old, False)"

text \<open>A pointer: null makes it nil, anything else is stored into what it points to.\<close>

fun decPtr :: "'a decoder \<Rightarrow> 'a \<Rightarrow> 'a option decoder" where
  "decPtr d z JNull old = (None, True)"
| "decPtr d z j old =
     (case d j (case old of None \<Rightarrow> z | Some a \<Rightarrow> a) of (a, ok) \<Rightarrow> (Some a, ok))"

text \<open>
  A struct: each member of the object goes to the field with its exact name, or else to the field
  whose name is the same without regard to case (\<open>foldName\<close>: ASCII, and the two other runes
  that fold to ASCII letters); a member with no field is ignored.
\<close>

definition upperChar :: "char \<Rightarrow> char" where
  "upperChar c = (if 97 \<le> code c \<and> code c \<le> 122 then char_of (code c - 32) else c)"

definition foldName :: "string \<Rightarrow> string" where
  "foldName s =
     map upperChar (replaceAll [CHR 0xE2, CHR 0x84, CHR 0xAA] ''k''
       (replaceAll [CHR 0xC5, CHR 0xBF] ''s'' s))"

definition fieldFor :: "(string \<times> 'a) list \<Rightarrow> string \<Rightarrow> 'a option" where
  "fieldFor fs k =
     (case map_of fs k of
        Some d \<Rightarrow> Some d
      | None \<Rightarrow> map_of (map (\<lambda>(n, d). (foldName n, d)) fs) (foldName k))"

fun decMembers :: "(string \<times> 'a decoder) list \<Rightarrow> (string \<times> json) list \<Rightarrow> 'a \<Rightarrow> 'a \<times> bool" where
  "decMembers fs [] a = (a, True)"
| "decMembers fs ((k, j) # kvs) a =
     (case fieldFor fs k of
        None \<Rightarrow> decMembers fs kvs a
      | Some d \<Rightarrow>
          (let (a', ok) = d j a; (a'', oks) = decMembers fs kvs a' in (a'', ok \<and> oks)))"

fun decStruct :: "(string \<times> 'a decoder) list \<Rightarrow> 'a decoder" where
  "decStruct fs (JObj kvs) a = decMembers fs kvs a"
| "decStruct fs JNull a = (a, True)"
| "decStruct fs _ a = (a, False)"

text \<open>A field of a record, given by its reader and its update.\<close>

definition field :: "('r \<Rightarrow> 'f) \<Rightarrow> (('f \<Rightarrow> 'f) \<Rightarrow> 'r \<Rightarrow> 'r) \<Rightarrow> 'f decoder \<Rightarrow> 'r decoder" where
  "field get upd d j r = (case d j (get r) of (v, ok) \<Rightarrow> (upd (\<lambda>_. v) r, ok))"

definition unmarshal :: "'a decoder \<Rightarrow> string \<Rightarrow> 'a \<Rightarrow> 'a \<times> bool" where
  "unmarshal d s old = (case parseJson s of None \<Rightarrow> (old, False) | Some j \<Rightarrow> d j old)"

text \<open>
  A \<open>map[string]json.RawMessage\<close> as an association list with distinct keys: a later member
  replaces an earlier one of its name. Unmarshalling a missing entry (a nil message) is an error.
\<close>

definition rawFields :: "(string \<times> json) list \<Rightarrow> (string \<times> json) list" where
  "rawFields kvs = foldl (\<lambda>m (k, j). AList.update k j m) [] kvs"

definition unmarshalFields :: "string \<Rightarrow> (string \<times> json) list option" where
  "unmarshalFields s =
     (case parseJson s of
        Some (JObj kvs) \<Rightarrow> Some (rawFields kvs)
      | Some JNull \<Rightarrow> Some []
      | _ \<Rightarrow> None)"

definition unmarshalRaw :: "'a decoder \<Rightarrow> json option \<Rightarrow> 'a \<Rightarrow> 'a \<times> bool" where
  "unmarshalRaw d raw old = (case raw of None \<Rightarrow> (old, False) | Some j \<Rightarrow> d j old)"

lemma distinct_foldl_update:
  "distinct (map fst m) \<Longrightarrow> distinct (map fst (foldl (\<lambda>m (k, j). AList.update k j m) m kvs))"
  by (induction kvs arbitrary: m) (auto simp: distinct_update split: prod.splits)

lemma map_of_foldl_update:
  "map_of (foldl (\<lambda>m (k, j). AList.update k j m) m kvs) = map_of m ++ map_of (rev kvs)"
  by (induction kvs arbitrary: m) (auto simp: update_conv' map_add_assoc split: prod.splits)

lemma rawFields_distinct [simp]: "distinct (map fst (rawFields kvs))"
  unfolding rawFields_def by (rule distinct_foldl_update) simp

lemma map_of_rawFields [simp]: "map_of (rawFields kvs) = map_of (rev kvs)"
  unfolding rawFields_def by (simp add: map_of_foldl_update)

lemma rawFields_id: "distinct (map fst kvs) \<Longrightarrow> map_of (rawFields kvs) = map_of kvs"
  by (simp add: map_of_inject_set rev_map [symmetric])

end
