(* ===== verification/Go_Marshal.thy ===== *)
theory Go_Marshal
  imports Go_Json
begin

text \<open>
  \<open>json.Marshal\<close>: the encoder the agent's replies, the CLI's request bodies and the saved
  configuration go through, with its HTML escaping, and the proof that the scanner of
  \<open>Go_Json\<close> reads back exactly what it writes.
\<close>

section \<open>Strings\<close>

definition hexDigit :: "nat \<Rightarrow> char" where
  "hexDigit d = (if d < 10 then char_of (48 + d) else char_of (87 + d))"

definition hexEscaped :: "char \<Rightarrow> bool" where
  "hexEscaped c \<longleftrightarrow> code c < 0x20 \<or> c = CHR ''<'' \<or> c = CHR ''>'' \<or> c = CHR ''&''"

definition escByte :: "char \<Rightarrow> string" where
  "escByte c =
     (if c = CHR 0x22 \<or> c = CHR 0x5C then [CHR 0x5C, c]
      else if c = CHR 0x08 then [CHR 0x5C, CHR ''b'']
      else if c = CHR 0x0C then [CHR 0x5C, CHR ''f'']
      else if c = CHR 0x0A then [CHR 0x5C, CHR ''n'']
      else if c = CHR 0x0D then [CHR 0x5C, CHR ''r'']
      else if c = CHR 0x09 then [CHR 0x5C, CHR ''t'']
      else if hexEscaped c then
        [CHR 0x5C, CHR ''u'', CHR ''0'', CHR ''0'', hexDigit (code c div 16), hexDigit (code c mod 16)]
      else [c])"

text \<open>One rune of the string: what is written for it, and what is left.\<close>

definition escElem :: "string \<Rightarrow> string \<times> string" where
  "escElem s =
     (case utf8Head s of
        None \<Rightarrow> ([CHR 0x5C, CHR ''u'', CHR ''f'', CHR ''f'', CHR ''f'', CHR ''d''], tl s)
      | Some (r, n) \<Rightarrow>
          ((if r < 0x80 then escByte (char_of r)
            else if r = 0x2028 then [CHR 0x5C, CHR ''u'', CHR ''2'', CHR ''0'', CHR ''2'', CHR ''8'']
            else if r = 0x2029 then [CHR 0x5C, CHR ''u'', CHR ''2'', CHR ''0'', CHR ''2'', CHR ''9'']
            else take n s), drop n s))"

lemma escElem_shorter: "s \<noteq> [] \<Longrightarrow> length (snd (escElem s)) < length s"
  by (auto simp: escElem_def dest: utf8Head_size(1) split: option.splits)

function escBody :: "string \<Rightarrow> string" where
  "escBody s = (if s = [] then [] else fst (escElem s) @ escBody (snd (escElem s)))"
  by pat_completeness auto
termination
  by (relation "measure length") (auto dest: escElem_shorter)

declare escBody.simps [simp del]

definition quoteJson :: "string \<Rightarrow> string" where
  "quoteJson s = CHR 0x22 # escBody s @ [CHR 0x22]"

lemma escBody_Nil [simp]: "escBody [] = []"
  by (simp add: escBody.simps)

lemma hexVal_hexDigit [simp]: "d < 16 \<Longrightarrow> hexVal (hexDigit d) = Some d"
  by (auto simp: hexVal_def hexDigit_def code_char_of Let_def)

lemma code_simps [simp]:
  "code (CHR 0x22) = 0x22" "code (CHR 0x5C) = 0x5C" "code (CHR ''0'') = 48"
  by (simp_all add: code_def)

lemma encodeRune_ascii: "code c < 0x80 \<Longrightarrow> encodeRune (code c) = [c]"
  by (simp add: encodeRune_def isRune_def)

lemma escByte_scan:
  assumes "code c < 0x80"
  shows "strElem (escByte c @ u) = StrPiece [c] u"
proof -
  let ?esc = "{CHR 0x22, CHR 0x5C, CHR 0x08, CHR 0x0C, CHR 0x0A, CHR 0x0D, CHR 0x09}"
  have "c \<notin> ?esc \<Longrightarrow> hexEscaped c \<Longrightarrow> escByte c = [CHR 0x5C, CHR ''u'', CHR ''0'', CHR ''0'',
      hexDigit (code c div 16), hexDigit (code c mod 16)]"
    and "c \<notin> ?esc \<Longrightarrow> \<not> hexEscaped c \<Longrightarrow> escByte c = [c]"
    by (simp_all add: escByte_def)
  then consider (esc) "c \<in> ?esc"
    | (hex) "escByte c = [CHR 0x5C, CHR ''u'', CHR ''0'', CHR ''0'', hexDigit (code c div 16),
        hexDigit (code c mod 16)]"
    | (plain) "c \<notin> ?esc" "\<not> hexEscaped c" "escByte c = [c]"
    by blast
  then show ?thesis
  proof cases
    case esc
    then show ?thesis
      by (auto simp: escByte_def strElem_def escapeElem_def simpleEscape_def)
  next
    case hex
    have z: "hexVal (CHR ''0'') = Some 0" by (simp add: hexVal_def)
    have "hex4 (CHR ''0'' # CHR ''0'' # hexDigit (code c div 16) # hexDigit (code c mod 16) # u)
        = Some (code c, u)"
      using assms by (simp add: z)
    then show ?thesis
      unfolding hex using assms
      by (simp add: strElem_def escapeElem_def unicodeEscape_def isSurrogate_def encodeRune_ascii)
  next
    case plain
    then show ?thesis using assms
      by (simp add: hexEscaped_def not_less strElem_def decodeRune_def encodeRune_ascii)
  qed
qed

lemma utf8Head_code:
  assumes "utf8Head (a # t) = Some (r, n)"
  shows "code a < 0x80 \<longleftrightarrow> r < 0x80"
  using assms by (cases rule: utf8Head_forms) (auto simp: code_char_of)

lemma escElem_scan:
  assumes "utf8Head s = Some (r, n)"
  shows "strElem (fst (escElem s) @ u) = StrPiece (take n s) u"
proof -
  obtain a t where s: "s = a # t" using assms by (cases s) auto
  have enc: "encodeRune r = take n s" using assms by (rule encodeRune_utf8Head)
  show ?thesis
  proof (cases "r < 0x80")
    case True
    with assms s have "code a < 0x80" "r = code a" "n = 1"
      using utf8Head_code [of a t r n] by auto
    then show ?thesis using s by (simp add: escElem_def escByte_scan)
  next
    case False
    then have a: "0x80 \<le> code a" using utf8Head_code [of a t r n] assms s by auto
    then have a': "a \<noteq> CHR 0x22" "a \<noteq> CHR 0x5C" by auto
    consider "r = 0x2028" | "r = 0x2029" | "r \<noteq> 0x2028" "r \<noteq> 0x2029" by blast
    then show ?thesis
    proof cases
      case 3
      have "utf8Head (take n s @ u) = Some (r, n)"
        using utf8Head_append [OF utf8Head_take [OF assms]] .
      moreover obtain m where "n = Suc m" using utf8Head_size(1) [OF assms] by (cases n) auto
      moreover have "length (take n s) = n" using utf8Head_size(3) [OF assms] by simp
      ultimately show ?thesis
        using assms False 3 a a' enc s
        by (simp add: escElem_def strElem_def decodeRune_def)
    qed (use assms enc in \<open>simp_all add: escElem_def strElem_def escapeElem_def unicodeEscape_def
        isSurrogate_def hexVal_def code_def\<close>)
  qed
qed

lemma scanStr_escBody:
  "utf8Valid s \<Longrightarrow> scanStr (escBody s @ CHR 0x22 # t) = Some (s, t)"
proof (induction s rule: escBody.induct)
  case (1 s)
  show ?case
  proof (cases "s = []")
    case True
    then show ?thesis by (simp add: scanStr.simps strElem_def)
  next
    case False
    with "1.prems" obtain r n where h: "utf8Head s = Some (r, n)" and v: "utf8Valid (drop n s)"
      by (rule utf8Valid_cases)
    have d: "snd (escElem s) = drop n s" by (simp add: escElem_def h)
    have "scanStr (fst (escElem s) @ (escBody (drop n s) @ CHR 0x22 # t))
        = prepend (take n s) (scanStr (escBody (drop n s) @ CHR 0x22 # t))"
      by (subst scanStr.simps) (simp only: escElem_scan [OF h] strElem.case)
    also have "\<dots> = Some (s, t)"
      using "1.IH" [OF False] v d by (simp add: prepend_def)
    finally show ?thesis using False d by (simp add: escBody.simps [of s])
  qed
qed

section \<open>Values\<close>

text \<open>Objects are written in the order given; \<open>sortMembers\<close> is Go's order for a map.\<close>

fun jprint :: "json \<Rightarrow> string" where
  "jprint JNull = ''null''"
| "jprint (JBool b) = (if b then ''true'' else ''false'')"
| "jprint (JNum n) = n"
| "jprint (JStr s) = quoteJson s"
| "jprint (JArr js) = CHR 0x5B # joinWith [CHR 0x2C] (map jprint js) @ [CHR 0x5D]"
| "jprint (JObj kvs) =
     CHR 0x7B # joinWith [CHR 0x2C] (map (\<lambda>(k, v). quoteJson k @ CHR 0x3A # jprint v) kvs) @ [CHR 0x7D]"

definition sortMembers :: "(string \<times> json) list \<Rightarrow> (string \<times> json) list" where
  "sortMembers kvs = sort_key fst kvs"

definition jnat :: "nat \<Rightarrow> json" where
  "jnat n = JNum (showNat n)"

definition jint :: "int \<Rightarrow> json" where
  "jint i = JNum (itoa i)"

section \<open>Reading back\<close>

text \<open>
  What the encoder is given: text that is valid UTF-8, integer literals, and no more nesting than
  the scanner accepts.
\<close>

definition intLit :: "string \<Rightarrow> bool" where
  "intLit n =
     (let d = drop (length (numSign n)) n
      in d \<noteq> [] \<and> list_all isDigit d \<and> (hd d = CHR ''0'' \<longrightarrow> tl d = []))"

fun jsonOk :: "json \<Rightarrow> bool" where
  "jsonOk JNull = True"
| "jsonOk (JBool b) = True"
| "jsonOk (JNum n) = intLit n"
| "jsonOk (JStr s) = utf8Valid s"
| "jsonOk (JArr js) = list_all jsonOk js"
| "jsonOk (JObj kvs) = list_all (\<lambda>(k, v). utf8Valid k \<and> jsonOk v) kvs"

fun jdepth :: "json \<Rightarrow> nat" where
  "jdepth (JArr js) = Suc (foldr max (map jdepth js) 0)"
| "jdepth (JObj kvs) = Suc (foldr max (map (\<lambda>(k, v). jdepth v) kvs) 0)"
| "jdepth _ = 0"

fun toks :: "json \<Rightarrow> jtok list" where
  "toks JNull = [TNull]"
| "toks (JBool b) = [if b then TTrue else TFalse]"
| "toks (JNum n) = [TNum n]"
| "toks (JStr s) = [TStr s]"
| "toks (JArr js) = TLBrack # joinWith [TComma] (map toks js) @ [TRBrack]"
| "toks (JObj kvs) =
     TLBrace # joinWith [TComma] (map (\<lambda>(k, v). TStr k # TColon # toks v) kvs) @ [TRBrace]"

definition delimited :: "string \<Rightarrow> bool" where
  "delimited s \<longleftrightarrow> s = [] \<or> hd s = CHR 0x2C \<or> hd s = CHR 0x5D \<or> hd s = CHR 0x7D \<or> isWs (hd s)"

lemma delimited_simps [simp]:
  "delimited []" "delimited (CHR 0x2C # s)" "delimited (CHR 0x5D # s)" "delimited (CHR 0x7D # s)"
  by (simp_all add: delimited_def)

lemma delimited_not_number:
  "delimited (c # s) \<Longrightarrow> \<not> isDigit c \<and> c \<noteq> CHR ''.'' \<and> c \<noteq> CHR ''e'' \<and> c \<noteq> CHR ''E''"
  by (auto simp: delimited_def isWs_def isDigit_def)

lemma scanNum_intLit:
  assumes n: "intLit n" and r: "delimited rest"
  shows "scanNum (n @ rest) = Some (n, rest)"
proof -
  define d where "d = drop (length (numSign n)) n"
  have nd: "n = numSign n @ d" unfolding d_def by (rule numSign_split)
  obtain c t where d: "d = c # t" and c: "isDigit c" and t: "list_all isDigit t"
    and z: "c = CHR ''0'' \<longrightarrow> t = []"
    using n unfolding intLit_def Let_def d_def [symmetric] by (cases d) auto
  have "n \<noteq> []" using nd d by auto
  then have sg: "numSign (n @ rest) = numSign n" by (cases n) (auto simp: numSign_def)
  have "drop (length (numSign n)) (n @ rest) = d @ rest"
    using nd by (metis append.assoc append_eq_conv_conj)
  moreover have "numInt (d @ rest) = Some (d, rest)"
  proof (cases "c = CHR ''0''")
    case True
    with z d c show ?thesis by (simp add: numInt_def)
  next
    case False
    have "takeWhile isDigit (t @ rest) = t" "dropWhile isDigit (t @ rest) = rest"
      using t delimited_not_number r
      by (cases rest; fastforce simp: list_all_iff takeWhile_append2 dropWhile_append2)+
    with False d c show ?thesis by (simp add: numInt_def)
  qed
  moreover have "scanFrac rest = Some ([], rest)" "scanExp rest = Some ([], rest)"
    using delimited_not_number r by (cases rest; fastforce simp: scanFrac_def scanExp_def)+
  ultimately show ?thesis
    unfolding scanNum_def sg using nd by simp
qed

lemma intLit_head:
  assumes "intLit n"
  obtains c t where "n = c # t" and "c = CHR ''-'' \<or> isDigit c"
  using assms by (cases n) (auto simp: intLit_def numSign_def Let_def split: if_splits)

lemma showNat_hd_zero: "hd (showNat n) = CHR ''0'' \<Longrightarrow> n = 0"
proof (induction n rule: showNat.induct)
  case (1 n)
  show ?case
  proof (cases "n < 10")
    case True
    with 1 have "digitChar n = CHR ''0''" by (simp add: showNat.simps)
    then have "digitVal (digitChar n) = 0" by (simp add: digitVal_def)
    with True show ?thesis by simp
  next
    case False
    with 1 have "n div 10 = 0"
      by (simp add: showNat.simps [of n] showNat_digits)
    with False show ?thesis by simp
  qed
qed

lemma numSign_showNat [simp]: "numSign (showNat n) = []"
proof -
  obtain c cs where "showNat n = c # cs" "isDigit c" by (rule showNat_Cons)
  then show ?thesis by (auto simp: numSign_def)
qed

lemma intLit_showNat [simp]: "intLit (showNat n)"
proof -
  obtain c cs where s: "showNat n = c # cs" "isDigit c" by (rule showNat_Cons)
  moreover have "c = CHR ''0'' \<Longrightarrow> cs = []"
    using showNat_hd_zero [of n] s by (simp add: showNat.simps [of 0])
  ultimately show ?thesis
    unfolding intLit_def numSign_showNat Let_def using showNat_digits [of n] s by simp
qed

lemma intLit_itoa [simp]: "intLit (itoa i)"
proof (cases "i < 0")
  case True
  have "intLit (showNat (nat (- i)))" by simp
  then show ?thesis
    unfolding intLit_def numSign_showNat Let_def
    using True by (simp add: itoa_def numSign_def)
qed (simp add: itoa_def)

text \<open>Lexing what was printed gives the tokens of the value, whatever follows it.\<close>

lemmas lex_punct [simp] =
  lexJson.simps(2) [of "CHR 0x7B"] lexJson.simps(2) [of "CHR 0x7D"] lexJson.simps(2) [of "CHR 0x5B"]
  lexJson.simps(2) [of "CHR 0x5D"] lexJson.simps(2) [of "CHR 0x3A"] lexJson.simps(2) [of "CHR 0x2C"]

lemma lexElem_punct [simp]:
  "lexElem (CHR 0x7B) t = LexTok TLBrace t" "lexElem (CHR 0x7D) t = LexTok TRBrace t"
  "lexElem (CHR 0x5B) t = LexTok TLBrack t" "lexElem (CHR 0x5D) t = LexTok TRBrack t"
  "lexElem (CHR 0x3A) t = LexTok TColon t" "lexElem (CHR 0x2C) t = LexTok TComma t"
  by (simp_all add: lexElem_def isWs_def)

definition emit :: "jtok list \<Rightarrow> jtok list option \<Rightarrow> jtok list option" where
  "emit ts x = map_option ((@) ts) x"

lemma emit_simps [simp]:
  "emit [] x = x" "emit ts (emit us x) = emit (ts @ us) x" "emit ts (Some us) = Some (ts @ us)"
  "map_option (Cons t) x = emit [t] x"
  by (cases x; simp add: emit_def)+

definition lexesTo :: "string \<Rightarrow> jtok list \<Rightarrow> bool" where
  "lexesTo s ts \<longleftrightarrow> (\<forall>rest. delimited rest \<longrightarrow> lexJson (s @ rest) = emit ts (lexJson rest))"

lemma lexesToD: "lexesTo s ts \<Longrightarrow> delimited rest \<Longrightarrow> lexJson (s @ rest) = emit ts (lexJson rest)"
  by (simp add: lexesTo_def)

lemma lexesTo_word:
  "lexesTo ''null'' [TNull]" "lexesTo ''true'' [TTrue]" "lexesTo ''false'' [TFalse]"
  by (simp_all add: lexesTo_def lexJson.simps(2) lexElem_def isWs_def isDigit_def)

lemma lexElem_num:
  assumes "c = CHR ''-'' \<or> isDigit c"
  shows "lexElem c t = (case scanNum (c # t) of None \<Rightarrow> LexBad | Some (n, u) \<Rightarrow> LexTok (TNum n) u)"
proof -
  have ne: "c \<noteq> CHR 0x7B" "c \<noteq> CHR 0x7D" "c \<noteq> CHR 0x5B" "c \<noteq> CHR 0x5D" "c \<noteq> CHR 0x3A"
    "c \<noteq> CHR 0x2C" "c \<noteq> CHR 0x22" "\<not> isWs c"
    using assms by (auto simp: isDigit_def isWs_def)
  show ?thesis unfolding lexElem_def by (simp only: ne assms if_False if_True)
qed

lemma lexesTo_num:
  assumes "intLit n"
  shows "lexesTo n [TNum n]"
proof -
  obtain c t where n: "n = c # t" and c: "c = CHR ''-'' \<or> isDigit c"
    using assms by (rule intLit_head)
  have "lexJson (n @ rest) = emit [TNum n] (lexJson rest)" if "delimited rest" for rest
  proof -
    have "scanNum (c # t @ rest) = Some (n, rest)"
      using scanNum_intLit [OF assms that] n by simp
    then have "lexElem c (t @ rest) = LexTok (TNum n) rest"
      by (simp add: lexElem_num [OF c])
    then show ?thesis by (simp add: n lexJson.simps(2))
  qed
  then show ?thesis by (simp add: lexesTo_def)
qed

lemma lex_quoteJson:
  "utf8Valid s \<Longrightarrow> lexJson (quoteJson s @ rest) = emit [TStr s] (lexJson rest)"
  by (simp add: quoteJson_def lexJson.simps(2) lexElem_def isWs_def scanStr_escBody)

lemma lexesTo_joined:
  assumes "list_all2 lexesTo ss tss" and "delimited rest"
  shows "lexJson (joinWith [CHR 0x2C] ss @ rest) = emit (joinWith [TComma] tss) (lexJson rest)"
  using assms(1)
proof (induction ss tss rule: list_all2_induct)
  case (Cons s ss ts tss)
  show ?case
  proof (cases ss)
    case Nil
    with Cons show ?thesis by (auto intro: lexesToD assms(2))
  next
    case ss: (Cons s' ss')
    with Cons.hyps obtain ts' tss' where tss: "tss = ts' # tss'" by (cases tss) auto
    have "lexJson (s @ (CHR 0x2C # joinWith [CHR 0x2C] ss @ rest))
        = emit ts (lexJson (CHR 0x2C # joinWith [CHR 0x2C] ss @ rest))"
      by (rule lexesToD [OF Cons.hyps(1)]) simp
    with Cons.IH show ?thesis by (simp add: ss tss)
  qed
qed simp

lemma lexesTo_jprint: "jsonOk v \<Longrightarrow> lexesTo (jprint v) (toks v)"
proof (induction v)
  case (JArr js)
  then have "list_all2 lexesTo (map jprint js) (map toks js)"
    by (auto simp: list_all2_conv_all_nth list_all_iff)
  from lexesTo_joined [OF this] show ?case
    by (auto simp: lexesTo_def)
next
  case (JObj kvs)
  have "lexesTo (quoteJson k @ CHR 0x3A # jprint v) (TStr k # TColon # toks v)"
    if "(k, v) \<in> set kvs" for k v
  proof -
    have "utf8Valid k" "lexesTo (jprint v) (toks v)"
      using JObj that by (auto simp: list_all_iff)
    then show ?thesis
      by (auto simp: lexesTo_def lex_quoteJson)
  qed
  then have "list_all2 lexesTo (map (\<lambda>(k, v). quoteJson k @ CHR 0x3A # jprint v) kvs)
      (map (\<lambda>(k, v). TStr k # TColon # toks v) kvs)"
    by (auto simp: list_all2_conv_all_nth split: prod.splits) (metis nth_mem)
  from lexesTo_joined [OF this] show ?case
    by (auto simp: lexesTo_def)
next
  case (JBool b)
  then show ?case by (cases b) (simp_all add: lexesTo_word)
next
  case (JStr s)
  then show ?case by (simp add: lexesTo_def lex_quoteJson)
qed (simp_all add: lexesTo_word lexesTo_num)

text \<open>Running the machine over the tokens of a value completes that value.\<close>

lemma toks_head:
  obtains t ts where "toks v = t # ts" and "t \<noteq> TRBrack"
  by (cases v) auto

lemma jrun_first: "jrun (ExpFirst, FArr vs # st) (toks v @ ts) = jrun (ExpValue, FArr vs # st) (toks v @ ts)"
proof -
  obtain t us where t: "toks v = t # us" "t \<noteq> TRBrack" by (rule toks_head)
  then have "jstep (ExpFirst, FArr vs # st) t = jstep (ExpValue, FArr vs # st) t"
    by (cases t) simp_all
  with t show ?thesis by simp
qed

lemma jrun_elems:
  assumes "\<And>v acc. v \<in> set (x # xs) \<Longrightarrow>
      jrun (ExpValue, FArr acc # st) (toks v) = Some (complete v (FArr acc # st))"
  shows "jrun (ExpValue, FArr acc # st) (joinWith [TComma] (map toks (x # xs)) @ [TRBrack])
    = Some (complete (JArr (rev acc @ x # xs)) st)"
  using assms
proof (induction xs arbitrary: x acc)
  case Nil
  then show ?case by (simp add: jrun_append)
next
  case (Cons y ys)
  have "jrun (ExpValue, FArr (x # acc) # st) (joinWith [TComma] (map toks (y # ys)) @ [TRBrack])
      = Some (complete (JArr (rev (x # acc) @ y # ys)) st)"
    by (rule Cons.IH) (simp add: Cons.prems)
  then show ?case using Cons.prems [of x acc] by (simp add: jrun_append)
qed

lemma jrun_members:
  assumes "\<And>k v acc. (k, v) \<in> set (x # xs) \<Longrightarrow>
      jrun (ExpValue, FObj acc k # st) (toks v) = Some (complete v (FObj acc k # st))"
    and "m = ExpFirstKey \<or> m = ExpKey"
  shows "jrun (m, FObj acc k0 # st)
      (joinWith [TComma] (map (\<lambda>(k, v). TStr k # TColon # toks v) (x # xs)) @ [TRBrace])
    = Some (complete (JObj (rev acc @ x # xs)) st)"
  using assms
proof (induction xs arbitrary: x acc k0 m)
  case Nil
  obtain k v where x: "x = (k, v)" by fastforce
  with Nil show ?case by (auto simp: jrun_append)
next
  case (Cons y ys)
  obtain k v where x: "x = (k, v)" by fastforce
  have "jrun (ExpKey, FObj (x # acc) k # st)
      (joinWith [TComma] (map (\<lambda>(k, v). TStr k # TColon # toks v) (y # ys)) @ [TRBrace])
      = Some (complete (JObj (rev (x # acc) @ y # ys)) st)"
    by (rule Cons.IH) (simp_all add: Cons.prems(1))
  then show ?case using Cons.prems(1) [of k v acc] Cons.prems(2) x
    by (auto simp: jrun_append)
qed

lemma foldr_max_le: "x \<in> set xs \<Longrightarrow> x \<le> foldr max xs (0::nat)"
  by (induction xs) auto

lemma jrun_toks:
  "length st + jdepth v \<le> maxNestingDepth \<Longrightarrow> jrun (ExpValue, st) (toks v) = Some (complete v st)"
proof (induction v arbitrary: st)
  case (JArr js)
  have open_ok: "length st < maxNestingDepth" using JArr.prems by simp
  have el: "jrun (ExpValue, FArr acc # st) (toks v) = Some (complete v (FArr acc # st))"
    if "v \<in> set js" for v acc
  proof -
    have "jdepth v \<le> foldr max (map jdepth js) 0" using that by (intro foldr_max_le) simp
    with JArr.prems that show ?thesis by (intro JArr.IH) simp_all
  qed
  show ?case
  proof (cases js)
    case (Cons x xs)
    have "jrun (ExpFirst, FArr [] # st) (joinWith [TComma] (map toks js) @ [TRBrack])
        = jrun (ExpValue, FArr [] # st) (joinWith [TComma] (map toks js) @ [TRBrack])"
      by (cases xs) (simp_all add: Cons jrun_first)
    with jrun_elems [of x xs st "[]"] el open_ok show ?thesis by (simp add: Cons)
  qed (simp add: open_ok)
next
  case (JObj kvs)
  have open_ok: "length st < maxNestingDepth" using JObj.prems by simp
  have el: "jrun (ExpValue, FObj acc k # st) (toks v) = Some (complete v (FObj acc k # st))"
    if "(k, v) \<in> set kvs" for k v acc
  proof -
    have "jdepth v \<le> foldr max (map (\<lambda>(k, v). jdepth v) kvs) 0"
      using that by (intro foldr_max_le) force
    with JObj.prems that show ?thesis by (intro JObj.IH [of "(k, v)"]) simp_all
  qed
  show ?case
  proof (cases kvs)
    case (Cons x xs)
    with jrun_members [of x xs st ExpFirstKey "[]" "[]"] el open_ok show ?thesis by simp
  qed (simp add: open_ok)
next
  case (JBool b)
  then show ?case by (cases b) simp_all
qed simp_all

theorem parse_jprint:
  assumes "jsonOk v" and "jdepth v \<le> maxNestingDepth"
  shows "parseJson (jprint v) = Some v"
proof -
  have "lexJson (jprint v @ []) = emit (toks v) (lexJson [])"
    by (rule lexesToD [OF lexesTo_jprint [OF assms(1)]]) simp
  then have "lexJson (jprint v) = Some (toks v)" by simp
  moreover have "jrun (ExpValue, []) (toks v) = Some (Finished v, [])"
    using jrun_toks [of "[]" v] assms(2) by simp
  ultimately show ?thesis by (simp add: parseJson_def)
qed

text \<open>The same with the newline that ends a line or a file.\<close>

lemma parse_jprint_line:
  assumes "jsonOk v" and "jdepth v \<le> maxNestingDepth"
  shows "parseJson (jprint v @ [CHR 0x0A]) = Some v"
proof -
  have "lexJson (jprint v @ [CHR 0x0A]) = emit (toks v) (lexJson [CHR 0x0A])"
    by (rule lexesToD [OF lexesTo_jprint [OF assms(1)]]) (simp add: delimited_def isWs_def)
  moreover have "lexJson [CHR 0x0A] = Some []"
    by (simp add: lexJson.simps(2) lexElem_def isWs_def)
  ultimately have "lexJson (jprint v @ [CHR 0x0A]) = Some (toks v)" by simp
  moreover have "jrun (ExpValue, []) (toks v) = Some (Finished v, [])"
    using jrun_toks [of "[]" v] assms(2) by simp
  ultimately show ?thesis by (simp add: parseJson_def)
qed

end
