(* ===== verification/Json_Spellings.thy ===== *)
theory Json_Spellings
  imports Go_Marshal
begin

text \<open>
  The compact spellings of a JSON value. Encoders differ in how they write a string: Go's escapes \<open><\<close>, \<open>>\<close> and
  \<open>&\<close>, the node's encoder leaves them as they are, and both leave it open which characters get a
  short escape. \<open>spelt\<close> relates a text to a value it may stand for under any of these choices, after the
  grammar of RFC 8259 and not after any encoder; the scanner of \<open>Go_Json\<close> reads each of them back.
\<close>

section \<open>Strings\<close>

text \<open>One character of a string: itself, an escape of two characters, or one or two hexadecimal escapes.\<close>

definition shortEscapes :: "(char \<times> char) list" where
  "shortEscapes = [(CHR 0x22, CHR 0x22), (CHR 0x5C, CHR 0x5C), (CHR ''/'', CHR ''/''), (CHR ''b'', CHR 0x08),
     (CHR ''f'', CHR 0x0C), (CHR ''n'', CHR 0x0A), (CHR ''r'', CHR 0x0D), (CHR ''t'', CHR 0x09)]"

inductive charSpelt :: "string \<Rightarrow> string \<Rightarrow> bool" where
  spelt_raw: "utf8Head (c # cs) = Some (r, length (c # cs)) \<Longrightarrow> c \<noteq> CHR 0x22 \<Longrightarrow> c \<noteq> CHR 0x5C \<Longrightarrow> 0x20 \<le> code c \<Longrightarrow>
    charSpelt (c # cs) (c # cs)"
| spelt_short: "(e, c) \<in> set shortEscapes \<Longrightarrow> charSpelt [CHR 0x5C, e] [c]"
| spelt_hex: "hex4 hs = Some (r, []) \<Longrightarrow> \<not> isSurrogate r \<Longrightarrow> charSpelt (CHR 0x5C # CHR ''u'' # hs) (encodeRune r)"
| spelt_pair: "hex4 hs = Some (r, []) \<Longrightarrow> hex4 ls = Some (q, []) \<Longrightarrow> pairRune r q = Some p \<Longrightarrow>
    charSpelt (CHR 0x5C # CHR ''u'' # hs @ CHR 0x5C # CHR ''u'' # ls) (encodeRune p)"

inductive strSpelt :: "string \<Rightarrow> string \<Rightarrow> bool" where
  spelt_nil: "strSpelt [] []"
| spelt_cons: "charSpelt t v \<Longrightarrow> strSpelt ts vs \<Longrightarrow> strSpelt (t @ ts) (v @ vs)"

definition quoted :: "string \<Rightarrow> string" where
  "quoted t = CHR 0x22 # t @ [CHR 0x22]"

lemma hex4_whole:
  assumes "hex4 hs = Some (r, [])"
  shows "hex4 (hs @ u) = Some (r, u)" and "\<forall>c \<in> set hs. 0x20 \<le> code c"
proof -
  obtain a b c d where h: "hs = [a, b, c, d]" and v: "hexVal a \<noteq> None" "hexVal b \<noteq> None" "hexVal c \<noteq> None" "hexVal d \<noteq> None"
    using assms by (cases hs rule: hex4.cases) (auto split: option.splits)
  with assms show "hex4 (hs @ u) = Some (r, u)" by (auto split: option.splits)
  from v show "\<forall>c \<in> set hs. 0x20 \<le> code c" by (auto simp: h hexVal_def Let_def split: if_splits)
qed

lemma charSpelt_scan: "charSpelt t v \<Longrightarrow> strElem (t @ u) = StrPiece v u"
proof (induction rule: charSpelt.induct)
  case (spelt_raw c cs r)
  have "encodeRune r = c # cs" using encodeRune_utf8Head [OF spelt_raw(1)] by simp
  with utf8Head_append [OF spelt_raw(1), of u] spelt_raw(2-4) show ?case
    by (simp add: strElem_def decodeRune_def)
next
  case (spelt_short e c)
  then show ?case by (auto simp: shortEscapes_def strElem_def escapeElem_def simpleEscape_def)
next
  case (spelt_hex hs r)
  then show ?case using hex4_whole(1) by (simp add: strElem_def escapeElem_def unicodeEscape_def)
next
  case (spelt_pair hs r ls q p)
  then have "isSurrogate r" by (auto simp: pairRune_def isSurrogate_def split: if_splits)
  moreover have "escapedHex4 (CHR 0x5C # CHR ''u'' # ls @ u) = Some (q, u)"
    using hex4_whole(1) [OF spelt_pair(2)] by (simp add: escapedHex4_def hasPrefix_def)
  ultimately show ?case
    using hex4_whole(1) [OF spelt_pair(1), of "CHR 0x5C # CHR ''u'' # ls @ u"] spelt_pair(3)
    by (simp add: strElem_def escapeElem_def unicodeEscape_def)
qed

lemma strSpelt_scan: "strSpelt t s \<Longrightarrow> scanStr (t @ CHR 0x22 # u) = Some (s, u)"
proof (induction rule: strSpelt.induct)
  case spelt_nil
  show ?case by (simp add: scanStr.simps strElem_def)
next
  case (spelt_cons t v ts vs)
  with charSpelt_scan [OF spelt_cons(1), of "ts @ CHR 0x22 # u"] show ?case
    by (subst scanStr.simps) (simp add: prepend_def)
qed

lemma charSpelt_printable: "charSpelt t v \<Longrightarrow> \<forall>c \<in> set t. 0x20 \<le> code c"
proof (induction rule: charSpelt.induct)
  case (spelt_raw c cs r)
  from spelt_raw(1) have "\<forall>d \<in> set cs. 0x80 \<le> code d"
    by (cases rule: utf8Head_forms) (auto simp: code_char_of)
  with spelt_raw(4) show ?case by auto
next
  case (spelt_short e c)
  then show ?case by (auto simp: shortEscapes_def code_def)
qed (auto simp: code_def dest: hex4_whole(2))

lemma strSpelt_printable: "strSpelt t s \<Longrightarrow> \<forall>c \<in> set t. 0x20 \<le> code c"
  by (induction rule: strSpelt.induct) (auto dest: charSpelt_printable)

section \<open>Values\<close>

inductive spelt :: "string \<Rightarrow> json \<Rightarrow> bool" where
  spelt_null: "spelt ''null'' JNull"
| spelt_bool: "spelt (if b then ''true'' else ''false'') (JBool b)"
| spelt_num: "intLit n \<Longrightarrow> spelt n (JNum n)"
| spelt_str: "strSpelt t s \<Longrightarrow> spelt (quoted t) (JStr s)"
| spelt_arr: "list_all2 spelt ts js \<Longrightarrow> spelt (CHR 0x5B # joinWith [CHR 0x2C] ts @ [CHR 0x5D]) (JArr js)"
| spelt_obj: "list_all2 (\<lambda>t (k, v). \<exists>kt vt. strSpelt kt k \<and> spelt vt v \<and> t = quoted kt @ CHR 0x3A # vt) ts kvs \<Longrightarrow>
    spelt (CHR 0x7B # joinWith [CHR 0x2C] ts @ [CHR 0x7D]) (JObj kvs)"
  monos list_all2_mono

lemma lex_quoted: "strSpelt t s \<Longrightarrow> lexJson (quoted t @ rest) = emit [TStr s] (lexJson rest)"
  by (simp add: quoted_def lexJson.simps(2) lexElem_def isWs_def strSpelt_scan)

lemma spelt_lexes: "spelt t j \<Longrightarrow> lexesTo t (toks j)"
proof (induction rule: spelt.induct)
  case (spelt_arr ts js)
  have "list_all2 lexesTo ts (map toks js)"
    using spelt_arr by (simp add: list_all2_map2) (erule list_all2_mono, simp)
  from lexesTo_joined [OF this] show ?case by (auto simp: lexesTo_def)
next
  case (spelt_obj ts kvs)
  have "list_all2 lexesTo ts (map (\<lambda>(k, v). TStr k # TColon # toks v) kvs)"
    unfolding list_all2_map2 using spelt_obj
    by (rule list_all2_mono) (auto simp: lexesTo_def lex_quoted)
  from lexesTo_joined [OF this] show ?case by (auto simp: lexesTo_def)
next
  case (spelt_bool b)
  then show ?case by (cases b) (simp_all add: lexesTo_word)
next
  case (spelt_str t s)
  then show ?case by (simp add: lexesTo_def lex_quoted)
qed (simp_all add: lexesTo_word lexesTo_num)

text \<open>Every spelling of a value that is not nested too deeply is read back as that value.\<close>

theorem parse_spelt:
  assumes "spelt t j" and "jdepth j \<le> maxNestingDepth"
  shows "parseJson t = Some j"
proof -
  have "lexJson (t @ []) = emit (toks j) (lexJson [])"
    by (rule lexesToD [OF spelt_lexes [OF assms(1)]]) simp
  then have "lexJson t = Some (toks j)" by simp
  moreover have "jrun (ExpValue, []) (toks j) = Some (Finished j, [])"
    using jrun_toks [of "[]" j] assms(2) by simp
  ultimately show ?thesis by (simp add: parseJson_def)
qed

text \<open>A spelling holds no control character, so it is one line.\<close>

lemma joinWith_set: "set (joinWith sep xs) \<subseteq> set sep \<union> \<Union> (set (map set xs))"
  by (induction sep xs rule: joinWith.induct) auto

lemma intLit_printable: "intLit n \<Longrightarrow> \<forall>c \<in> set n. 0x20 \<le> code c"
proof -
  assume "intLit n"
  then have "list_all isDigit (drop (length (numSign n)) n)" by (simp add: intLit_def Let_def)
  moreover have "set n \<subseteq> {CHR ''-''} \<union> set (drop (length (numSign n)) n)"
    using numSign_split [of n] unfolding numSign_def by (cases n) auto
  ultimately show ?thesis
    by (force simp: list_all_iff isDigit_def code_def)
qed

lemma joined_printable:
  "list_all (\<lambda>t. \<forall>c \<in> set t. 0x20 \<le> code c) ts \<Longrightarrow> \<forall>c \<in> set (joinWith [CHR 0x2C] ts). 0x20 \<le> code c"
  using joinWith_set [of "[CHR 0x2C]" ts] by (fastforce simp: list_all_iff code_def)

lemma spelt_printable: "spelt t j \<Longrightarrow> \<forall>c \<in> set t. 0x20 \<le> code c"
proof (induction rule: spelt.induct)
  case (spelt_arr ts js)
  then have "list_all (\<lambda>t. \<forall>c \<in> set t. 0x20 \<le> code c) ts"
    by (simp add: list_all_length list_all2_conv_all_nth)
  from joined_printable [OF this] show ?case by (auto simp: code_def)
next
  case (spelt_obj ts kvs)
  have "\<forall>c \<in> set (ts ! n). 0x20 \<le> code c" if "n < length ts" for n
    using list_all2_nthD [OF spelt_obj that] strSpelt_printable
    by (cases "kvs ! n") (fastforce simp: quoted_def code_def)
  then have "list_all (\<lambda>t. \<forall>c \<in> set t. 0x20 \<le> code c) ts" by (simp add: list_all_length)
  from joined_printable [OF this] show ?case by (auto simp: code_def)
next
  case (spelt_str t s)
  then show ?case using strSpelt_printable by (fastforce simp: quoted_def code_def)
next
  case (spelt_num n)
  then show ?case by (rule intLit_printable)
qed (auto simp: code_def)

lemma spelt_one_line: "spelt t j \<Longrightarrow> CHR 0x0A \<notin> set t"
  using spelt_printable [of t j] by (auto simp: code_def)

section \<open>Two encoders\<close>

text \<open>What Go's encoder prints is a spelling.\<close>

lemma hex4_escaped:
  "code c < 0x80 \<Longrightarrow> hex4 [CHR ''0'', CHR ''0'', hexDigit (code c div 16), hexDigit (code c mod 16)] = Some (code c, [])"
  by (simp add: hexVal_def [of "CHR ''0''"])

lemma escByte_spelt:
  assumes "code c < 0x80"
  shows "charSpelt (escByte c) [c]"
proof -
  let ?esc = "{CHR 0x22, CHR 0x5C, CHR 0x08, CHR 0x0C, CHR 0x0A, CHR 0x0D, CHR 0x09}"
  consider (esc) "c \<in> ?esc" | (hex) "c \<notin> ?esc" "hexEscaped c" | (plain) "c \<notin> ?esc" "\<not> hexEscaped c" by blast
  then show ?thesis
  proof cases
    case esc
    then obtain e where "escByte c = [CHR 0x5C, e]" "(e, c) \<in> set shortEscapes"
      by (auto simp: escByte_def shortEscapes_def)
    then show ?thesis by (simp add: spelt_short)
  next
    case hex
    then have "escByte c = CHR 0x5C # CHR ''u'' # [CHR ''0'', CHR ''0'', hexDigit (code c div 16), hexDigit (code c mod 16)]"
      by (simp add: escByte_def)
    with spelt_hex [OF hex4_escaped [OF assms]] assms show ?thesis by (simp add: isSurrogate_def encodeRune_ascii)
  next
    case plain
    then have "escByte c = [c]" "0x20 \<le> code c" by (simp_all add: escByte_def hexEscaped_def)
    with plain assms spelt_raw [of c "[]" "code c"] show ?thesis by simp
  qed
qed

lemma escElem_spelt:
  assumes "utf8Head s = Some (r, n)"
  shows "charSpelt (fst (escElem s)) (take n s)"
proof -
  obtain a t where s: "s = a # t" using assms by (cases s) auto
  have enc: "encodeRune r = take n s" using assms by (rule encodeRune_utf8Head)
  show ?thesis
  proof (cases "r < 0x80")
    case True
    with assms s have "code a < 0x80" "r = code a" "n = 1" using utf8Head_code [of a t r n] by auto
    then show ?thesis using s by (simp add: escElem_def escByte_spelt)
  next
    case False
    then have a: "0x80 \<le> code a" using utf8Head_code [of a t r n] assms s by auto
    show ?thesis
    proof (cases "r = 0x2028 \<or> r = 0x2029")
      case True
      have "hex4 ''2028'' = Some (0x2028, [])" "hex4 ''2029'' = Some (0x2029, [])" by code_simp+
      from True spelt_hex [OF this(1)] spelt_hex [OF this(2)] show ?thesis
        using assms enc by (auto simp: escElem_def isSurrogate_def)
    next
      case False
      obtain m where n: "n = Suc m" using utf8Head_size(1) [OF assms] by (cases n) auto
      then have t: "take n s = a # take m t" using s by simp
      have "length (take n s) = n" using utf8Head_size(3) [OF assms] by simp
      then have h: "utf8Head (a # take m t) = Some (r, length (a # take m t))"
        using utf8Head_take [OF assms] by (simp only: t)
      have "a \<noteq> CHR 0x22" "a \<noteq> CHR 0x5C" "0x20 \<le> code a" using a by auto
      from spelt_raw [OF h this] have "charSpelt (take n s) (take n s)" by (simp only: t)
      moreover have "fst (escElem s) = take n s" using assms False \<open>\<not> r < 0x80\<close> by (simp add: escElem_def)
      ultimately show ?thesis by (simp only:)
    qed
  qed
qed

lemma escBody_spelt: "utf8Valid s \<Longrightarrow> strSpelt (escBody s) s"
proof (induction s rule: escBody.induct)
  case (1 s)
  show ?case
  proof (cases "s = []")
    case False
    with "1.prems" obtain r n where h: "utf8Head s = Some (r, n)" and v: "utf8Valid (drop n s)"
      by (rule utf8Valid_cases)
    have "snd (escElem s) = drop n s" by (simp add: escElem_def h)
    with spelt_cons [OF escElem_spelt [OF h]] "1.IH" [OF False] v False show ?thesis
      by (subst escBody.simps) (metis append_take_drop_id)
  qed (simp add: spelt_nil)
qed

lemma jprint_spelt: "jsonOk j \<Longrightarrow> spelt (jprint j) j"
proof (induction j)
  case (JArr js)
  then have "list_all2 spelt (map jprint js) js" by (simp add: list_all2_map1 list_all2_same list_all_iff)
  from spelt_arr [OF this] show ?case by simp
next
  case (JObj kvs)
  have "list_all2 (\<lambda>t (k, v). \<exists>kt vt. strSpelt kt k \<and> spelt vt v \<and> t = quoted kt @ CHR 0x3A # vt)
      (map (\<lambda>(k, v). quoteJson k @ CHR 0x3A # jprint v) kvs) kvs"
    using JObj by (force simp: list_all2_map1 list_all2_same list_all_iff quoteJson_def quoted_def intro: escBody_spelt)
  from spelt_obj [OF this] show ?case by simp
next
  case (JStr s)
  then show ?case using spelt_str [OF escBody_spelt] by (simp add: quoteJson_def quoted_def)
next
  case (JBool b)
  show ?case using spelt_bool [of b] by simp
qed (simp_all add: spelt_null spelt_num)

text \<open>ASCII text without quotes, backslashes and controls may stand for itself.\<close>

definition plainText :: "string \<Rightarrow> bool" where
  "plainText s \<longleftrightarrow> list_all (\<lambda>c. 0x20 \<le> code c \<and> code c < 0x80 \<and> c \<noteq> CHR 0x22 \<and> c \<noteq> CHR 0x5C) s"

lemma plain_spelt: "plainText s \<Longrightarrow> strSpelt s s"
proof (induction s)
  case (Cons c s)
  then have "charSpelt [c] [c]" by (intro spelt_raw [of c "[]" "code c"]) (auto simp: plainText_def)
  from spelt_cons [OF this] Cons show ?case by (simp add: plainText_def)
qed (simp add: spelt_nil)

end
