(* ===== verification/Agent_Request.thy ===== *)
theory Agent_Request
  imports Agent_Frame Json_Spellings "HOL-Library.Multiset"
begin

text \<open>
  The request line and the reply line of \<open>agent/protocol/request.go\<close>: reading one line within
  the line bound, parsing it into a port or a shell request, and writing the one reply.
\<close>

section \<open>The code\<close>

definition LineLimit :: nat where
  [bound_simps]: "LineLimit = 16 * 1024"

datatype reqErr = ReqIO ioErr | ErrInvalidRequest

datatype rejection = RejectionInvalidRequest | RejectionConnectionRefused

record shellRequest =
  Term :: string
  Cols :: "16 word"
  Rows :: "16 word"
  Command :: "string list"

datatype request = PortRequest "16 word" | ShellRequest shellRequest

definition newline :: byte where
  "newline = 10"

definition hasExactFields :: "(string \<times> json) list \<Rightarrow> string list \<Rightarrow> bool" where
  "hasExactFields flds names \<longleftrightarrow>
     length flds = length names \<and> list_all (\<lambda>n. map_of flds n \<noteq> None) names"

definition parsePort :: "(string \<times> json) list \<Rightarrow> (reqErr, request) result" where
  "parsePort flds =
     (if \<not> hasExactFields flds [''target'', ''port''] then Inl ErrInvalidRequest
      else case unmarshalRaw decUint16 (map_of flds ''port'') 0 of
        (port, ok) \<Rightarrow> if \<not> ok \<or> port = 0 then Inl ErrInvalidRequest else Inr (PortRequest port))"

definition hasNul :: "string \<Rightarrow> bool" where
  "hasNul s \<longleftrightarrow> CHR 0x00 \<in> set s"

definition parseCommand :: "json option \<Rightarrow> (reqErr, string list) result" where
  "parseCommand raw =
     (if raw = Some JNull then Inr []
      else case unmarshalRaw (decSlice decString []) raw [] of
        (cmd, ok) \<Rightarrow>
          if \<not> ok \<or> cmd = [] then Inl ErrInvalidRequest
          else if list_ex hasNul cmd then Inl ErrInvalidRequest
          else Inr cmd)"

definition parseShell :: "(string \<times> json) list \<Rightarrow> (reqErr, request) result" where
  "parseShell flds =
     (if \<not> hasExactFields flds [''target'', ''term'', ''cols'', ''rows'', ''command'']
      then Inl ErrInvalidRequest
      else case unmarshalRaw decString (map_of flds ''term'') [] of
        (trm, ok1) \<Rightarrow>
          if \<not> ok1 \<or> trm = [] \<or> hasNul trm then Inl ErrInvalidRequest
          else case unmarshalRaw decUint16 (map_of flds ''cols'') 0 of
            (cols, ok2) \<Rightarrow>
              if \<not> ok2 \<or> cols = 0 then Inl ErrInvalidRequest
              else case unmarshalRaw decUint16 (map_of flds ''rows'') 0 of
                (rows, ok3) \<Rightarrow>
                  if \<not> ok3 \<or> rows = 0 then Inl ErrInvalidRequest
                  else andThen (parseCommand (map_of flds ''command'')) (\<lambda>cmd.
                    Inr (ShellRequest \<lparr>Term = trm, Cols = cols, Rows = rows, Command = cmd\<rparr>)))"

definition parseRequestLine :: "string \<Rightarrow> (reqErr, request) result" where
  "parseRequestLine line =
     (case unmarshalFields (trimSuffix line [CHR 0x0A]) of
        None \<Rightarrow> Inl ErrInvalidRequest
      | Some flds \<Rightarrow>
          (case unmarshalRaw decString (map_of flds ''target'') [] of
             (target, ok) \<Rightarrow>
               if \<not> ok then Inl ErrInvalidRequest
               else if target = ''port'' then parsePort flds
               else if target = ''shell'' then parseShell flds
               else Inl ErrInvalidRequest))"

definition readRequest :: "(reader, reqErr, request) action" where
  "readRequest =
     attempt (wrapErr ReqIO (readSlice LineLimit newline)) (\<lambda>line.
       lift (parseRequestLine (bytesString line)))"

section \<open>Replies\<close>

record reply =
  OK :: bool
  Error :: string

text \<open>\<open>json:"error,omitempty"\<close>: an empty error is left out.\<close>

definition replyJson :: "reply \<Rightarrow> json" where
  "replyJson v = JObj ([(''ok'', JBool (OK v))] @ (if Error v = [] then [] else [(''error'', JStr (Error v))]))"

definition writeReply :: "reply \<Rightarrow> (writer, ioErr, unit) action" where
  "writeReply v = writeBytes (stringBytes (jprint (replyJson v) @ [CHR 0x0A]))"

fun rejectionText :: "rejection \<Rightarrow> string" where
  "rejectionText RejectionInvalidRequest = ''invalid_request''"
| "rejectionText RejectionConnectionRefused = ''connection_refused''"

definition writeAccepted :: "(writer, ioErr, unit) action" where
  "writeAccepted = writeReply \<lparr>OK = True, Error = []\<rparr>"

definition writeRejected :: "rejection \<Rightarrow> (writer, ioErr, unit) action" where
  "writeRejected rej = writeReply \<lparr>OK = False, Error = rejectionText rej\<rparr>"

section \<open>What an accepted request satisfies\<close>

fun requestOk :: "request \<Rightarrow> bool" where
  "requestOk (PortRequest p) \<longleftrightarrow> p \<noteq> 0"
| "requestOk (ShellRequest r) \<longleftrightarrow>
     Term r \<noteq> [] \<and> \<not> hasNul (Term r) \<and> Cols r \<noteq> 0 \<and> Rows r \<noteq> 0 \<and> \<not> list_ex hasNul (Command r)"

lemma parsePort_ok: "parsePort flds = Inr req \<Longrightarrow> requestOk req"
  by (auto simp: parsePort_def split: if_splits prod.splits)

lemma parseCommand_ok: "parseCommand raw = Inr cmd \<Longrightarrow> \<not> list_ex hasNul cmd"
  by (auto simp: parseCommand_def split: if_splits prod.splits)

lemma parseShell_ok: "parseShell flds = Inr req \<Longrightarrow> requestOk req"
  by (auto simp: parseShell_def andThen_eq_Inr_iff dest: parseCommand_ok
      split: if_splits prod.splits)

lemma parseRequestLine_ok: "parseRequestLine line = Inr req \<Longrightarrow> requestOk req"
  by (auto simp: parseRequestLine_def intro: parsePort_ok parseShell_ok
      split: if_splits prod.splits option.splits)

lemma parseCommand_err: "parseCommand raw = Inl e \<Longrightarrow> e = ErrInvalidRequest"
  by (auto simp: parseCommand_def split: if_splits prod.splits)

lemma parseRequestLine_err: "parseRequestLine line = Inl e \<Longrightarrow> e = ErrInvalidRequest"
  by (auto simp: parseRequestLine_def parsePort_def parseShell_def andThen_eq_Inl_iff
      dest: parseCommand_err split: if_splits prod.splits option.splits)

section \<open>What the node sends\<close>

text \<open>
  The members of the object that \<open>StreamTarget.encode\<close> of the node builds for a target; a nil command is
  null. The line is some compact spelling of such an object, its members in some order: the node's encoder
  (\<open>Jason\<close>) orders and escapes in its own way, for one leaving \<open><\<close>, \<open>>\<close> and \<open>&\<close> as they are.
\<close>

definition jport :: "16 word \<Rightarrow> json" where
  "jport w = jnat (unat w)"

fun requestMembers :: "request \<Rightarrow> (string \<times> json) list" where
  "requestMembers (PortRequest p) = [(''target'', JStr ''port''), (''port'', jport p)]"
| "requestMembers (ShellRequest r) =
     [(''target'', JStr ''shell''), (''term'', JStr (Term r)), (''cols'', jport (Cols r)),
      (''rows'', jport (Rows r)),
      (''command'', if Command r = [] then JNull else JArr (map JStr (Command r)))]"

lemma decUint16_jport [simp]: "decUint16 (jport w) old = (w, True)"
proof -
  have "unat w < 65536" using unsigned_less [of w, where ?'a = nat] by simp
  then show ?thesis by (simp add: jport_def jnat_def)
qed

lemma decElems_strings [simp]: "decElems decString [] (map JStr ss) [] = (ss, True)"
  by (induction ss) simp_all

lemma requestMembers_depth: "jdepth (JObj (requestMembers req)) \<le> 2"
proof -
  have "foldr max (map (jdepth \<circ> JStr) ss) 0 = 0" for ss
    by (induction ss) simp_all
  then show ?thesis by (cases req) (simp_all add: jport_def jnat_def)
qed

text \<open>Reading an object's members does not depend on their order.\<close>

lemma card_dom_distinct: "distinct (map fst m) \<Longrightarrow> card (dom (map_of m)) = length m"
  using distinct_card [of "map fst m"] by (simp add: dom_map_of_conv_image_fst)

lemma rawFields_perm:
  assumes "mset kvs = mset kvs'" and "distinct (map fst kvs')"
  shows "length (rawFields kvs) = length kvs'" "map_of (rawFields kvs) = map_of kvs'"
proof -
  have "mset (map fst kvs) = mset (map fst kvs')" using assms(1) by (simp only: mset_map)
  from mset_eq_imp_distinct_iff [OF this] have d: "distinct (map fst kvs)"
    using assms(2) by (rule iffD2)
  have "map_of kvs = map_of kvs'"
    by (rule iffD2 [OF map_of_inject_set [OF d assms(2)] mset_eq_setD [OF assms(1)]])
  then show m': "map_of (rawFields kvs) = map_of kvs'"
    by (simp only: rawFields_id [OF d])
  have "length (rawFields kvs) = card (dom (map_of (rawFields kvs)))"
    by (rule card_dom_distinct [symmetric]) simp
  also have "\<dots> = length kvs'"
    unfolding m' by (rule card_dom_distinct [OF assms(2)])
  finally show "length (rawFields kvs) = length kvs'" .
qed

lemma jdepth_perm:
  assumes "mset kvs = mset kvs'" and "jdepth (JObj kvs') \<le> n"
  shows "jdepth (JObj kvs) \<le> n"
proof -
  have s: "set kvs = set kvs'" using assms(1) by (rule mset_eq_setD)
  have "foldr max (map f xs) (0::nat) \<le> m \<longleftrightarrow> (\<forall>x \<in> set xs. f x \<le> m)"
    for f :: "string \<times> json \<Rightarrow> nat" and xs m
    by (induction xs) auto
  then show ?thesis using assms(2) s by (cases n) auto
qed

text \<open>A line that spells the members of a request.\<close>

definition asksFor :: "string \<Rightarrow> request \<Rightarrow> bool" where
  "asksFor line req \<longleftrightarrow> requestOk req \<and>
     (\<exists>kvs. mset kvs = mset (requestMembers req) \<and> spelt line (JObj kvs)) \<and> length line < LineLimit"

lemma parseRequestLine_members:
  assumes "requestOk req" and "mset kvs = mset (requestMembers req)" and "spelt s (JObj kvs)"
  shows "parseRequestLine (s @ [CHR 0x0A]) = Inr req"
proof -
  have "jdepth (JObj kvs) \<le> maxNestingDepth"
    using jdepth_perm [OF assms(2) requestMembers_depth] by (simp add: maxNestingDepth_def del: jdepth.simps)
  with assms(3) have "parseJson s = Some (JObj kvs)" by (rule parse_spelt)
  then have u: "unmarshalFields s = Some (rawFields kvs)" by (simp add: unmarshalFields_def)
  have "distinct (map fst (requestMembers req))" by (cases req) simp_all
  note f = rawFields_perm [OF assms(2) this]
  show ?thesis
    using assms(1)
    by (cases req) (auto simp: parseRequestLine_def u f map_of_rawFields [symmetric]
        parsePort_def parseShell_def parseCommand_def hasExactFields_def unmarshalRaw_def
        simp del: map_of_rawFields)
qed

section \<open>Reading the line\<close>

lemma readRequest_cases:
  "readRequest r =
     (case readSlice LineLimit newline r of
        (Inl e, r') \<Rightarrow> (Inl (ReqIO e), r')
      | (Inr line, r') \<Rightarrow> (parseRequestLine (bytesString line), r'))"
  by (auto simp: readRequest_def attempt_def wrapErr_def lift_def split: prod.splits sum.splits)

lemma charByte_newline [simp]: "charByte (CHR 0x0A) = newline"
  by (simp add: charByte_def newline_def)

lemma byteChar_newline [simp]: "byteChar newline = CHR 0x0A"
  by (metis byteChar_charByte charByte_newline)

lemma bytesString_snoc [simp]: "bytesString (bs @ [newline]) = bytesString bs @ [CHR 0x0A]"
  by (simp add: bytesString_def)

lemma newline_stringBytes:
  assumes "CHR 0x0A \<notin> set s"
  shows "newline \<notin> set (stringBytes s)"
proof
  assume "newline \<in> set (stringBytes s)"
  then obtain c where c: "c \<in> set s" "newline = charByte c" by (auto simp: stringBytes_def)
  then have "byteChar newline = c" by (metis byteChar_charByte)
  with assms c(1) show False by simp
qed

lemma readRequest_line:
  assumes "CHR 0x0A \<notin> set s" and "unread r = stringBytes (s @ [CHR 0x0A]) @ rest"
    and "length s < LineLimit"
  shows "readRequest r = (parseRequestLine (s @ [CHR 0x0A]), r\<lparr>unread := rest\<rparr>)"
proof -
  have "readSlice LineLimit newline r = (Inr (stringBytes s @ [newline]), r\<lparr>unread := rest\<rparr>)"
    using assms newline_stringBytes [OF assms(1)]
    by (intro readSlice_line) (simp_all add: stringBytes_def)
  then show ?thesis by (simp add: readRequest_cases)
qed

lemma readRequest_asked:
  assumes "asksFor line req" and "unread r = stringBytes (line @ [CHR 0x0A]) @ rest"
  shows "readRequest r = (Inr req, r\<lparr>unread := rest\<rparr>)"
proof -
  from assms(1) obtain kvs where kvs: "requestOk req" "mset kvs = mset (requestMembers req)" "spelt line (JObj kvs)"
    and l: "length line < LineLimit" unfolding asksFor_def by blast
  from readRequest_line [OF spelt_one_line [OF kvs(3)] assms(2) l] parseRequestLine_members [OF kvs]
  show ?thesis by simp
qed

section \<open>Properties\<close>

text \<open>The line a successful or refused read has taken from the connection.\<close>

definition lineTaken :: "reader \<Rightarrow> byte list \<Rightarrow> reader \<Rightarrow> bool" where
  "lineTaken r line r' \<longleftrightarrow>
     unread r = line @ [newline] @ unread r' \<and> newline \<notin> set line \<and> length line < LineLimit"

lemma readSlice_taken:
  assumes "readSlice LineLimit newline r = (Inr l, r')"
  obtains line where "l = line @ [newline]" and "lineTaken r line r'"
proof
  let ?line = "takeWhile (\<lambda>b. b \<noteq> newline) (unread r)"
  show l: "l = ?line @ [newline]"
    using assms by (auto simp: readSlice_def Let_def split: if_splits)
  show "lineTaken r ?line r'"
    using readSlice_bound [OF assms] assms
    by (auto simp: lineTaken_def l LineLimit_def readSlice_def Let_def dest: set_takeWhileD
        split: if_splits)
qed

text \<open>C8: Whatever bytes a peer sends, a request that \<open>ReadRequest\<close> accepts has a non-zero port,
  or a non-empty terminal name, a non-zero size and no NUL byte in any string handed to the
  process; and exactly one line of at most \<open>LineLimit\<close> bytes was taken from the connection, so the
  bytes that follow are the first bytes of the relayed stream or of the frame stream.\<close>

theorem accepted_request:
  assumes "readRequest r = (Inr req, r')"
  shows "requestOk req \<and> (\<exists>line. lineTaken r line r')"
proof -
  from assms obtain l where l: "readSlice LineLimit newline r = (Inr l, r')"
    "parseRequestLine (bytesString l) = Inr req"
    by (auto simp: readRequest_cases split: prod.splits sum.splits)
  from l(1) obtain line where "lineTaken r line r'" by (rule readSlice_taken)
  with parseRequestLine_ok [OF l(2)] show ?thesis by blast
qed

theorem accepted_request_witness:
  "requestOk (PortRequest 80)
   \<and> (\<exists>line. lineTaken \<lparr>unread = stringBytes
        ([CHR 0x7B, CHR 0x22] @ ''target'' @ [CHR 0x22, CHR 0x3A, CHR 0x22] @ ''port''
         @ [CHR 0x22, CHR 0x2C, CHR 0x22] @ ''port'' @ [CHR 0x22, CHR 0x3A] @ ''80''
         @ [CHR 0x7D] @ [CHR 0x0A]) @ [1, 2, 3], ends = EOF\<rparr> line \<lparr>unread = [1, 2, 3], ends = EOF\<rparr>)"
  (is "_ \<and> (\<exists>line. lineTaken ?r line ?r')")
proof -
  let ?s = "[CHR 0x7B, CHR 0x22] @ ''target'' @ [CHR 0x22, CHR 0x3A, CHR 0x22] @ ''port''
         @ [CHR 0x22, CHR 0x2C, CHR 0x22] @ ''port'' @ [CHR 0x22, CHR 0x3A] @ ''80'' @ [CHR 0x7D]"
  have s: "jprint (JObj (requestMembers (PortRequest 80))) = ?s" by code_simp
  have "readRequest ?r = (parseRequestLine (?s @ [CHR 0x0A]), ?r')"
    by (subst readRequest_line [of ?s _ "[1, 2, 3]"]) (simp_all add: LineLimit_def)
  also have "parseRequestLine (?s @ [CHR 0x0A]) = Inr (PortRequest 80)"
    by (subst s [symmetric], rule parseRequestLine_members [OF _ refl jprint_spelt]) (simp_all add: jport_def jnat_def utf8Valid_text code_def)
  finally show ?thesis by (rule accepted_request)
qed

text \<open>C9: The node and the agent agree on the request line: every line that spells the members of a request, in
  any order and with any choice of escapes, as compact JSON ended by a newline, is read back as that request, and
  the reader is left at the first byte after the line. What Go's encoder would write is among these lines, and
  so is what the node's writes, which leaves \<open><\<close>, \<open>>\<close> and \<open>&\<close> as they are.\<close>

theorem request_roundtrip:
  assumes "requestOk req" and "mset kvs = mset (requestMembers req)" and "spelt line (JObj kvs)"
    and "length line < LineLimit" and "unread r = stringBytes (line @ [CHR 0x0A]) @ rest"
  shows "readRequest r = (Inr req, r\<lparr>unread := rest\<rparr>)"
  using assms by (intro readRequest_asked) (auto simp: asksFor_def)

theorem request_roundtrip_witness:
  "\<exists>line. line = CHR 0x7B # joinWith [CHR 0x2C] [quoted ''cols'' @ '':80'', quoted ''command'' @ CHR 0x3A # CHR 0x5B #
        joinWith [CHR 0x2C] [quoted ''-c'', quoted ''a && b 2>&1''] @ [CHR 0x5D], quoted ''rows'' @ '':24'',
        quoted ''target'' @ CHR 0x3A # quoted ''shell'', quoted ''term'' @ CHR 0x3A # quoted ''xterm''] @ [CHR 0x7D] \<and>
     readRequest \<lparr>unread = stringBytes (line @ [CHR 0x0A]) @ [0, 0], ends = EOF\<rparr> =
       (Inr (ShellRequest \<lparr>Term = ''xterm'', Cols = 80, Rows = 24, Command = [''-c'', ''a && b 2>&1'']\<rparr>),
        \<lparr>unread = [0, 0], ends = EOF\<rparr>)"
proof -
  let ?rq = "ShellRequest \<lparr>Term = ''xterm'', Cols = 80, Rows = 24, Command = [''-c'', ''a && b 2>&1'']\<rparr>"
  let ?kvs = "[(''cols'', jport 80), (''command'', JArr [JStr ''-c'', JStr ''a && b 2>&1'']), (''rows'', jport 24),
    (''target'', JStr ''shell''), (''term'', JStr ''xterm'')]"
  let ?ts = "[quoted ''cols'' @ CHR 0x3A # showNat 80, quoted ''command'' @ CHR 0x3A # CHR 0x5B #
      joinWith [CHR 0x2C] [quoted ''-c'', quoted ''a && b 2>&1''] @ [CHR 0x5D], quoted ''rows'' @ CHR 0x3A # showNat 24,
      quoted ''target'' @ CHR 0x3A # quoted ''shell'', quoted ''term'' @ CHR 0x3A # quoted ''xterm'']"
  define line where "line = CHR 0x7B # joinWith [CHR 0x2C] ?ts @ [CHR 0x7D]"
  have p: "plainText ''cols''" "plainText ''command''" "plainText ''-c''" "plainText ''a && b 2>&1''" "plainText ''rows''"
    "plainText ''target''" "plainText ''shell''" "plainText ''term''" "plainText ''xterm''"
    by (simp_all add: plainText_def code_def)
  note str = p [THEN plain_spelt] p [THEN plain_spelt, THEN spelt_str]
  have "spelt (CHR 0x5B # joinWith [CHR 0x2C] [quoted ''-c'', quoted ''a && b 2>&1''] @ [CHR 0x5D])
      (JArr [JStr ''-c'', JStr ''a && b 2>&1''])"
    by (rule spelt_arr) (simp add: str)
  moreover have "spelt (showNat n) (jnat n)" for n unfolding jnat_def by (rule spelt_num) simp
  ultimately have sp: "spelt line (JObj ?kvs)"
    using str unfolding line_def by (intro spelt_obj) (simp add: jport_def; blast)
  have l: "length line < LineLimit"
  proof -
    have "length line = 84" unfolding line_def by code_simp
    then show ?thesis by (simp add: LineLimit_def)
  qed
  have ok: "requestOk ?rq" "mset ?kvs = mset (requestMembers ?rq)" by (simp_all add: hasNul_def)
  have "showNat 80 = ''80''" "showNat 24 = ''24''" by code_simp+
  moreover have "readRequest \<lparr>unread = stringBytes (line @ [CHR 0x0A]) @ [0, 0], ends = EOF\<rparr> =
      (Inr ?rq, \<lparr>unread = [0, 0], ends = EOF\<rparr>)"
    using request_roundtrip [OF ok sp l, of "\<lparr>unread = stringBytes (line @ [CHR 0x0A]) @ [0, 0], ends = EOF\<rparr>" "[0, 0]"]
    by simp
  ultimately show ?thesis by (intro exI [of _ line] conjI) (simp_all only: line_def append.simps)
qed

text \<open>C36: \<open>ErrInvalidRequest\<close>, the only error the agent answers with a rejection, means that a
  whole line within the bound arrived and does not describe a request. A line that is too long or
  cut off ends in an I/O error and gets no reply.\<close>

theorem invalid_request_iff:
  "readRequest r = (Inl ErrInvalidRequest, r') \<longleftrightarrow>
     (\<exists>line. lineTaken r line r' \<and> r' = r\<lparr>unread := unread r'\<rparr>
        \<and> \<not> isOk (parseRequestLine (bytesString line @ [CHR 0x0A])))"
proof (intro iffI; (elim exE conjE)?)
  assume "readRequest r = (Inl ErrInvalidRequest, r')"
  then obtain l where l: "readSlice LineLimit newline r = (Inr l, r')"
    "parseRequestLine (bytesString l) = Inl ErrInvalidRequest"
    by (auto simp: readRequest_cases split: prod.splits sum.splits)
  from l(1) obtain line where line: "l = line @ [newline]" "lineTaken r line r'"
    by (rule readSlice_taken)
  have "r' = r\<lparr>unread := unread r'\<rparr>"
    using l(1) by (auto simp: readSlice_def Let_def split: if_splits)
  then show "\<exists>line. lineTaken r line r' \<and> r' = r\<lparr>unread := unread r'\<rparr>
      \<and> \<not> isOk (parseRequestLine (bytesString line @ [CHR 0x0A]))"
    using l(2) line by (intro exI [of _ line]) simp
next
  fix line
  assume a: "lineTaken r line r'" "r' = r\<lparr>unread := unread r'\<rparr>"
    "\<not> isOk (parseRequestLine (bytesString line @ [CHR 0x0A]))"
  then obtain e where e: "parseRequestLine (bytesString line @ [CHR 0x0A]) = Inl e"
    by (cases "parseRequestLine (bytesString line @ [CHR 0x0A])") auto
  have "readSlice LineLimit newline r = (Inr (line @ [newline]), r\<lparr>unread := unread r'\<rparr>)"
    by (rule readSlice_line) (use a(1) in \<open>simp_all add: lineTaken_def\<close>)
  with a(2) have "readSlice LineLimit newline r = (Inr (line @ [newline]), r')" by simp
  then show "readRequest r = (Inl ErrInvalidRequest, r')"
    using e parseRequestLine_err [OF e] by (simp add: readRequest_cases)
qed

end
