(* ===== verification/Go_Wait.thy ===== *)
theory Go_Wait
  imports Biot_Prelude
begin

unbundle bit_operations_syntax

text \<open>How a process ended: \<open>syscall.WaitStatus\<close> on Linux, which the agent turns into an exit frame
  and the client into its own exit status.\<close>

definition wsExited :: "32 word \<Rightarrow> bool" where
  "wsExited w \<longleftrightarrow> w AND 0x7F = 0"

definition wsSignaled :: "32 word \<Rightarrow> bool" where
  "wsSignaled w \<longleftrightarrow> w AND 0x7F \<noteq> 0x7F \<and> w AND 0x7F \<noteq> 0"

definition wsExitStatus :: "32 word \<Rightarrow> int" where
  "wsExitStatus w = (if wsExited w then uint (drop_bit 8 w AND 0xFF) else -1)"

definition wsSignal :: "32 word \<Rightarrow> int" where
  "wsSignal w = (if wsSignaled w then uint (w AND 0x7F) else -1)"

end
