(* ===== verification/Agent_Session.thy ===== *)
theory Agent_Session
  imports Agent_Request Go_Wait
begin

text \<open>
  A shell session of \<open>agent/shellsession/session.go\<close>. \<open>readInputStep\<close> is one turn of the
  loop of \<open>readInput\<close>; the concurrent part of \<open>Run\<close> is the relation \<open>sessionStep\<close> over
  the state \<open>session\<close>, whose moves are one ready case of the \<open>select\<close>, one wait of
  \<open>terminate\<close>, or one move of a goroutine: the process waiter, the input reader, the output
  reader. The process, its terminal and the clock are the environment and may move at any time.
\<close>

section \<open>Exit status\<close>

text \<open>The error of \<open>command.Wait\<close>: an \<open>*exec.ExitError\<close> with the \<open>Sys\<close> value it holds,
  when that is a wait status, or any other error.\<close>

datatype waitErr = ExitError "32 word option" | OtherWaitError

definition exitStatus :: "waitErr option \<Rightarrow> byte" where
  "exitStatus err =
     (case err of
        None \<Rightarrow> 0
      | Some OtherWaitError \<Rightarrow> 255
      | Some (ExitError None) \<Rightarrow> 255
      | Some (ExitError (Some ws)) \<Rightarrow>
          if wsSignaled ws then word_of_int (128 + wsSignal ws)
          else word_of_int (wsExitStatus ws))"

section \<open>Input\<close>

datatype peerCause = PeerFrame frameErr | errInvalidFrame

datatype sessionErr = ErrPeer peerCause | TerminalErr ioErr | StartErr

record terminal =
  typed :: writer
  winsize :: "16 word \<times> 16 word"
  resizable :: bool

definition getUint16 :: "byte \<Rightarrow> byte \<Rightarrow> 16 word" where
  "getUint16 a b = ucast b OR push_bit 8 (ucast a)"

definition terminalWrite :: "byte list \<Rightarrow> (terminal, sessionErr, unit) action" where
  "terminalWrite bs t =
     (case writeBytes bs (typed t) of (r, w) \<Rightarrow> (mapErr TerminalErr r, t\<lparr>typed := w\<rparr>))"

definition setsize :: "16 word \<times> 16 word \<Rightarrow> (terminal, sessionErr, unit) action" where
  "setsize sz t = (if resizable t then (Inr (), t\<lparr>winsize := sz\<rparr>) else (Inl (TerminalErr ConnErr), t))"

definition peerError :: "peerCause \<Rightarrow> sessionErr" where
  "peerError c = ErrPeer c"

text \<open>What one frame does to the terminal.\<close>

definition applyFrame :: "frame \<Rightarrow> (terminal, sessionErr, unit) action" where
  "applyFrame f =
     (if ftype f = FrameData then terminalWrite (payload f)
      else if ftype f = FrameResize then
        (if length (payload f) \<noteq> 4 then failWith (peerError errInvalidFrame)
         else let p = payload f;
                  cols = getUint16 (p ! 0) (p ! 1);
                  rows = getUint16 (p ! 2) (p ! 3)
              in if cols = 0 \<or> rows = 0 then failWith (peerError errInvalidFrame)
                 else setsize (cols, rows))
      else failWith (peerError errInvalidFrame))"

text \<open>One turn of the loop: \<open>None\<close> goes round again.\<close>

definition readInputStep :: "reader \<times> terminal \<Rightarrow> sessionErr option \<times> reader \<times> terminal" where
  "readInputStep rt =
     (case readFrame (fst rt) of
        (Inl e, r) \<Rightarrow> (Some (peerError (PeerFrame e)), r, snd rt)
      | (Inr f, r) \<Rightarrow>
          (case applyFrame f (snd rt) of
             (Inl e, t) \<Rightarrow> (Some e, r, t)
           | (Inr _, t) \<Rightarrow> (None, r, t)))"

lemma readFrame_consumes:
  "readFrame r = (Inr f, r') \<Longrightarrow> length (unread r') < length (unread r)"
proof (cases "5 \<le> length (unread r)")
  case True
  then obtain t v tl where tl: "unread r = (t # putUint32 v) @ tl" by (rule header_split)
  assume "readFrame r = (Inr f, r')"
  then show ?thesis by (auto simp: readFrame_header [OF tl] tl split: if_splits)
qed (simp add: readFrame_no_header)

lemma readInputStep_consumes:
  "readInputStep rt = (None, r, t) \<Longrightarrow> length (unread r) < length (unread (fst rt))"
  by (auto simp: readInputStep_def dest: readFrame_consumes split: prod.splits sum.splits)

function readInput :: "reader \<times> terminal \<Rightarrow> sessionErr \<times> reader \<times> terminal" where
  "readInput rt =
     (case readInputStep rt of
        (Some e, rt') \<Rightarrow> (e, rt')
      | (None, rt') \<Rightarrow> readInput rt')"
  by pat_completeness auto
termination
  by (relation "measure (\<lambda>rt. length (unread (fst rt)))")
    (auto dest: readInputStep_consumes [OF sym])

declare readInput.simps [simp del]

section \<open>The running session\<close>

text \<open>
  \<open>mainPc\<close> is where \<open>Run\<close> stands: in the \<open>select\<close>, in the two waits of
  \<open>terminate\<close> (with the error to return afterwards), or returned. \<open>outputOpen\<close> and
  \<open>processOpen\<close> say that the local variables \<open>output\<close> and \<open>processDone\<close> are not
  nil. \<open>processCh\<close> and \<open>inputCh\<close> are the two channels of capacity one, \<open>reading\<close> is
  where the output goroutine stands (\<open>Offering\<close> is blocked in its own \<open>select\<close> with a
  chunk and with whether the read also failed; \<open>ReaderDone\<close> has closed \<open>output\<close>).
  \<open>produced\<close> and \<open>sent\<close> only record history: every byte the terminal gave, and every chunk
  whose frame was written whole.
\<close>

datatype mainPc = Selecting | Terminating sessionErr | Reaping sessionErr | Returned "sessionErr option"

datatype sig = SIGHUP | SIGKILL

datatype proc = Running | Exited byte

datatype outputPc = ReaderIdle | Offering "byte list" bool | ReaderDone

record session =
  connection :: writer
  mainAt :: mainPc
  outputOpen :: bool
  processOpen :: bool
  status :: byte
  processCh :: "byte option"
  inputCh :: "sessionErr option"
  inputRunning :: bool
  inputSide :: "reader \<times> terminal"
  process :: proc
  reading :: outputPc
  sessionDone :: bool
  signals :: "sig list"
  produced :: "byte list"
  sent :: "byte list list"

definition returnWith :: "sessionErr option \<Rightarrow> session \<Rightarrow> session" where
  "returnWith e s = s\<lparr>mainAt := Returned e, sessionDone := True\<rparr>"

definition frameFailure :: "frameErr \<Rightarrow> sessionErr" where
  "frameFailure e = peerError (PeerFrame e)"

definition writeExit :: "session \<Rightarrow> session" where
  "writeExit s =
     (case writeFrame FrameExit [status s] (connection s) of
        (Inl e, w) \<Rightarrow> returnWith (Some (frameFailure e)) (s\<lparr>connection := w\<rparr>)
      | (Inr _, w) \<Rightarrow> returnWith None (s\<lparr>connection := w\<rparr>))"

text \<open>\<open>if processDone != nil { terminate(...) }; return err\<close>: \<open>terminate\<close> sends the first
  signal and starts to wait.\<close>

definition endWith :: "sessionErr \<Rightarrow> session \<Rightarrow> session" where
  "endWith e s =
     (if processOpen s then s\<lparr>mainAt := Terminating e, signals := signals s @ [SIGHUP]\<rparr>
      else returnWith (Some e) s)"

text \<open>The three cases of the \<open>select\<close> in \<open>Run\<close>.\<close>

definition onInputDone :: "sessionErr \<Rightarrow> session \<Rightarrow> session" where
  "onInputDone e s = endWith e s"

definition onChunk :: "byte list \<Rightarrow> session \<Rightarrow> session" where
  "onChunk chunk s =
     (case writeFrame FrameData chunk (connection s) of
        (Inl e, w) \<Rightarrow> endWith (frameFailure e) (s\<lparr>connection := w\<rparr>)
      | (Inr _, w) \<Rightarrow> s\<lparr>connection := w, sent := sent s @ [chunk]\<rparr>)"

definition onOutputClosed :: "session \<Rightarrow> session" where
  "onOutputClosed s =
     (let s' = s\<lparr>outputOpen := False\<rparr> in if processOpen s then s' else writeExit s')"

definition onProcessDone :: "byte \<Rightarrow> session \<Rightarrow> session" where
  "onProcessDone st s =
     (let s' = s\<lparr>status := st, processOpen := False\<rparr> in if outputOpen s then s' else writeExit s')"

text \<open>The moves of the environment and of the program.\<close>

datatype move =
    ProcessExits "waitErr option"
  | InputTurn
  | TerminalRead "byte list" bool
  | ReaderGivesUp
  | SelectInput
  | SelectOutput
  | SelectProcess
  | TerminateSees
  | GraceOver

fun sessionMove :: "move \<Rightarrow> session \<Rightarrow> session option" where
  "sessionMove (ProcessExits err) s =
     (if process s = Running
      then Some (s\<lparr>process := Exited (exitStatus err), processCh := Some (exitStatus err)\<rparr>)
      else None)"
| "sessionMove InputTurn s =
     (if inputRunning s
      then (case readInputStep (inputSide s) of
              (Some e, rt) \<Rightarrow> Some (s\<lparr>inputSide := rt, inputRunning := False, inputCh := Some e\<rparr>)
            | (None, rt) \<Rightarrow> Some (s\<lparr>inputSide := rt\<rparr>))
      else None)"
| "sessionMove (TerminalRead bs failed) s =
     (if reading s = ReaderIdle \<and> length bs \<le> FramePayloadLimit
      then Some (s\<lparr>produced := produced s @ bs,
             reading := if bs \<noteq> [] then Offering bs failed else if failed then ReaderDone else ReaderIdle\<rparr>)
      else None)"
| "sessionMove ReaderGivesUp s =
     (case reading s of
        Offering bs failed \<Rightarrow> if sessionDone s then Some (s\<lparr>reading := ReaderDone\<rparr>) else None
      | _ \<Rightarrow> None)"
| "sessionMove SelectInput s =
     (case inputCh s of
        Some e \<Rightarrow> if mainAt s = Selecting then Some (onInputDone e (s\<lparr>inputCh := None\<rparr>)) else None
      | None \<Rightarrow> None)"
| "sessionMove SelectOutput s =
     (if mainAt s = Selecting \<and> outputOpen s
      then (case reading s of
              Offering bs failed \<Rightarrow>
                Some (onChunk bs (s\<lparr>reading := if failed then ReaderDone else ReaderIdle\<rparr>))
            | ReaderDone \<Rightarrow> Some (onOutputClosed s)
            | ReaderIdle \<Rightarrow> None)
      else None)"
| "sessionMove SelectProcess s =
     (case processCh s of
        Some st \<Rightarrow> if mainAt s = Selecting \<and> processOpen s
          then Some (onProcessDone st (s\<lparr>processCh := None\<rparr>)) else None
      | None \<Rightarrow> None)"
| "sessionMove TerminateSees s =
     (case processCh s of
        Some st \<Rightarrow>
          (case mainAt s of
             Terminating e \<Rightarrow> Some (returnWith (Some e) (s\<lparr>processCh := None\<rparr>))
           | Reaping e \<Rightarrow> Some (returnWith (Some e) (s\<lparr>processCh := None\<rparr>))
           | _ \<Rightarrow> None)
      | None \<Rightarrow> None)"
| "sessionMove GraceOver s =
     (case mainAt s of
        Terminating e \<Rightarrow> Some (s\<lparr>mainAt := Reaping e, signals := signals s @ [SIGKILL]\<rparr>)
      | _ \<Rightarrow> None)"

abbreviation sessionStep :: "session \<Rightarrow> session \<Rightarrow> bool" where
  "sessionStep \<equiv> moves sessionMove"

text \<open>What \<open>Run\<close> starts: the entry point with the request's arguments and terminal name, on a
  terminal of the requested size.\<close>

record spawn =
  path :: string
  args :: "string list"
  environ :: "string list"
  startSize :: "16 word \<times> 16 word"

definition shellCommand :: "string \<Rightarrow> shellRequest \<Rightarrow> spawn" where
  "shellCommand shellEntrypoint rq =
     \<lparr>path = shellEntrypoint, args = Command rq, environ = [''TERM='' @ Term rq],
      startSize = (Cols rq, Rows rq)\<rparr>"

definition startSession :: "writer \<Rightarrow> reader \<Rightarrow> terminal \<Rightarrow> session" where
  "startSession conn input tm =
     \<lparr>connection = conn, mainAt = Selecting, outputOpen = True, processOpen = True, status = 0,
      processCh = None, inputCh = None, inputRunning = True, inputSide = (input, tm),
      process = Running, reading = ReaderIdle, sessionDone = False, signals = [], produced = [],
      sent = []\<rparr>"

definition sessionStarts :: "writer \<Rightarrow> session \<Rightarrow> bool" where
  "sessionStarts conn s \<longleftrightarrow> (\<exists>input tm. s = startSession conn input tm)"


section \<open>Invariants\<close>

definition dataFrame :: "byte list \<Rightarrow> frame" where
  "dataFrame bs = \<lparr>ftype = FrameData, payload = bs\<rparr>"

definition exitFrame :: "byte \<Rightarrow> frame" where
  "exitFrame st = \<lparr>ftype = FrameExit, payload = [st]\<rparr>"

definition outStream :: "byte list list \<Rightarrow> byte list" where
  "outStream chunks = concat (map (\<lambda>c. encodeFrame (dataFrame c)) chunks)"

fun pending :: "outputPc \<Rightarrow> byte list" where
  "pending (Offering bs _) = bs"
| "pending _ = []"

text \<open>What holds of the process and its channel, of the signals sent, of the output goroutine, and
  of the bytes on the connection.\<close>

fun processInv :: "session \<Rightarrow> bool" where
  "processInv s \<longleftrightarrow>
     (case process s of
        Running \<Rightarrow> processOpen s \<and> processCh s = None \<and> (\<forall>e. mainAt s \<noteq> Returned e)
      | Exited st \<Rightarrow>
          if processOpen s then processCh s = Some st \<or> (\<exists>e. mainAt s = Returned (Some e))
          else processCh s = None \<and> status s = st \<and> (\<forall>e. mainAt s \<noteq> Terminating e \<and> mainAt s \<noteq> Reaping e))"

fun signalInv :: "session \<Rightarrow> bool" where
  "signalInv s \<longleftrightarrow>
     (case mainAt s of
        Selecting \<Rightarrow> signals s = []
      | Terminating e \<Rightarrow> signals s = [SIGHUP]
      | Reaping e \<Rightarrow> signals s = [SIGHUP, SIGKILL]
      | Returned None \<Rightarrow> signals s = []
      | Returned (Some e) \<Rightarrow> signals s \<in> {[], [SIGHUP], [SIGHUP, SIGKILL]} \<and> (processOpen s \<longleftrightarrow> signals s \<noteq> []))"

fun outputInv :: "session \<Rightarrow> bool" where
  "outputInv s \<longleftrightarrow>
     (outputOpen s \<or> reading s = ReaderDone) \<and>
     (sessionDone s \<longleftrightarrow> (\<exists>e. mainAt s = Returned e)) \<and>
     (mainAt s = Selecting \<longrightarrow> outputOpen s \<or> processOpen s) \<and>
     (mainAt s = Returned None \<longrightarrow> \<not> outputOpen s \<and> \<not> processOpen s) \<and>
     list_all (\<lambda>c. length c \<le> FramePayloadLimit) (pending (reading s) # sent s)"

definition tooLarge :: sessionErr where
  "tooLarge = frameFailure ErrFrameTooLarge"

definition streamInv :: "byte list \<Rightarrow> session \<Rightarrow> bool" where
  "streamInv start s \<longleftrightarrow>
     (case mainAt s of
        Selecting \<Rightarrow>
          written (connection s) = start @ outStream (sent s) \<and>
          produced s = concat (sent s) @ pending (reading s)
      | Returned None \<Rightarrow>
          written (connection s) = start @ outStream (sent s) @ encodeFrame (exitFrame (status s)) \<and>
          produced s = concat (sent s)
      | _ \<Rightarrow>
          (\<exists>part f rest. written (connection s) = start @ outStream (sent s) @ part \<and>
             encodeFrame f = part @ rest \<and> (f = exitFrame (status s) \<or>
               (\<exists>c. f = dataFrame c \<and> length c \<le> FramePayloadLimit))))"

definition sessionInv :: "writer \<Rightarrow> session \<Rightarrow> bool" where
  "sessionInv conn s \<longleftrightarrow>
     processInv s \<and> signalInv s \<and> outputInv s \<and> streamInv (written conn) s"

lemma writeBytes_front:
  "writeBytes bs w = (r, w') \<Longrightarrow>
     \<exists>part rest. written w' = written w @ part \<and> bs = part @ rest \<and> (isOk r \<longrightarrow> rest = [])"
  by (auto simp: writeBytes_def intro: exI [of _ "drop n bs" for n] split: option.splits if_splits)
    (metis append_take_drop_id)

lemma writeFrame_front:
  assumes "writeFrame t p w = (r, w')" and "length p \<le> FramePayloadLimit"
  shows "\<exists>part rest. written w' = written w @ part \<and> encodeFrame \<lparr>ftype = t, payload = p\<rparr> = part @ rest
    \<and> (isOk r \<longrightarrow> rest = [])"
proof -
  let ?h = "t # putUint32 (word_of_nat (length p))"
  have enc: "encodeFrame \<lparr>ftype = t, payload = p\<rparr> = ?h @ p" by (simp add: encodeFrame_def)
  obtain r1 w1 where h: "writeBytes ?h w = (r1, w1)" by (cases "writeBytes ?h w")
  from writeBytes_front [OF h] obtain part rest where
    part: "written w1 = written w @ part" "?h = part @ rest" "isOk r1 \<longrightarrow> rest = []" by blast
  show ?thesis
  proof (cases r1)
    case (Inl e)
    then have "w' = w1" "\<not> isOk r" using assms h by (auto simp: writeFrame_def attempt_def wrapErr_def)
    moreover have "?h @ p = part @ (rest @ p)" using part(2) by simp
    ultimately show ?thesis unfolding enc using part(1) by blast
  next
    case (Inr u)
    then have b: "writeBytes p w1 = (case r of Inl (FrameIO e) \<Rightarrow> Inl e | Inr u \<Rightarrow> Inr u, w')"
      using assms h
      by (cases "writeBytes p w1"; cases "fst (writeBytes p w1)")
        (auto simp: writeFrame_def attempt_def wrapErr_def)
    from writeBytes_front [OF b] obtain part2 rest2 where
      part2: "written w' = written w1 @ part2" "p = part2 @ rest2" "isOk r \<longrightarrow> rest2 = []"
      by (cases r) auto
    have "?h = part" using part(2,3) Inr by simp
    then have "?h @ p = (part @ part2) @ rest2" using part2(2) by simp
    moreover have "written w' = written w @ (part @ part2)" using part(1) part2(1) by simp
    ultimately show ?thesis unfolding enc using part2(3) by blast
  qed
qed

lemma startSession_inv: "sessionStarts conn s \<Longrightarrow> sessionInv conn s"
  by (auto simp: sessionStarts_def startSession_def sessionInv_def streamInv_def outStream_def)


lemmas session_defs = onInputDone_def onChunk_def onOutputClosed_def onProcessDone_def endWith_def
  returnWith_def writeExit_def

text \<open>Every move of the session, with what it read and what it changed.\<close>

definition exitResult :: "(frameErr, unit) result \<Rightarrow> sessionErr option" where
  "exitResult r = (case r of Inl e \<Rightarrow> Some (frameFailure e) | Inr _ \<Rightarrow> None)"

lemma writeExit_eq:
  "writeFrame FrameExit [status s] (connection s) = (r, w) \<Longrightarrow>
     writeExit s = returnWith (exitResult r) (s\<lparr>connection := w\<rparr>)"
  by (auto simp: writeExit_def exitResult_def split: sum.split)

abbreviation afterOffer :: "bool \<Rightarrow> outputPc" where
  "afterOffer failed \<equiv> (if failed then ReaderDone else ReaderIdle)"

lemma sessionMove_cases:
  assumes "sessionMove m s = Some t"
  obtains
    (exits) st where "process s = Running" "t = s\<lparr>process := Exited st, processCh := Some st\<rparr>"
  | (input_goes) rt where "t = s\<lparr>inputSide := rt\<rparr>"
  | (input_ends) rt e where "t = s\<lparr>inputSide := rt, inputRunning := False, inputCh := Some e\<rparr>"
  | (reads) bs failed where "reading s = ReaderIdle" "length bs \<le> FramePayloadLimit"
      "t = s\<lparr>produced := produced s @ bs,
             reading := if bs \<noteq> [] then Offering bs failed else afterOffer failed\<rparr>"
  | (gives_up) bs failed where "reading s = Offering bs failed" "sessionDone s"
      "t = s\<lparr>reading := ReaderDone\<rparr>"
  | (input_seen) e where "mainAt s = Selecting" "inputCh s = Some e" "t = endWith e (s\<lparr>inputCh := None\<rparr>)"
  | (chunk_ok) bs failed w where "mainAt s = Selecting" "outputOpen s" "reading s = Offering bs failed"
      "writeFrame FrameData bs (connection s) = (Inr (), w)"
      "t = s\<lparr>reading := afterOffer failed, connection := w, sent := sent s @ [bs]\<rparr>"
  | (chunk_fails) bs failed w e where "mainAt s = Selecting" "outputOpen s"
      "reading s = Offering bs failed" "writeFrame FrameData bs (connection s) = (Inl e, w)"
      "t = endWith (frameFailure e) (s\<lparr>reading := afterOffer failed, connection := w\<rparr>)"
  | (closed) "mainAt s = Selecting" "outputOpen s" "reading s = ReaderDone" "processOpen s"
      "t = s\<lparr>outputOpen := False\<rparr>"
  | (closed_exit) r w where "mainAt s = Selecting" "outputOpen s" "reading s = ReaderDone"
      "\<not> processOpen s" "writeFrame FrameExit [status s] (connection s) = (r, w)"
      "t = returnWith (exitResult r) (s\<lparr>outputOpen := False, connection := w\<rparr>)"
  | (process_seen) st where "mainAt s = Selecting" "processOpen s" "processCh s = Some st" "outputOpen s"
      "t = s\<lparr>processCh := None, status := st, processOpen := False\<rparr>"
  | (process_exit) st r w where "mainAt s = Selecting" "processOpen s" "processCh s = Some st"
      "\<not> outputOpen s" "writeFrame FrameExit [st] (connection s) = (r, w)"
      "t = returnWith (exitResult r)
         (s\<lparr>processCh := None, status := st, processOpen := False, connection := w\<rparr>)"
  | (reaped) st e where "processCh s = Some st" "mainAt s = Terminating e \<or> mainAt s = Reaping e"
      "t = returnWith (Some e) (s\<lparr>processCh := None\<rparr>)"
  | (grace) e where "mainAt s = Terminating e"
      "t = s\<lparr>mainAt := Reaping e, signals := signals s @ [SIGKILL]\<rparr>"
proof (cases m)
  case (ProcessExits err)
  with assms exits show thesis by (auto split: if_splits)
next
  case InputTurn
  with assms input_goes input_ends show thesis by (auto split: if_splits option.splits prod.splits)
next
  case (TerminalRead bs failed)
  with assms reads [of bs failed] show thesis by (auto split: if_split_asm)
next
  case ReaderGivesUp
  with assms gives_up show thesis by (auto split: if_splits outputPc.splits)
next
  case SelectInput
  with assms input_seen show thesis by (auto simp: onInputDone_def split: if_splits option.splits)
next
  case SelectOutput
  with assms have m: "mainAt s = Selecting" "outputOpen s" by (auto split: if_splits)
  show thesis
  proof (cases "reading s")
    case (Offering bs failed)
    obtain r w where w: "writeFrame FrameData bs (connection s) = (r, w)" by fastforce
    with assms m SelectOutput Offering chunk_ok chunk_fails show thesis
      by (cases r) (auto simp: onChunk_def)
  next
    case ReaderDone
    obtain r w where w: "writeFrame FrameExit [status s] (connection s) = (r, w)" by fastforce
    with assms m SelectOutput ReaderDone closed closed_exit
      writeExit_eq [of "s\<lparr>outputOpen := False\<rparr>" r w] show thesis
      by (auto simp: onOutputClosed_def Let_def split: if_splits)
  qed (use assms m SelectOutput in simp)
next
  case SelectProcess
  with assms obtain st where m: "mainAt s = Selecting" "processOpen s" "processCh s = Some st"
    by (auto split: if_splits option.splits)
  obtain r w where w: "writeFrame FrameExit [st] (connection s) = (r, w)" by fastforce
  with assms m SelectProcess process_seen process_exit
    writeExit_eq [of "s\<lparr>processCh := None, status := st, processOpen := False\<rparr>" r w] show thesis
    by (auto simp: onProcessDone_def Let_def split: if_splits)
next
  case TerminateSees
  with assms reaped show thesis by (auto split: option.splits mainPc.splits)
next
  case GraceOver
  with assms grace show thesis by (auto split: mainPc.splits)
qed

text \<open>The four parts of the invariant are kept by every move.\<close>

lemma endWith_simps [simp]:
  "processOpen s \<Longrightarrow> endWith e s = s\<lparr>mainAt := Terminating e, signals := signals s @ [SIGHUP]\<rparr>"
  "\<not> processOpen s \<Longrightarrow> endWith e s = s\<lparr>mainAt := Returned (Some e), sessionDone := True\<rparr>"
  by (simp_all add: endWith_def returnWith_def)

lemma processInv_step:
  assumes "sessionMove m s = Some t" "processInv s" "outputInv s"
  shows "processInv t"
  using assms(1)
  by (cases rule: sessionMove_cases; cases "processOpen s"; cases "process s"; use assms(2,3) in \<open>simp add: returnWith_def split: if_splits\<close>)

lemma signalInv_step:
  assumes "sessionMove m s = Some t" "signalInv s" "processInv s"
  shows "signalInv t"
  using assms(1)
  by (cases rule: sessionMove_cases; cases "processOpen s"; use assms(2,3) in \<open>simp add: returnWith_def split: if_splits option.splits mainPc.splits proc.splits\<close>)

lemma outputInv_step:
  assumes "sessionMove m s = Some t" "outputInv s" "processInv s"
  shows "outputInv t"
  using assms(1)
  by (cases rule: sessionMove_cases; cases "processOpen s"; use assms(2,3) in \<open>simp add: returnWith_def split: if_splits\<close>)

lemma outStream_snoc [simp]: "outStream (cs @ [c]) = outStream cs @ encodeFrame (dataFrame c)"
  by (simp add: outStream_def)

text \<open>What is on the connection once the session is over for another reason than its own end.\<close>

definition frontOf :: "byte list \<Rightarrow> byte \<Rightarrow> byte list list \<Rightarrow> byte list \<Rightarrow> bool" where
  "frontOf start st cs bs \<longleftrightarrow>
     (\<exists>part f rest. bs = start @ outStream cs @ part \<and> encodeFrame f = part @ rest \<and>
        (f = exitFrame st \<or> (\<exists>c. f = dataFrame c \<and> length c \<le> FramePayloadLimit)))"

lemma frontOf_whole: "frontOf start st cs (start @ outStream cs)"
  unfolding frontOf_def
  by (rule exI [of _ "[]"], rule exI [of _ "exitFrame st"],
      rule exI [of _ "encodeFrame (exitFrame st)"]) simp

lemma frontOf_chunk:
  assumes "writeFrame FrameData c w = (r, w')" "length c \<le> FramePayloadLimit"
    and "written w = start @ outStream cs"
  shows "frontOf start st cs (written w')"
  using writeFrame_front [OF assms(1,2)] assms(2,3) unfolding frontOf_def dataFrame_def by auto

lemma exitFrame_front:
  assumes "writeFrame FrameExit [st] w = (r, w')" and "written w = start @ outStream cs"
  shows "frontOf start st cs (written w')"
    and "isOk r \<Longrightarrow> written w' = start @ outStream cs @ encodeFrame (exitFrame st)"
proof -
  have l: "length [st] \<le> FramePayloadLimit" by (simp add: FramePayloadLimit_def)
  show "frontOf start st cs (written w')"
    "isOk r \<Longrightarrow> written w' = start @ outStream cs @ encodeFrame (exitFrame st)"
    using writeFrame_front [OF assms(1) l] assms(2) unfolding frontOf_def exitFrame_def by auto
qed

lemma streamInv_alt:
  "streamInv start s \<longleftrightarrow>
     (case mainAt s of
        Selecting \<Rightarrow>
          written (connection s) = start @ outStream (sent s) \<and>
          produced s = concat (sent s) @ pending (reading s)
      | Returned None \<Rightarrow>
          written (connection s) = start @ outStream (sent s) @ encodeFrame (exitFrame (status s)) \<and>
          produced s = concat (sent s)
      | _ \<Rightarrow> frontOf start (status s) (sent s) (written (connection s)))"
  by (simp add: streamInv_def frontOf_def split: mainPc.split option.split)

lemma writeFrame_data_ok:
  "writeFrame FrameData c w = (Inr (), w') \<Longrightarrow> written w' = written w @ encodeFrame (dataFrame c)"
  by (simp add: writeFrame_ok_iff dataFrame_def)

lemma streamInv_step:
  assumes m: "sessionMove m s = Some t" and i: "streamInv start s" "outputInv s" "processInv s"
  shows "streamInv start t"
  using m
proof (cases rule: sessionMove_cases)
  case (chunk_fails bs failed w e)
  then have "frontOf start (status s) (sent s) (written w)"
    using i by (intro frontOf_chunk [of bs "connection s" "Inl e"]) (auto simp: streamInv_alt)
  with chunk_fails show ?thesis by (cases "processOpen s") (simp_all add: streamInv_alt)
next
  case (closed_exit r w)
  with i have s: "written (connection s) = start @ outStream (sent s)" "produced s = concat (sent s)"
    by (simp_all add: streamInv_alt)
  from closed_exit exitFrame_front [OF closed_exit(5) s(1)] s(2) show ?thesis
    by (cases r) (simp_all add: streamInv_alt returnWith_def exitResult_def)
next
  case (process_exit st r w)
  with i have s: "written (connection s) = start @ outStream (sent s)" "produced s = concat (sent s)"
    by (simp_all add: streamInv_alt)
  from process_exit exitFrame_front [OF process_exit(5) s(1)] s(2) show ?thesis
    by (cases r) (simp_all add: streamInv_alt returnWith_def exitResult_def)
next
  case (input_seen e)
  with i show ?thesis by (cases "processOpen s") (simp_all add: streamInv_alt frontOf_whole)
next
  case (reads bs failed)
  with i show ?thesis by (auto simp: streamInv_alt split: mainPc.splits option.splits)
next
  case (gives_up bs failed)
  with i show ?thesis by (auto simp: streamInv_alt split: mainPc.splits option.splits)
next
  case (chunk_ok bs failed w)
  with i show ?thesis by (simp add: streamInv_alt writeFrame_data_ok)
next
  case (reaped st e)
  with i show ?thesis by (auto simp: streamInv_alt returnWith_def)
qed (use i in \<open>auto simp: streamInv_alt split: mainPc.splits option.splits\<close>)

interpretation sessionSys: transition_system "sessionStarts conn" sessionStep "sessionInv conn"
  for conn
proof
  fix s t
  show "sessionStarts conn s \<Longrightarrow> sessionInv conn s" by (rule startSession_inv)
  assume i: "sessionInv conn s" and "sessionStep s t"
  then obtain m where m: "sessionMove m s = Some t" by auto
  note parts = i [unfolded sessionInv_def, THEN conjunct1]
    i [unfolded sessionInv_def, THEN conjunct2, THEN conjunct1]
    i [unfolded sessionInv_def, THEN conjunct2, THEN conjunct2, THEN conjunct1]
    i [unfolded sessionInv_def, THEN conjunct2, THEN conjunct2, THEN conjunct2]
  show "sessionInv conn t"
    unfolding sessionInv_def
    by (intro conjI processInv_step [OF m parts(1,3)] signalInv_step [OF m parts(2,1)]
        outputInv_step [OF m parts(3,1)] streamInv_step [OF m parts(4,3,1)])
qed

lemmas reachable_inv = sessionSys.inv_reachable [unfolded sessionInv_def]

lemma decode_session:
  assumes "list_all (\<lambda>c. length c \<le> FramePayloadLimit) cs"
  shows "decodeMany decodeFrame (Suc (length cs)) (outStream cs @ encodeFrame (exitFrame st))
    = Some (map dataFrame cs @ [exitFrame st], [])"
proof -
  have "list_all frameOk (map dataFrame cs @ [exitFrame st])"
    using assms by (simp add: list_all_iff frameOk_def dataFrame_def exitFrame_def FramePayloadLimit_def)
  from frames.decode_stream [OF this, of "[]"] show ?thesis
    by (simp add: outStream_def comp_def del: decodeMany.simps)
qed

section \<open>The input side\<close>

text \<open>The frames a peer may send, and what a sequence of them does to the terminal.\<close>

definition resizeOf :: "byte list \<Rightarrow> 16 word \<times> 16 word" where
  "resizeOf p = (getUint16 (p ! 0) (p ! 1), getUint16 (p ! 2) (p ! 3))"

definition inputFrameOk :: "frame \<Rightarrow> bool" where
  "inputFrameOk f \<longleftrightarrow> frameOk f \<and>
     (ftype f = FrameData \<or>
      (ftype f = FrameResize \<and> length (payload f) = 4
         \<and> fst (resizeOf (payload f)) \<noteq> 0 \<and> snd (resizeOf (payload f)) \<noteq> 0))"

definition typedBy :: "frame list \<Rightarrow> byte list" where
  "typedBy fs = concat (map payload (filter (\<lambda>f. ftype f = FrameData) fs))"

definition sizeAfter :: "16 word \<times> 16 word \<Rightarrow> frame list \<Rightarrow> 16 word \<times> 16 word" where
  "sizeAfter sz fs = last (sz # map (\<lambda>f. resizeOf (payload f)) (filter (\<lambda>f. ftype f = FrameResize) fs))"

definition terminalAfter :: "terminal \<Rightarrow> frame list \<Rightarrow> terminal" where
  "terminalAfter t fs =
     t\<lparr>typed := advance (typedBy fs) (typed t), winsize := sizeAfter (winsize t) fs\<rparr>"

lemma readFrame_encoded:
  assumes "frameOk f"
  shows "readFrame \<lparr>unread = encodeFrame f @ rest, ends = e\<rparr> = (Inr f, \<lparr>unread = rest, ends = e\<rparr>)"
proof -
  have l: "length (payload f) \<le> FramePayloadLimit" using assms by (simp add: frameOk_def)
  show ?thesis
    by (subst readFrame_header [where t = "ftype f" and v = "word_of_nat (length (payload f))"
          and rest = "payload f @ rest"])
      (use l in \<open>simp_all add: encodeFrame_def length_word\<close>)
qed

lemma applyFrame_ok:
  assumes "inputFrameOk f" and "room (typed t) = None" and "resizable t"
  shows "applyFrame f t = (Inr (), terminalAfter t [f])"
  using assms
  by (cases t; cases "typed t")
    (auto simp: inputFrameOk_def applyFrame_def terminalWrite_def writeBytes_def terminalAfter_def
      typedBy_def sizeAfter_def advance_def setsize_def resizeOf_def FrameData_def FrameResize_def Let_def)

lemma applyFrame_bad:
  assumes "frameOk f" and "\<not> inputFrameOk f"
  shows "applyFrame f t = (Inl (ErrPeer errInvalidFrame), t)"
  using assms
  by (auto simp: inputFrameOk_def applyFrame_def resizeOf_def Let_def failWith_def peerError_def)

lemma terminalAfter_Cons: "terminalAfter (terminalAfter t [f]) fs = terminalAfter t (f # fs)"
  by (simp add: terminalAfter_def typedBy_def sizeAfter_def)

lemma readInput_frames:
  assumes "list_all inputFrameOk fs" and "room (typed t) = None" and "resizable t"
  shows "readInput (\<lparr>unread = concat (map encodeFrame fs) @ tail, ends = e\<rparr>, t)
    = readInput (\<lparr>unread = tail, ends = e\<rparr>, terminalAfter t fs)"
  using assms
proof (induction fs arbitrary: t)
  case Nil
  then show ?case by (cases t; cases "typed t") (simp add: terminalAfter_def typedBy_def sizeAfter_def advance_def)
next
  case (Cons f fs)
  then have f: "frameOk f" "applyFrame f t = (Inr (), terminalAfter t [f])"
    by (simp_all add: applyFrame_ok inputFrameOk_def)
  have "readInput (\<lparr>unread = concat (map encodeFrame (f # fs)) @ tail, ends = e\<rparr>, t)
      = readInput (\<lparr>unread = concat (map encodeFrame fs) @ tail, ends = e\<rparr>, terminalAfter t [f])"
    by (subst readInput.simps) (simp add: readInputStep_def readFrame_encoded [OF f(1)] f(2))
  also have "\<dots> = readInput (\<lparr>unread = tail, ends = e\<rparr>, terminalAfter t (f # fs))"
    using Cons.prems by (subst Cons.IH) (simp_all add: terminalAfter_Cons, simp_all add: terminalAfter_def advance_def)
  finally show ?case .
qed

section \<open>Properties\<close>

text \<open>C1: When a session ends by itself, the peer has received everything: for every interleaving
  of the process, the terminal, the peer's input and the clock, the bytes written since the session
  began decode as data frames that hold the whole output of the terminal in order, then one exit
  frame with the status the process ended with, and nothing after it; and no signal was sent.\<close>

theorem session_delivers:
  assumes "reachable (sessionStarts conn) sessionStep s" and "mainAt s = Returned None"
  shows "\<exists>chunks st. process s = Exited st \<and> produced s = concat chunks \<and> signals s = [] \<and>
    decodeMany decodeFrame (Suc (length chunks)) (drop (length (written conn)) (written (connection s)))
      = Some (map dataFrame chunks @ [exitFrame st], [])"
proof (intro exI conjI)
  note inv = reachable_inv [OF assms(1)]
  from inv assms(2) show "process s = Exited (status s)" "produced s = concat (sent s)" "signals s = []"
    by (auto simp: streamInv_def split: proc.splits if_splits)
  have "list_all (\<lambda>c. length c \<le> FramePayloadLimit) (sent s)" using inv by simp
  from decode_session [OF this, of "status s"]
  show "decodeMany decodeFrame (Suc (length (sent s)))
      (drop (length (written conn)) (written (connection s)))
      = Some (map dataFrame (sent s) @ [exitFrame (status s)], [])"
    using inv assms(2) by (simp add: streamInv_def del: decodeMany.simps)
qed

theorem session_delivers_witness:
  "\<exists>s :: session. mainAt s = Returned None \<and> produced s = [104, 105] \<and> process s = Exited 7 \<and>
     (\<exists>chunks st. process s = Exited st \<and> produced s = concat chunks \<and> signals s = [] \<and>
        decodeMany decodeFrame (Suc (length chunks)) (drop (length [1, 2, 3 :: byte]) (written (connection s)))
          = Some (map dataFrame chunks @ [exitFrame st], []))"
proof -
  let ?conn = "\<lparr>written = [1, 2, 3], room = None\<rparr>"
  let ?s0 = "startSession ?conn \<lparr>unread = [], ends = EOF\<rparr>
    \<lparr>typed = \<lparr>written = [], room = None\<rparr>, winsize = (80, 24), resizable = True\<rparr>"
  let ?ms = "[TerminalRead [104] False, ProcessExits (Some (ExitError (Some 0x700))), SelectOutput,
    SelectProcess, TerminalRead [105] True, SelectOutput, SelectOutput]"
  have "runMoves sessionMove ?ms ?s0 \<noteq> None \<and> (\<forall>s. runMoves sessionMove ?ms ?s0 = Some s \<longrightarrow>
      mainAt s = Returned None \<and> produced s = [104, 105] \<and> process s = Exited 7)"
    by (simp add: startSession_def FramePayloadLimit_def session_defs Let_def writeFrame_def
        attempt_def wrapErr_def writeBytes_def exitStatus_def wsSignaled_def wsExitStatus_def
        wsExited_def drop_bit_eq_div)
  then obtain s where s: "runMoves sessionMove ?ms ?s0 = Some s" "mainAt s = Returned None"
    "produced s = [104, 105]" "process s = Exited 7" by blast
  have "reachable (sessionStarts ?conn) sessionStep s"
    by (rule runMoves_reachable [OF reach_init s(1)]) (auto simp: sessionStarts_def)
  from session_delivers [OF this s(2)] s(2-4) show ?thesis unfolding writer.select_convs by blast
qed

text \<open>C7: \<open>Run\<close> never leaves a process behind: whenever it has returned, for whatever reason,
  the process has ended and has been waited for. It kills only a process group it has asked to hang
  up before, it signals no process that it knows has ended, and an output reader that still holds a
  chunk is free to stop.\<close>

theorem session_reaps:
  assumes "reachable (sessionStarts conn) sessionStep s" and "mainAt s = Returned e"
  shows "process s \<noteq> Running \<and> signals s \<in> {[], [SIGHUP], [SIGHUP, SIGKILL]} \<and>
    (\<not> processOpen s \<longrightarrow> signals s = []) \<and>
    (\<forall>bs failed. reading s = Offering bs failed \<longrightarrow> sessionMove ReaderGivesUp s \<noteq> None)"
  using reachable_inv [OF assms(1)] assms(2)
  by (auto split: proc.splits option.splits if_splits)

theorem session_reaps_witness:
  "\<exists>s :: session. mainAt s = Returned (Some (ErrPeer (PeerFrame (FrameIO EOF)))) \<and> signals s = [SIGHUP, SIGKILL]
     \<and> process s \<noteq> Running"
proof -
  let ?conn = "\<lparr>written = [], room = None\<rparr>"
  let ?s0 = "startSession ?conn \<lparr>unread = [], ends = EOF\<rparr>
    \<lparr>typed = \<lparr>written = [], room = None\<rparr>, winsize = (80, 24), resizable = True\<rparr>"
  let ?ms = "[InputTurn, SelectInput, GraceOver, ProcessExits (Some (ExitError (Some 9))), TerminateSees]"
  have "readInputStep (\<lparr>unread = [], ends = EOF\<rparr>, t)
      = (Some (ErrPeer (PeerFrame (FrameIO EOF))), \<lparr>unread = [], ends = EOF\<rparr>, t)" for t
    by (simp add: readInputStep_def readFrame_no_header peerError_def)
  then have "runMoves sessionMove ?ms ?s0 \<noteq> None \<and> (\<forall>s. runMoves sessionMove ?ms ?s0 = Some s \<longrightarrow>
      mainAt s = Returned (Some (ErrPeer (PeerFrame (FrameIO EOF)))) \<and> signals s = [SIGHUP, SIGKILL])"
    by (simp add: startSession_def session_defs)
  then obtain s where s: "runMoves sessionMove ?ms ?s0 = Some s"
    "mainAt s = Returned (Some (ErrPeer (PeerFrame (FrameIO EOF))))" "signals s = [SIGHUP, SIGKILL]"
    by blast
  have "reachable (sessionStarts ?conn) sessionStep s"
    by (rule runMoves_reachable [OF reach_init s(1)]) (auto simp: sessionStarts_def)
  from session_reaps [OF this s(2)] s(2,3) show ?thesis by blast
qed

text \<open>What is left to do for \<open>Run\<close> once the process has ended.\<close>

lemma writeExit_returns: "\<exists>e. mainAt (writeExit s) = Returned e"
  by (auto simp: writeExit_def returnWith_def split: prod.split sum.split)

lemma ending_returns:
  assumes "mainAt s = Selecting \<Longrightarrow> False"
    and "\<And>e. mainAt s = Terminating e \<or> mainAt s = Reaping e \<Longrightarrow> processCh s \<noteq> None"
  shows "finishes sessionMove {SelectInput, SelectOutput, SelectProcess, TerminateSees} 1 (\<lambda>t. \<exists>e. mainAt t = Returned e) s"
proof (cases "\<exists>e. mainAt s = Returned e")
  case True
  then show ?thesis by (rule finishes_now)
next
  case False
  with assms obtain e st where "mainAt s = Terminating e \<or> mainAt s = Reaping e" "processCh s = Some st"
    by (cases "mainAt s") auto
  then obtain t where t: "sessionMove TerminateSees s = Some t" "mainAt t = Returned (Some e)"
    by (auto simp: returnWith_def)
  show ?thesis by (rule finishes_last [of sessionMove, OF t(1)]) (use t(2) in simp_all)
qed

lemma process_returns:
  assumes "mainAt s = Selecting" and "processOpen s" and "processCh s = Some st" and "\<not> outputOpen s"
  shows "finishes sessionMove {SelectInput, SelectOutput, SelectProcess, TerminateSees} 1 (\<lambda>t. \<exists>e. mainAt t = Returned e) s"
proof (rule finishes_last)
  show "sessionMove SelectProcess s = Some (writeExit (s\<lparr>processCh := None, status := st, processOpen := False\<rparr>))"
    using assms by (simp add: onProcessDone_def)
qed (simp_all add: writeExit_returns)

lemma selecting_returns:
  assumes "mainAt s = Selecting" and "processOpen s \<Longrightarrow> processCh s = Some st" and "outputOpen s \<or> processOpen s"
    and "reading s = ReaderDone \<or> inputCh s \<noteq> None"
  shows "finishes sessionMove {SelectInput, SelectOutput, SelectProcess, TerminateSees} 2 (\<lambda>t. \<exists>e. mainAt t = Returned e) s"
proof (cases "inputCh s")
  case (Some e)
  with assms(1,2) have "finishes sessionMove {SelectInput, SelectOutput, SelectProcess, TerminateSees} 1
      (\<lambda>t. \<exists>e. mainAt t = Returned e) (onInputDone e (s\<lparr>inputCh := None\<rparr>))"
    by (intro ending_returns) (auto simp: onInputDone_def endWith_def returnWith_def split: if_splits)
  with Some assms(1) show ?thesis
    by (intro finishes_two [where m = SelectInput]) auto
next
  case None
  show ?thesis
  proof (cases "outputOpen s")
    case True
    have "finishes sessionMove {SelectInput, SelectOutput, SelectProcess, TerminateSees} 1
        (\<lambda>t. \<exists>e. mainAt t = Returned e) (onOutputClosed s)"
      using assms(1,2) writeExit_returns
      by (cases "processOpen s")
        (auto simp: onOutputClosed_def Let_def intro: process_returns [unfolded One_nat_def] finishes_now)
    with True None assms(1,4) show ?thesis
      by (intro finishes_two [where m = SelectOutput]) auto
  next
    case False
    with assms process_returns [of s st] show ?thesis by (auto intro: finishes_mono)
  qed
qed

text \<open>With the process still running or output still to come, the process may end and the terminal be drained.\<close>

abbreviation (input) runReturns :: "nat \<Rightarrow> session \<Rightarrow> bool" where
  "runReturns n \<equiv> finishes sessionMove UNIV n (\<lambda>t. \<exists>e. mainAt t = Returned e)"

lemma exited_returns:
  assumes "sessionInv conn s" and "process s = Exited st" and "reading s = ReaderDone \<or> inputCh s \<noteq> None \<or> mainAt s \<noteq> Selecting"
  shows "finishes sessionMove {SelectInput, SelectOutput, SelectProcess, TerminateSees} 2 (\<lambda>t. \<exists>e. mainAt t = Returned e) s"
proof (cases "mainAt s = Selecting")
  case True
  then show ?thesis
    by (rule selecting_returns) (use assms True in \<open>auto simp: sessionInv_def split: if_splits\<close>)
next
  case False
  then have "finishes sessionMove {SelectInput, SelectOutput, SelectProcess, TerminateSees} 1 (\<lambda>t. \<exists>e. mainAt t = Returned e) s"
    by (intro ending_returns) (use assms(1,2) in \<open>auto simp: sessionInv_def split: if_splits\<close>)
  then show ?thesis by (rule finishes_mono) simp
qed

lemma runReturns_step: "sessionMove m s = Some u \<Longrightarrow> runReturns n u \<Longrightarrow> runReturns (Suc n) s"
  by (rule finishes_move [of sessionMove]) simp_all

lemma finishes_kinds: "finishes perform kinds n goal s \<Longrightarrow> finishes perform UNIV n goal s"
  unfolding finishes_def by blast

lemma session_inv_move: "sessionInv conn s \<Longrightarrow> sessionMove m s = Some t \<Longrightarrow> sessionInv conn t"
  using sessionSys.inv_step [OF _ moved] by blast

lemma drained_returns:
  assumes "sessionInv conn s" and "process s = Exited st" and "\<And>bs failed. reading s \<noteq> Offering bs failed"
  shows "runReturns 3 s"
proof (cases "reading s = ReaderDone")
  case True
  with finishes_kinds [OF exited_returns [OF assms(1,2)]] show ?thesis by (auto intro: finishes_mono)
next
  case False
  with assms(3) have "reading s = ReaderIdle" by (cases "reading s") auto
  then obtain u where u: "sessionMove (TerminalRead [] True) s = Some u" "reading u = ReaderDone" "process u = process s"
    by simp
  from finishes_kinds [OF exited_returns [OF session_inv_move [OF assms(1) u(1)]]] u assms(2) have "runReturns 2 u" by auto
  from runReturns_step [OF u(1) this] show ?thesis by (simp add: numeral_3_eq_3 numeral_2_eq_2)
qed

lemma offering_returns:
  assumes "sessionInv conn s" and "process s = Exited st"
  shows "runReturns 4 s"
proof (cases "mainAt s = Selecting \<and> (\<exists>bs failed. reading s = Offering bs failed)")
  case True
  then obtain bs failed where r: "mainAt s = Selecting" "reading s = Offering bs failed" by blast
  moreover from this assms(1) have "outputOpen s" by (simp add: sessionInv_def)
  ultimately obtain u where u: "sessionMove SelectOutput s = Some u" "reading u = afterOffer failed" "process u = process s"
    by (auto simp: onChunk_def endWith_def returnWith_def split: prod.splits sum.splits)
  have "runReturns 3 u"
    by (rule drained_returns [OF session_inv_move [OF assms(1) u(1)]]) (use u assms(2) in \<open>auto split: if_splits\<close>)
  from runReturns_step [OF u(1) this] show ?thesis by simp
next
  case False
  show ?thesis
  proof (cases "mainAt s = Selecting")
    case True
    with False drained_returns [OF assms] show ?thesis by (auto intro: finishes_mono)
  next
    case False
    with finishes_kinds [OF exited_returns [OF assms]] show ?thesis by (auto intro: finishes_mono)
  qed
qed

lemma session_can_return:
  assumes "sessionInv conn s"
  shows "runReturns 5 s"
proof (cases "process s")
  case Running
  then obtain u where u: "sessionMove (ProcessExits None) s = Some u" "process u = Exited (exitStatus None)" by simp
  from runReturns_step [OF u(1) offering_returns [OF session_inv_move [OF assms u(1)] u(2)]] show ?thesis by simp
next
  case (Exited st)
  with offering_returns [OF assms] show ?thesis by (auto intro: finishes_mono)
qed

text \<open>C15: \<open>Run\<close> can always return. From every reachable state at most five moves lead to a return, if the process
  ends and the terminal is drained; and once the process has ended, and the terminal is drained or the peer's
  input has ended or the session is already being torn down, at most two of \<open>Run\<close>'s own moves do; no move of
  the peer, the terminal or the clock is then needed.\<close>

theorem session_returns:
  assumes "reachable (sessionStarts conn) sessionStep s"
  shows "(\<exists>ms t e. length ms \<le> 5 \<and> runMoves sessionMove ms s = Some t \<and> mainAt t = Returned e) \<and>
    (\<forall>st. process s = Exited st \<and> (reading s = ReaderDone \<or> inputCh s \<noteq> None \<or> mainAt s \<noteq> Selecting) \<longrightarrow>
      (\<exists>ms t e. set ms \<subseteq> {SelectInput, SelectOutput, SelectProcess, TerminateSees} \<and> length ms \<le> 2
        \<and> runMoves sessionMove ms s = Some t \<and> mainAt t = Returned e))"
proof -
  note inv = sessionSys.inv_reachable [OF assms]
  from session_can_return [OF inv] exited_returns [OF inv] show ?thesis unfolding finishes_def by meson
qed

theorem session_returns_witness:
  "\<exists>s :: session. process s = Exited 0 \<and> reading s = ReaderDone \<and> mainAt s = Selecting \<and>
    (\<exists>ms t e. set ms \<subseteq> {SelectInput, SelectOutput, SelectProcess, TerminateSees} \<and> length ms \<le> 2
      \<and> runMoves sessionMove ms s = Some t \<and> mainAt t = Returned e)"
proof -
  let ?conn = "\<lparr>written = [], room = None\<rparr>"
  let ?s0 = "startSession ?conn \<lparr>unread = [], ends = EOF\<rparr>
    \<lparr>typed = \<lparr>written = [], room = None\<rparr>, winsize = (80, 24), resizable = True\<rparr>"
  let ?ms = "[ProcessExits None, TerminalRead [] True]"
  have "runMoves sessionMove ?ms ?s0 \<noteq> None \<and> (\<forall>s. runMoves sessionMove ?ms ?s0 = Some s \<longrightarrow>
      process s = Exited 0 \<and> reading s = ReaderDone \<and> mainAt s = Selecting)"
    by (simp add: startSession_def exitStatus_def FramePayloadLimit_def)
  then obtain s where s: "runMoves sessionMove ?ms ?s0 = Some s" "process s = Exited 0" "reading s = ReaderDone"
    "mainAt s = Selecting" by blast
  have "reachable (sessionStarts ?conn) sessionStep s"
    by (rule runMoves_reachable [OF reach_init s(1)]) (auto simp: sessionStarts_def)
  from session_returns [OF this] s show ?thesis by blast
qed

text \<open>C13: At every moment of every session, ended or not, what the peer has received is a front of
  a well-formed frame stream: whole data frames within the limit, then at most one frame more, a
  data frame or the exit frame, whole or cut short by the failure of the connection. While \<open>Run\<close> is in its
  \<open>select\<close> there is no such frame yet; when it has returned without an error it is the exit frame, whole.\<close>

theorem session_stream_wellformed:
  assumes "reachable (sessionStarts conn) sessionStep s"
  shows "\<exists>chunks part rest f. written (connection s) = written conn @ outStream chunks @ part
    \<and> encodeFrame f = part @ rest \<and> list_all frameOk (f # map dataFrame chunks)
    \<and> (ftype f = FrameData \<or> f = exitFrame (status s))
    \<and> (mainAt s = Selecting \<longrightarrow> part = [])
    \<and> (mainAt s = Returned None \<longrightarrow> f = exitFrame (status s) \<and> rest = [])"
proof -
  note inv = reachable_inv [OF assms]
  have ok: "list_all frameOk (map dataFrame (sent s))" "frameOk (exitFrame (status s))"
    using inv by (auto simp: list_all_iff frameOk_def dataFrame_def exitFrame_def FramePayloadLimit_def)
  have "\<exists>part rest f. written (connection s) = written conn @ outStream (sent s) @ part \<and> encodeFrame f = part @ rest \<and>
      (f = exitFrame (status s) \<or> (\<exists>c. f = dataFrame c \<and> length c \<le> FramePayloadLimit)) \<and>
      (mainAt s = Selecting \<longrightarrow> part = []) \<and> (mainAt s = Returned None \<longrightarrow> f = exitFrame (status s) \<and> rest = [])"
  proof (cases "mainAt s = Selecting \<or> mainAt s = Returned None")
    case True
    with inv show ?thesis
      by (auto simp: streamInv_alt intro: exI [of _ "[]"] exI [of _ "encodeFrame (exitFrame (status s))"] exI [of _ "exitFrame (status s)"])
  next
    case False
    with inv have "frontOf (written conn) (status s) (sent s) (written (connection s))"
      by (auto simp: streamInv_alt split: mainPc.splits option.splits)
    with False show ?thesis unfolding frontOf_def by blast
  qed
  with ok show ?thesis by (fastforce simp: frameOk_def dataFrame_def)
qed

theorem session_stream_wellformed_witness:
  "\<exists>s chunks part rest f. reachable (sessionStarts \<lparr>written = [], room = Some 8\<rparr>) sessionStep s
    \<and> written (connection s) = [0, 0, 0, 0, 1, 104, 0, 0] \<and> written (connection s) = outStream chunks @ part
    \<and> encodeFrame f = part @ rest \<and> list_all frameOk (f # map dataFrame chunks)
    \<and> (ftype f = FrameData \<or> f = exitFrame (status s))"
proof -
  let ?conn = "\<lparr>written = [], room = Some 8\<rparr>"
  let ?s0 = "startSession ?conn \<lparr>unread = [], ends = EOF\<rparr>
    \<lparr>typed = \<lparr>written = [], room = None\<rparr>, winsize = (80, 24), resizable = True\<rparr>"
  let ?ms = "[TerminalRead [104] False, SelectOutput, TerminalRead [105] False, SelectOutput]"
  have "runMoves sessionMove ?ms ?s0 \<noteq> None \<and> (\<forall>s. runMoves sessionMove ?ms ?s0 = Some s \<longrightarrow>
      written (connection s) = [0, 0, 0, 0, 1, 104, 0, 0])"
    by (simp add: startSession_def FramePayloadLimit_def session_defs Let_def writeFrame_def
        attempt_def wrapErr_def writeBytes_def FrameData_def putUint32_def drop_bit_eq_div)
  then obtain s where s: "runMoves sessionMove ?ms ?s0 = Some s"
    "written (connection s) = [0, 0, 0, 0, 1, 104, 0, 0]" by blast
  have r: "reachable (sessionStarts ?conn) sessionStep s"
    by (rule runMoves_reachable [OF reach_init s(1)]) (auto simp: sessionStarts_def)
  from session_stream_wellformed [OF r] obtain chunks part rest f where
    "written (connection s) = outStream chunks @ part" "encodeFrame f = part @ rest"
    "list_all frameOk (f # map dataFrame chunks)" "ftype f = FrameData \<or> f = exitFrame (status s)"
    unfolding writer.select_convs append_Nil by blast
  with r s(2) show ?thesis by blast
qed

text \<open>C25: The terminal receives exactly what the peer sent: after any sequence of data and resize
  frames, it holds the payloads of the data frames in order and has the size of the last resize. An
  end of the connection after them is a peer error; so is a frame of another type, a resize of
  another length or to a zero size, which changes nothing and is the last frame taken.\<close>

theorem session_input:
  assumes "list_all inputFrameOk fs" and "room (typed t) = None" and "resizable t"
    and "frameOk bad" and "\<not> inputFrameOk bad"
  shows "readInput (\<lparr>unread = concat (map encodeFrame fs), ends = EOF\<rparr>, t)
      = (ErrPeer (PeerFrame (FrameIO EOF)), \<lparr>unread = [], ends = EOF\<rparr>, terminalAfter t fs)
    \<and> readInput (\<lparr>unread = concat (map encodeFrame fs) @ encodeFrame bad @ rest, ends = e\<rparr>, t)
      = (ErrPeer errInvalidFrame, \<lparr>unread = rest, ends = e\<rparr>, terminalAfter t fs)"
proof
  show "readInput (\<lparr>unread = concat (map encodeFrame fs), ends = EOF\<rparr>, t)
      = (ErrPeer (PeerFrame (FrameIO EOF)), \<lparr>unread = [], ends = EOF\<rparr>, terminalAfter t fs)"
    using readInput_frames [OF assms(1-3), of "[]" EOF]
    by (subst (asm) (2) readInput.simps)
      (simp add: readInputStep_def readFrame_no_header peerError_def)
  show "readInput (\<lparr>unread = concat (map encodeFrame fs) @ encodeFrame bad @ rest, ends = e\<rparr>, t)
      = (ErrPeer errInvalidFrame, \<lparr>unread = rest, ends = e\<rparr>, terminalAfter t fs)"
    unfolding readInput_frames [OF assms(1-3)]
    by (subst readInput.simps)
      (simp add: readInputStep_def readFrame_encoded [OF assms(4)] applyFrame_bad [OF assms(4,5)])
qed

theorem session_input_witness:
  "terminalAfter \<lparr>typed = \<lparr>written = [9], room = None\<rparr>, winsize = (80, 24), resizable = True\<rparr>
      [dataFrame [1, 2], \<lparr>ftype = FrameResize, payload = [0, 100, 0, 30]\<rparr>, dataFrame [3]]
    = \<lparr>typed = \<lparr>written = [9, 1, 2, 3], room = None\<rparr>, winsize = (100, 30), resizable = True\<rparr>
   \<and> fst (readInput (\<lparr>unread = concat (map encodeFrame
        [dataFrame [1, 2], \<lparr>ftype = FrameResize, payload = [0, 100, 0, 30]\<rparr>, dataFrame [3]])
        @ encodeFrame \<lparr>ftype = FrameResize, payload = [0, 0, 0, 30]\<rparr> @ [5], ends = EOF\<rparr>,
      \<lparr>typed = \<lparr>written = [9], room = None\<rparr>, winsize = (80, 24), resizable = True\<rparr>))
    = ErrPeer errInvalidFrame"
proof
  let ?fs = "[dataFrame [1, 2], \<lparr>ftype = FrameResize, payload = [0, 100, 0, 30]\<rparr>, dataFrame [3]]"
  let ?bad = "\<lparr>ftype = FrameResize, payload = [0, 0, 0, 30]\<rparr>"
  let ?t = "\<lparr>typed = \<lparr>written = [9], room = None\<rparr>, winsize = (80, 24), resizable = True\<rparr>"
  show "terminalAfter ?t ?fs
    = \<lparr>typed = \<lparr>written = [9, 1, 2, 3], room = None\<rparr>, winsize = (100, 30), resizable = True\<rparr>"
    by (simp add: terminalAfter_def typedBy_def sizeAfter_def resizeOf_def getUint16_def advance_def
        dataFrame_def FrameData_def FrameResize_def)
  have "list_all inputFrameOk ?fs" "frameOk ?bad" "\<not> inputFrameOk ?bad"
    by (simp_all add: inputFrameOk_def frameOk_def dataFrame_def resizeOf_def getUint16_def
        FramePayloadLimit_def FrameData_def FrameResize_def)
  from session_input [OF this(1) _ _ this(2,3), of ?t "[5]" EOF]
  show "fst (readInput (\<lparr>unread = concat (map encodeFrame ?fs) @ encodeFrame ?bad @ [5], ends = EOF\<rparr>, ?t))
    = ErrPeer errInvalidFrame" by simp
qed

end
