(* ===== verification/Agent_Relay.thy ===== *)
theory Agent_Relay
  imports Agent_Request
begin

text \<open>
  The port relay of \<open>agent/portrelay/relay.go\<close>: two copying goroutines, the channel \<open>done\<close>
  they report on, and the main line of \<open>Relay\<close>, which waits for the first report, closes both
  connections and waits for the second. The moves are the relation \<open>relayStep\<close>; which goroutine
  moves next, and how many bytes a read returns, is left open.
\<close>

section \<open>The code\<close>

definition connectAddress :: "16 word \<Rightarrow> string" where
  "connectAddress port = ''127.0.0.1:'' @ showNat (unat port)"

datatype direction = ToService | ToPeer

datatype relayPc = WaitFirst | ClosePeer | CloseService | WaitSecond | RelayReturned

text \<open>One copying goroutine: what it reads from, what it writes to, the bytes it has read and not yet written,
  whether it still copies. The last field records whether a write failed. Bytes that the peer's input
  has already in its buffer count as read as soon as the goroutine could have taken them.\<close>

record copier =
  source :: reader
  sink :: writer
  inFlight :: "byte list"
  copying :: bool
  lostWrite :: bool

record relay =
  toService :: copier
  toPeer :: copier
  doneCh :: nat
  relayAt :: relayPc
  peerClosed :: bool
  serviceClosed :: bool

text \<open>The two halves of a round of \<open>io.Copy\<close>: a read of at most \<open>n\<close> bytes and the write of what was read. A
  closed connection fails both; a source without bytes is at its end.\<close>

definition copyRead :: "nat \<Rightarrow> bool \<Rightarrow> copier \<Rightarrow> copier" where
  "copyRead n sourceClosed c =
     (if sourceClosed \<or> unread (source c) = [] then c\<lparr>copying := False\<rparr>
      else c\<lparr>inFlight := take n (unread (source c)),
             source := (source c)\<lparr>unread := drop n (unread (source c))\<rparr>\<rparr>)"

definition copyWrite :: "bool \<Rightarrow> copier \<Rightarrow> copier" where
  "copyWrite sinkClosed c =
     (if sinkClosed then c\<lparr>inFlight := [], copying := False, lostWrite := True\<rparr>
      else case writeBytes (inFlight c) (sink c) of
        (Inl _, w) \<Rightarrow> c\<lparr>inFlight := [], sink := w, copying := False, lostWrite := True\<rparr>
      | (Inr _, w) \<Rightarrow> c\<lparr>inFlight := [], sink := w\<rparr>)"

definition copyTurn :: "nat \<Rightarrow> bool \<Rightarrow> bool \<Rightarrow> copier \<Rightarrow> copier" where
  "copyTurn n sourceClosed sinkClosed c =
     (if inFlight c = [] then copyRead n sourceClosed c else copyWrite sinkClosed c)"

text \<open>A goroutine whose copy has ended sends on \<open>done\<close>, which has room for both.\<close>

definition report :: "copier \<Rightarrow> relay \<Rightarrow> relay" where
  "report c s = (if copying c then s else s\<lparr>doneCh := Suc (doneCh s)\<rparr>)"

datatype relayMove = Turn direction nat | WaitDone | CloseNext

fun relayMoveTo :: "relayMove \<Rightarrow> relay \<Rightarrow> relay option" where
  "relayMoveTo (Turn ToService n) s =
     (if copying (toService s) \<and> 0 < n
      then let c = copyTurn n (peerClosed s) (serviceClosed s) (toService s) in Some (report c (s\<lparr>toService := c\<rparr>))
      else None)"
| "relayMoveTo (Turn ToPeer n) s =
     (if copying (toPeer s) \<and> 0 < n
      then let c = copyTurn n (serviceClosed s) (peerClosed s) (toPeer s) in Some (report c (s\<lparr>toPeer := c\<rparr>))
      else None)"
| "relayMoveTo WaitDone s =
     (case doneCh s of
        0 \<Rightarrow> None
      | Suc k \<Rightarrow>
          (case relayAt s of
             WaitFirst \<Rightarrow> Some (s\<lparr>doneCh := k, relayAt := ClosePeer\<rparr>)
           | WaitSecond \<Rightarrow> Some (s\<lparr>doneCh := k, relayAt := RelayReturned\<rparr>)
           | _ \<Rightarrow> None))"
| "relayMoveTo CloseNext s =
     (case relayAt s of
        ClosePeer \<Rightarrow> Some (s\<lparr>peerClosed := True, relayAt := CloseService\<rparr>)
      | CloseService \<Rightarrow> Some (s\<lparr>serviceClosed := True, relayAt := WaitSecond\<rparr>)
      | _ \<Rightarrow> None)"

abbreviation relayStep :: "relay \<Rightarrow> relay \<Rightarrow> bool" where
  "relayStep \<equiv> moves relayMoveTo"

text \<open>\<open>Relay\<close> starts with the unread input of the peer and the two connections.\<close>

definition startRelay :: "reader \<Rightarrow> writer \<Rightarrow> reader \<Rightarrow> writer \<Rightarrow> relay" where
  "startRelay peerInput peer serviceInput service =
     \<lparr>toService = \<lparr>source = peerInput, sink = service, inFlight = [], copying = True, lostWrite = False\<rparr>,
      toPeer = \<lparr>source = serviceInput, sink = peer, inFlight = [], copying = True, lostWrite = False\<rparr>,
      doneCh = 0, relayAt = WaitFirst, peerClosed = False, serviceClosed = False\<rparr>"

section \<open>Invariant\<close>

definition running :: "copier \<Rightarrow> nat" where
  "running c = (if copying c then 1 else 0)"

fun taken :: "relayPc \<Rightarrow> nat" where
  "taken WaitFirst = 0" | "taken ClosePeer = 1" | "taken CloseService = 1" | "taken WaitSecond = 1" | "taken RelayReturned = 2"

text \<open>What one direction has done to the bytes it was given.\<close>

definition copierInv :: "bool \<Rightarrow> byte list \<Rightarrow> byte list \<Rightarrow> copier \<Rightarrow> bool" where
  "copierInv sourceClosed input start c \<longleftrightarrow>
     (\<exists>sentBytes lost.
        written (sink c) = start @ sentBytes \<and> input = sentBytes @ lost @ inFlight c @ unread (source c) \<and>
        (\<not> lostWrite c \<longrightarrow> lost = [] \<and> (copying c \<or> sourceClosed \<or> unread (source c) = [])) \<and>
        (lostWrite c \<longrightarrow> \<not> copying c) \<and> (\<not> copying c \<longrightarrow> inFlight c = []))"

definition relayInv :: "relay \<Rightarrow> relay \<Rightarrow> bool" where
  "relayInv s0 s \<longleftrightarrow>
     copierInv (peerClosed s) (unread (source (toService s0))) (written (sink (toService s0))) (toService s) \<and>
     copierInv (serviceClosed s) (unread (source (toPeer s0))) (written (sink (toPeer s0))) (toPeer s) \<and>
     doneCh s + running (toService s) + running (toPeer s) + taken (relayAt s) = 2 \<and>
     (peerClosed s \<longleftrightarrow> relayAt s \<in> {CloseService, WaitSecond, RelayReturned}) \<and>
     (serviceClosed s \<longleftrightarrow> relayAt s \<in> {WaitSecond, RelayReturned})"

lemma writeBytes_parts:
  assumes "writeBytes bs w = (r, w')"
  obtains part lost where "written w' = written w @ part" and "bs = part @ lost"
    and "isOk r \<Longrightarrow> lost = []"
proof (cases "room w")
  case None
  with assms that [of bs "[]"] show thesis by (auto simp: writeBytes_def)
next
  case (Some k)
  with assms that [of "take k bs" "drop k bs"] show thesis
    by (auto simp: writeBytes_def split: if_splits)
qed

lemma copyRead_inv:
  assumes "copierInv sc input start c" and "copying c" and "inFlight c = []"
  shows "copierInv sc input start (copyRead n sc c)"
  using assms by (auto simp: copyRead_def copierInv_def)

lemma copyWrite_inv:
  assumes "copierInv sc input start c" and "copying c"
  shows "copierInv sc input start (copyWrite closed c)"
proof -
  from assms obtain sentBytes where s: "written (sink c) = start @ sentBytes"
    "input = sentBytes @ inFlight c @ unread (source c)" "\<not> lostWrite c"
    unfolding copierInv_def by auto
  show ?thesis
  proof (cases closed)
    case True
    with s assms(2) show ?thesis by (auto simp: copierInv_def copyWrite_def)
  next
    case False
    obtain r w where w: "writeBytes (inFlight c) (sink c) = (r, w)" by fastforce
    obtain part lost where part: "written w = written (sink c) @ part" "inFlight c = part @ lost" "isOk r \<Longrightarrow> lost = []"
      by (rule writeBytes_parts [OF w]) blast
    with s False w assms(2) show ?thesis
      unfolding copierInv_def
      by (cases r; intro exI [of _ "sentBytes @ part"] exI [of _ lost]) (auto simp: copyWrite_def)
  qed
qed

lemma copyTurn_inv:
  "copierInv sc input start c \<Longrightarrow> copying c \<Longrightarrow> copierInv sc input start (copyTurn n sc closed c)"
  by (simp add: copyTurn_def copyRead_inv copyWrite_inv)

lemma copierInv_close: "copierInv sc input start c \<Longrightarrow> copierInv True input start c"
  by (auto simp: copierInv_def)

lemma relayInv_step:
  assumes "relayInv s0 s" and "relayMoveTo m s = Some t"
  shows "relayInv s0 t"
  using assms(2)
proof (cases rule: relayMoveTo.elims)
  case (1 n s')
  with assms(1) copyTurn_inv [of "peerClosed s" _ _ "toService s" n "serviceClosed s"] show ?thesis
    by (auto simp: relayInv_def report_def running_def Let_def split: if_splits)
next
  case (2 n s')
  with assms(1) copyTurn_inv [of "serviceClosed s" _ _ "toPeer s" n "peerClosed s"] show ?thesis
    by (auto simp: relayInv_def report_def running_def Let_def split: if_splits)
next
  case (3 s')
  with assms(1) show ?thesis by (auto simp: relayInv_def split: nat.splits relayPc.splits)
next
  case (4 s')
  with assms(1) show ?thesis by (auto simp: relayInv_def dest: copierInv_close split: relayPc.splits)
qed

interpretation relaySys: transition_system "\<lambda>s. s = startRelay pi p si v" relayStep
    "relayInv (startRelay pi p si v)" for pi p si v
proof
  fix s t
  assume "s = startRelay pi p si v"
  then show "relayInv (startRelay pi p si v) s"
    by (simp add: relayInv_def startRelay_def copierInv_def running_def)
next
  fix s t
  assume "relayInv (startRelay pi p si v) s" "relayStep s t"
  then show "relayInv (startRelay pi p si v) t"
    by (auto intro: relayInv_step)
qed

text \<open>What a relay can still do: two turns for every byte not yet read, one for bytes in flight, one for the end
  of each direction, and the moves of the main line.\<close>

definition copierWork :: "copier \<Rightarrow> nat" where
  "copierWork c = (if copying c then 2 * length (unread (source c)) + (if inFlight c = [] then 0 else 1) + 1 else 0)"

fun relayRank :: "relayPc \<Rightarrow> nat" where
  "relayRank WaitFirst = 4" | "relayRank ClosePeer = 3" | "relayRank CloseService = 2" | "relayRank WaitSecond = 1"
| "relayRank RelayReturned = 0"

definition relayWork :: "relay \<Rightarrow> nat" where
  "relayWork s = copierWork (toService s) + copierWork (toPeer s) + relayRank (relayAt s)"

lemma copyTurn_work:
  assumes "copying c" and "0 < n"
  shows "copierWork (copyTurn n sc closed c) < copierWork c"
proof (cases "inFlight c = []")
  case True
  then show ?thesis
    using assms by (cases "unread (source c)") (auto simp: copierWork_def copyTurn_def copyRead_def)
next
  case False
  then show ?thesis
    using assms by (auto simp: copierWork_def copyTurn_def copyWrite_def split: prod.split sum.split)
qed

lemma relay_work: "relayMoveTo m s = Some t \<Longrightarrow> relayWork t < relayWork s"
proof (induction m s rule: relayMoveTo.induct)
  case (1 n s)
  then show ?case
    using copyTurn_work [of "toService s" n "peerClosed s" "serviceClosed s"]
    by (auto simp: relayWork_def report_def Let_def split: if_splits)
next
  case (2 n s)
  then show ?case
    using copyTurn_work [of "toPeer s" n "serviceClosed s" "peerClosed s"]
    by (auto simp: relayWork_def report_def Let_def split: if_splits)
qed (auto simp: relayWork_def split: nat.splits relayPc.splits)

lemma relay_run_work: "runMoves relayMoveTo ms s = Some t \<Longrightarrow> length ms + relayWork t \<le> relayWork s"
proof (induction ms arbitrary: s)
  case (Cons m ms)
  then obtain u where "relayMoveTo m s = Some u" "runMoves relayMoveTo ms u = Some t" by (auto simp: bind_eq_Some_conv)
  with relay_work [of m s u] Cons.IH [of u] show ?case by simp
qed simp

text \<open>Only a relay that has returned has no move.\<close>

lemma relay_progress:
  assumes "relayInv s0 s"
  shows "relayAt s = RelayReturned \<longleftrightarrow> (\<forall>m. relayMoveTo m s = None)"
proof
  from assms have count: "doneCh s + running (toService s) + running (toPeer s) + taken (relayAt s) = 2"
    by (simp add: relayInv_def)
  show "\<forall>m. relayMoveTo m s = None" if "relayAt s = RelayReturned"
  proof
    fix m
    from that count show "relayMoveTo m s = None"
      by (cases "(m, s)" rule: relayMoveTo.cases) (auto simp: running_def split: if_splits)
  qed
  assume none: "\<forall>m. relayMoveTo m s = None"
  from none [rule_format, of "Turn ToService 1"] none [rule_format, of "Turn ToPeer 1"]
  have "\<not> copying (toService s)" "\<not> copying (toPeer s)" by (auto simp: Let_def)
  with count none [rule_format, of WaitDone] none [rule_format, of CloseNext] show "relayAt s = RelayReturned"
    by (cases "relayAt s"; cases "doneCh s") (auto simp: running_def)
qed

section \<open>Properties\<close>

lemma relay_reachable_inv:
  "reachable (\<lambda>s. s = startRelay pi p si v) relayStep s \<Longrightarrow> relayInv (startRelay pi p si v) s"
  by (rule relaySys.inv_reachable)

lemma relay_streams:
  assumes "reachable (\<lambda>s. s = startRelay peerInput peer serviceInput service) relayStep s"
  shows "\<exists>b1 b2 rest1 rest2.
    written (sink (toService s)) = written service @ b1 \<and> unread peerInput = b1 @ rest1 \<and>
    written (sink (toPeer s)) = written peer @ b2 \<and> unread serviceInput = b2 @ rest2 \<and>
    (\<not> peerClosed s \<and> \<not> copying (toService s) \<and> \<not> lostWrite (toService s) \<longrightarrow> rest1 = []) \<and>
    (\<not> serviceClosed s \<and> \<not> copying (toPeer s) \<and> \<not> lostWrite (toPeer s) \<longrightarrow> rest2 = [])"
proof -
  have "copierInv (peerClosed s) (unread peerInput) (written service) (toService s)"
    "copierInv (serviceClosed s) (unread serviceInput) (written peer) (toPeer s)"
    using relay_reachable_inv [OF assms]
    unfolding relayInv_def startRelay_def relay.select_convs copier.select_convs by blast+
  then obtain b1 l1 b2 l2 where "written (sink (toService s)) = written service @ b1"
    "unread peerInput = b1 @ l1 @ inFlight (toService s) @ unread (source (toService s))"
    "written (sink (toPeer s)) = written peer @ b2"
    "unread serviceInput = b2 @ l2 @ inFlight (toPeer s) @ unread (source (toPeer s))"
    "\<not> lostWrite (toService s) \<longrightarrow>
       l1 = [] \<and> (copying (toService s) \<or> peerClosed s \<or> unread (source (toService s)) = [])"
    "\<not> lostWrite (toPeer s) \<longrightarrow>
       l2 = [] \<and> (copying (toPeer s) \<or> serviceClosed s \<or> unread (source (toPeer s)) = [])"
    "\<not> copying (toService s) \<longrightarrow> inFlight (toService s) = []" "\<not> copying (toPeer s) \<longrightarrow> inFlight (toPeer s) = []"
    unfolding copierInv_def by blast
  then show ?thesis by blast
qed

text \<open>C14: The relay changes no byte. In every reachable state each side has received a front of
  what the other side sends, starting with the bytes the request line left in the buffer; and a
  direction that ended before the connection it reads from was closed, its writes accepted, has delivered
  everything its source sent.\<close>

theorem relay_faithful:
  assumes "reachable (\<lambda>s. s = startRelay peerInput peer serviceInput service) relayStep s"
  shows "\<exists>b1 b2 rest1 rest2.
    written (sink (toService s)) = written service @ b1 \<and> unread peerInput = b1 @ rest1 \<and>
    written (sink (toPeer s)) = written peer @ b2 \<and> unread serviceInput = b2 @ rest2 \<and>
    (\<not> peerClosed s \<and> \<not> copying (toService s) \<and> \<not> lostWrite (toService s) \<longrightarrow> rest1 = []) \<and>
    (\<not> serviceClosed s \<and> \<not> copying (toPeer s) \<and> \<not> lostWrite (toPeer s) \<longrightarrow> rest2 = [])"
  by (rule relay_streams [OF assms])

theorem relay_faithful_witness:
  "\<exists>s :: relay. written (sink (toService s)) = [1, 2, 3] \<and> \<not> copying (toService s) \<and>
     (\<exists>b1 rest1. [1, 2, 3] = b1 @ rest1 \<and> written (sink (toService s)) = [] @ b1 \<and> rest1 = [])"
proof -
  let ?w = "\<lparr>written = [], room = None\<rparr>"
  let ?pi = "\<lparr>unread = [1, 2, 3], ends = EOF\<rparr>" and ?si = "\<lparr>unread = [7], ends = EOF\<rparr>"
  let ?s0 = "startRelay ?pi ?w ?si ?w"
  let ?ms = "[Turn ToService 2, Turn ToPeer 4, Turn ToService 2, Turn ToService 2, Turn ToService 1, Turn ToService 1]"
  have "runMoves relayMoveTo ?ms ?s0 \<noteq> None \<and> (\<forall>s. runMoves relayMoveTo ?ms ?s0 = Some s \<longrightarrow>
      written (sink (toService s)) = [1, 2, 3] \<and> \<not> copying (toService s) \<and> \<not> peerClosed s
      \<and> \<not> lostWrite (toService s))"
    by (simp add: startRelay_def copyTurn_def copyRead_def copyWrite_def writeBytes_def report_def Let_def)
  then obtain s where s: "runMoves relayMoveTo ?ms ?s0 = Some s" "written (sink (toService s)) = [1, 2, 3]"
    "\<not> copying (toService s)" "\<not> peerClosed s" "\<not> lostWrite (toService s)" by blast
  have "reachable (\<lambda>s. s = ?s0) relayStep s"
    by (rule runMoves_reachable [OF reach_init s(1)]) simp
  from relay_faithful [OF this] s show ?thesis unfolding writer.select_convs reader.select_convs by blast
qed

text \<open>What is left to do once one goroutine has ended.\<close>

abbreviation (input) relayEnds :: "nat \<Rightarrow> relay \<Rightarrow> bool" where
  "relayEnds n \<equiv> finishes relayMoveTo UNIV n (\<lambda>t. relayAt t = RelayReturned)"

lemma relayEnds_step: "relayMoveTo m s = Some u \<Longrightarrow> relayEnds n u \<Longrightarrow> relayEnds (Suc n) s"
  by (rule finishes_move [of relayMoveTo]) simp_all

lemma copyTurn_closed: "\<not> copying (copyTurn n True True c)"
  by (simp add: copyTurn_def copyRead_def copyWrite_def)

lemma second_ends:
  assumes "relayAt u = WaitSecond" "peerClosed u" "serviceClosed u"
    "doneCh u + running (toService u) + running (toPeer u) = 1"
  shows "relayEnds 2 u"
proof -
  have last: "relayEnds 1 v" if "relayAt v = WaitSecond" "doneCh v = 1" for v
    using that by (intro finishes_last [where m = WaitDone]) auto
  consider "doneCh u = 1" | "copying (toService u)" "doneCh u = 0" | "copying (toPeer u)" "doneCh u = 0"
    using assms(4) by (cases "doneCh u"; cases "copying (toService u)"; cases "copying (toPeer u)")
      (simp_all add: running_def)
  then show ?thesis
  proof cases
    case 1
    with assms(1) last [of u] show ?thesis by (auto intro: finishes_mono)
  next
    case 2
    with assms(1-3) show ?thesis
      by (intro finishes_two [where m = "Turn ToService 1"])
        (auto simp: copyTurn_closed report_def Let_def intro: last [unfolded One_nat_def])
  next
    case 3
    with assms(1-3) show ?thesis
      by (intro finishes_two [where m = "Turn ToPeer 1"])
        (auto simp: copyTurn_closed report_def Let_def intro: last [unfolded One_nat_def])
  qed
qed

lemma closing_ends:
  assumes "relayInv s0 s" and "relayAt s = CloseService \<or> relayAt s = ClosePeer"
  shows "relayEnds (if relayAt s = ClosePeer then 4 else 3) s"
proof -
  have two: "relayEnds 3 v" if v: "relayInv s0 v" "relayAt v = CloseService" for v
  proof -
    obtain u where u: "relayMoveTo CloseNext v = Some u" "relayAt u = WaitSecond" using v(2) by simp
    have "relayEnds 2 u" using relayInv_step [OF v(1) u(1)] u(2) by (intro second_ends) (auto simp: relayInv_def)
    from relayEnds_step [OF u(1) this] show ?thesis by (simp add: numeral_3_eq_3 numeral_2_eq_2)
  qed
  show ?thesis
  proof (cases "relayAt s = ClosePeer")
    case True
    then obtain u where u: "relayMoveTo CloseNext s = Some u" "relayAt u = CloseService" by simp
    from relayEnds_step [OF u(1) two [OF relayInv_step [OF assms(1) u(1)] u(2)]] True show ?thesis by simp
  qed (use assms two in auto)
qed

lemma relay_returns:
  assumes "relayInv s0 s" and "\<not> copying (toService s) \<or> \<not> copying (toPeer s)"
  shows "relayEnds 5 s"
proof (cases "relayAt s")
  case WaitFirst
  with assms obtain k where k: "doneCh s = Suc k"
    by (cases "doneCh s") (auto simp: relayInv_def running_def split: if_splits)
  with WaitFirst obtain u where u: "relayMoveTo WaitDone s = Some u" "relayAt u = ClosePeer" by simp
  have "relayEnds 4 u" using closing_ends [OF relayInv_step [OF assms(1) u(1)]] u(2) by simp
  from relayEnds_step [OF u(1) this] show ?thesis by simp
next
  case WaitSecond
  with assms(1) second_ends [of s] show ?thesis by (auto simp: relayInv_def intro: finishes_mono)
next
  case RelayReturned
  then show ?thesis by (rule finishes_now)
qed (use closing_ends [OF assms(1)] in \<open>auto intro: finishes_mono\<close>)

text \<open>C16: \<open>Relay\<close> returns, and only when nothing is left running. Over streams of which each side sends finitely
  many bytes and then ends, every run of a relay, however its parts interleave, is finite, with an explicit
  bound on its moves; the only state without a further move is the return, in which both connections
  are closed and both goroutines have ended; and as soon as one goroutine has ended, five moves lead to the
  return, however much the other still had to copy.\<close>

theorem relay_ends:
  assumes "runMoves relayMoveTo ms (startRelay peerInput peer serviceInput service) = Some s"
  shows "length ms \<le> 2 * (length (unread peerInput) + length (unread serviceInput)) + 6 \<and>
    (relayAt s = RelayReturned \<longleftrightarrow> (\<forall>m. relayMoveTo m s = None)) \<and>
    (relayAt s = RelayReturned \<longrightarrow> peerClosed s \<and> serviceClosed s \<and> \<not> copying (toService s) \<and> \<not> copying (toPeer s)) \<and>
    (\<not> copying (toService s) \<or> \<not> copying (toPeer s) \<longrightarrow>
      (\<exists>ns t. length ns \<le> 5 \<and> runMoves relayMoveTo ns s = Some t \<and> relayAt t = RelayReturned))"
proof (intro conjI)
  have inv: "relayInv (startRelay peerInput peer serviceInput service) s"
    by (rule relay_reachable_inv [OF runMoves_reachable [OF reach_init assms]]) simp
  show "length ms \<le> 2 * (length (unread peerInput) + length (unread serviceInput)) + 6"
    using relay_run_work [OF assms] by (simp add: relayWork_def copierWork_def startRelay_def)
  show "relayAt s = RelayReturned \<longleftrightarrow> (\<forall>m. relayMoveTo m s = None)" by (rule relay_progress [OF inv])
  show "relayAt s = RelayReturned \<longrightarrow> peerClosed s \<and> serviceClosed s \<and> \<not> copying (toService s) \<and> \<not> copying (toPeer s)"
    using inv by (auto simp: relayInv_def running_def split: if_splits)
  show "\<not> copying (toService s) \<or> \<not> copying (toPeer s) \<longrightarrow>
      (\<exists>ns t. length ns \<le> 5 \<and> runMoves relayMoveTo ns s = Some t \<and> relayAt t = RelayReturned)"
    using relay_returns [OF inv] unfolding finishes_def by blast
qed

theorem relay_ends_witness:
  "\<exists>s ns t. runMoves relayMoveTo [Turn ToPeer 4] (startRelay \<lparr>unread = [1, 2, 3], ends = EOF\<rparr> \<lparr>written = [], room = None\<rparr>
       \<lparr>unread = [], ends = EOF\<rparr> \<lparr>written = [], room = None\<rparr>) = Some s \<and> copying (toService s) \<and>
     length ns \<le> 5 \<and> runMoves relayMoveTo ns s = Some t \<and> relayAt t = RelayReturned"
proof -
  let ?w = "\<lparr>written = [], room = None\<rparr>"
  let ?s0 = "startRelay \<lparr>unread = [1, 2, 3], ends = EOF\<rparr> ?w \<lparr>unread = [], ends = EOF\<rparr> ?w"
  have "\<exists>s. runMoves relayMoveTo [Turn ToPeer 4] ?s0 = Some s \<and> \<not> copying (toPeer s) \<and> copying (toService s)"
    by (simp add: startRelay_def copyTurn_def copyRead_def report_def Let_def)
  then obtain s where s: "runMoves relayMoveTo [Turn ToPeer 4] ?s0 = Some s" "\<not> copying (toPeer s)"
    "copying (toService s)" by blast
  from relay_ends [OF s(1)] s show ?thesis by blast
qed

end
