(* ===== verification/Agent_Main.thy ===== *)
theory Agent_Main
  imports Agent_Session Agent_Relay
begin

text \<open>
  The agent's process, \<open>agent/cmd/biot-agent/main.go\<close>: setting up the socket, the accept loop,
  and what one accepted connection goes through before it becomes a relay or a shell session. The
  service a port request connects to, and whether the shell entry point starts, are parameters.
\<close>

section \<open>The code\<close>

text \<open>What a connection has become when its handler hands over to the relay or to the session, or
  is done with it. \<open>Ended\<close> closes the connection.\<close>

datatype outcome =
    Ended
  | Relaying relay
  | InSession spawn session
  | SessionFailed sessionErr

definition handlePort ::
  "(16 word \<Rightarrow> (reader \<times> writer) option) \<Rightarrow> 16 word \<Rightarrow> reader \<Rightarrow> writer \<Rightarrow> outcome \<times> writer" where
  "handlePort connect port input conn =
     (case connect port of
        None \<Rightarrow> (Ended, snd (writeRejected RejectionConnectionRefused conn))
      | Some (serviceInput, service) \<Rightarrow>
          (case writeAccepted conn of
             (Inl _, conn') \<Rightarrow> (Ended, conn')
           | (Inr _, conn') \<Rightarrow> (Relaying (startRelay input conn' serviceInput service), conn')))"

definition handleShell ::
  "(spawn \<Rightarrow> terminal option) \<Rightarrow> string \<Rightarrow> shellRequest \<Rightarrow> reader \<Rightarrow> writer \<Rightarrow> outcome \<times> writer" where
  "handleShell start shellEntrypoint rq input conn =
     (case writeAccepted conn of
        (Inl _, conn') \<Rightarrow> (Ended, conn')
      | (Inr _, conn') \<Rightarrow>
          (case start (shellCommand shellEntrypoint rq) of
             None \<Rightarrow> (SessionFailed StartErr, conn')
           | Some t \<Rightarrow>
               (InSession (shellCommand shellEntrypoint rq) (startSession conn' input t), conn')))"

definition handle ::
  "(16 word \<Rightarrow> (reader \<times> writer) option) \<Rightarrow> (spawn \<Rightarrow> terminal option) \<Rightarrow> string
    \<Rightarrow> reader \<Rightarrow> writer \<Rightarrow> outcome \<times> writer" where
  "handle connect start shellEntrypoint input conn =
     (case readRequest input of
        (Inl ErrInvalidRequest, _) \<Rightarrow> (Ended, snd (writeRejected RejectionInvalidRequest conn))
      | (Inl (ReqIO _), _) \<Rightarrow> (Ended, conn)
      | (Inr (PortRequest port), input') \<Rightarrow> handlePort connect port input' conn
      | (Inr (ShellRequest rq), input') \<Rightarrow> handleShell start shellEntrypoint rq input' conn)"

text \<open>The set-up of the socket, then one handler for each accepted connection until \<open>Accept\<close>
  fails. The environment gives the result of each system call.\<close>

datatype removeResult = Removed | NotThere | RemoveFailed

datatype serveErr = RemoveErr | ListenErr | ChmodErr | AcceptErr

fun acceptLoop :: "'c option list \<Rightarrow> 'c list \<times> serveErr option" where
  "acceptLoop [] = ([], None)"
| "acceptLoop (None # _) = ([], Some AcceptErr)"
| "acceptLoop (Some c # rest) = (case acceptLoop rest of (cs, e) \<Rightarrow> (c # cs, e))"

definition serve :: "removeResult \<Rightarrow> bool \<Rightarrow> bool \<Rightarrow> 'c option list \<Rightarrow> 'c list \<times> serveErr option" where
  "serve removed listens chmods accepts =
     (if removed = RemoveFailed then ([], Some RemoveErr)
      else if \<not> listens then ([], Some ListenErr)
      else if \<not> chmods then ([], Some ChmodErr)
      else acceptLoop accepts)"

definition agentMain :: "string \<Rightarrow> string \<Rightarrow> (string, unit) result" where
  "agentMain socketPath shellEntrypoint =
     (if socketPath = [] then Inl ''socket path is required''
      else if shellEntrypoint = [] then Inl ''shell entry point is required''
      else Inr ())"

section \<open>Properties\<close>

definition acceptedReply :: "byte list" where
  "acceptedReply = stringBytes (jprint (replyJson \<lparr>OK = True, Error = []\<rparr>) @ [CHR 0x0A])"

definition rejectedReply :: "rejection \<Rightarrow> byte list" where
  "rejectedReply rej = stringBytes (jprint (replyJson \<lparr>OK = False, Error = rejectionText rej\<rparr>) @ [CHR 0x0A])"

lemma writeAccepted_run: "writeAccepted w = writeBytes acceptedReply w"
  by (simp add: writeAccepted_def writeReply_def acceptedReply_def)

lemma writeRejected_run: "writeRejected rej w = writeBytes (rejectedReply rej) w"
  by (simp add: writeRejected_def writeReply_def rejectedReply_def)

lemma writeBytes_unlimited:
  "room w = None \<Longrightarrow> writeBytes bs w = (Inr (), w\<lparr>written := written w @ bs\<rparr>)"
  by (simp add: writeBytes_def)

text \<open>What a connection ends as, in terms of what \<open>ReadRequest\<close> made of it.\<close>

fun replyFor :: "(16 word \<Rightarrow> (reader \<times> writer) option) \<Rightarrow> (reqErr, request) result \<Rightarrow> byte list" where
  "replyFor connect (Inl ErrInvalidRequest) = rejectedReply RejectionInvalidRequest"
| "replyFor connect (Inl (ReqIO _)) = []"
| "replyFor connect (Inr (PortRequest p)) =
     (if connect p = None then rejectedReply RejectionConnectionRefused else acceptedReply)"
| "replyFor connect (Inr (ShellRequest _)) = acceptedReply"

text \<open>C26: A connection is answered once, and the answer is what happens: on a connection that
  accepts the write, a line that is not a request gets the \<open>invalid_request\<close> reply and a refused
  port the \<open>connection_refused\<close> reply, both ending the connection; a line that never came gets
  nothing; an accepted port or shell request gets the accepted reply, and the relay or the session
  that follows starts with that reply already written and with the bytes after the request line as
  its input, none lost and none added.\<close>

theorem handle_answers_once:
  assumes "room conn = None"
  shows "case handle connect start shellEntrypoint input conn of (out, conn') \<Rightarrow>
    written conn' = written conn @ replyFor connect (fst (readRequest input)) \<and>
    (case out of
       Relaying s \<Rightarrow> (\<exists>p input' si v. readRequest input = (Inr (PortRequest p), input') \<and>
           connect p = Some (si, v) \<and> s = startRelay input' conn' si v)
     | InSession sp s \<Rightarrow> (\<exists>rq input' t. readRequest input = (Inr (ShellRequest rq), input') \<and>
           sp = shellCommand shellEntrypoint rq \<and> start sp = Some t \<and> s = startSession conn' input' t)
     | SessionFailed e \<Rightarrow> (\<exists>rq input'. readRequest input = (Inr (ShellRequest rq), input'))
     | Ended \<Rightarrow> replyFor connect (fst (readRequest input)) \<noteq> acceptedReply)"
proof -
  have accepted_differs: "acceptedReply \<noteq> []" "\<And>rej. rejectedReply rej \<noteq> acceptedReply"
    by (simp_all add: acceptedReply_def rejectedReply_def replyJson_def stringBytes_def charByte_def)
  obtain res input' where r: "readRequest input = (res, input')" by fastforce
  note run = handle_def handlePort_def handleShell_def writeAccepted_run writeRejected_run
    writeBytes_unlimited [OF assms] r
  show ?thesis
  proof (cases res)
    case (Inl e)
    then show ?thesis by (cases e) (simp_all add: run accepted_differs not_sym)
  next
    case (Inr req)
    then show ?thesis
      by (cases req) (auto simp: run accepted_differs split: option.split)
  qed
qed

theorem handle_answers_once_witness:
  "written (snd (handle (\<lambda>_. None) (\<lambda>_. None) ''/bin/sh'' \<lparr>unread = [10, 1], ends = EOF\<rparr>
      \<lparr>written = [], room = None\<rparr>)) = rejectedReply RejectionInvalidRequest"
proof -
  have "unmarshalFields [] = None" by code_simp
  then have "readRequest \<lparr>unread = [10, 1], ends = EOF\<rparr>
      = (Inl ErrInvalidRequest, \<lparr>unread = [1], ends = EOF\<rparr>)"
    by (subst readRequest_line [of "[]" _ "[1]"])
      (simp_all add: newline_def stringBytes_def LineLimit_def parseRequestLine_def trimSuffix_def
        hasSuffix_def hasPrefix_def)
  with handle_answers_once [where conn = "\<lparr>written = [], room = None\<rparr>" and connect = "\<lambda>_. None"
      and start = "\<lambda>_. None" and shellEntrypoint = "''/bin/sh''"
      and input = "\<lparr>unread = [10, 1], ends = EOF\<rparr>"]
  show ?thesis by (simp split: prod.splits)
qed

end
