(* ===== verification/Agent_Service.thy ===== *)
theory Agent_Service
  imports Agent_Main
begin

text \<open>
  What one connection of the agent carries from its first byte to its last: the request line, the reply,
  and the relay or the session that follows, as the composition of \<open>handle\<close> with the step relations of
  \<open>Agent_Relay\<close> and \<open>Agent_Session\<close>. To the two ends a port connection is a pair of byte streams, and a
  shell connection a terminal.
\<close>

section \<open>A request that arrives whole\<close>

definition requestLine :: "string \<Rightarrow> byte list" where
  "requestLine line = stringBytes (line @ [CHR 0x0A])"

definition afterReply :: "writer \<Rightarrow> writer" where
  "afterReply conn = conn\<lparr>written := written conn @ acceptedReply\<rparr>"

lemma asked_request:
  "asksFor line req \<Longrightarrow>
     readRequest \<lparr>unread = requestLine line @ rest, ends = e\<rparr> = (Inr req, \<lparr>unread = rest, ends = e\<rparr>)"
  by (simp add: readRequest_asked requestLine_def)

lemma handle_port_accepted:
  assumes "asksFor line (PortRequest p)" and "connect p = Some (si, v)" and "room conn = None"
  shows "handle connect start entry \<lparr>unread = requestLine line @ rest, ends = e\<rparr> conn =
    (Relaying (startRelay \<lparr>unread = rest, ends = e\<rparr> (afterReply conn) si v), afterReply conn)"
  using assms
  by (simp add: handle_def asked_request handlePort_def writeAccepted_run writeBytes_unlimited afterReply_def)

lemma handle_shell_accepted:
  assumes "asksFor line (ShellRequest rq)" and "start (shellCommand entry rq) = Some t" and "room conn = None"
  shows "handle connect start entry \<lparr>unread = requestLine line @ rest, ends = e\<rparr> conn =
    (InSession (shellCommand entry rq) (startSession (afterReply conn) \<lparr>unread = rest, ends = e\<rparr> t), afterReply conn)"
  using assms
  by (simp add: handle_def asked_request handleShell_def writeAccepted_run writeBytes_unlimited afterReply_def)

section \<open>What a session has typed\<close>

text \<open>The input goroutine is the only one that moves the input side, one frame at a time.\<close>

lemma inputSide_step:
  assumes "sessionMove m s = Some t"
  shows "inputSide t = inputSide s \<or> inputSide t = snd (readInputStep (inputSide s))"
  using assms
proof (cases m)
  case InputTurn
  with assms show ?thesis by (auto split: if_splits option.splits prod.splits)
qed (use assms in \<open>auto simp: session_defs Let_def split: if_splits option.splits prod.splits sum.splits outputPc.splits mainPc.splits\<close>)

lemma terminalAfter_Nil [simp]: "terminalAfter t [] = t"
  by (cases t; cases "typed t") (simp add: terminalAfter_def typedBy_def sizeAfter_def advance_def option.map_ident)

lemma readInputStep_frames:
  assumes "list_all inputFrameOk fs" and "room (typed t) = None" and "resizable t"
  shows "snd (readInputStep (\<lparr>unread = concat (map encodeFrame fs), ends = EOF\<rparr>, t)) =
    (\<lparr>unread = concat (map encodeFrame (drop 1 fs)), ends = EOF\<rparr>, terminalAfter t (take 1 fs))"
proof (cases fs)
  case Nil
  then show ?thesis
    by (simp add: readInputStep_def readFrame_no_header)
next
  case (Cons f gs)
  with assms have "frameOk f" "applyFrame f t = (Inr (), terminalAfter t [f])"
    by (simp_all add: applyFrame_ok inputFrameOk_def)
  with Cons show ?thesis by (simp add: readInputStep_def readFrame_encoded)
qed

definition typedInv :: "frame list \<Rightarrow> terminal \<Rightarrow> session \<Rightarrow> bool" where
  "typedInv fs t s \<longleftrightarrow> (\<exists>taken rest. fs = taken @ rest \<and>
     inputSide s = (\<lparr>unread = concat (map encodeFrame rest), ends = EOF\<rparr>, terminalAfter t taken))"

lemma terminalAfter_append: "terminalAfter (terminalAfter t fs) gs = terminalAfter t (fs @ gs)"
proof (induction fs arbitrary: t)
  case (Cons f fs)
  from Cons.IH [of "terminalAfter t [f]"] show ?case by (simp only: terminalAfter_Cons append_Cons)
qed simp

lemma typedInv_step:
  assumes "list_all inputFrameOk fs" and "room (typed t) = None" and "resizable t"
    and "typedInv fs t s" and "sessionMove m s = Some s'"
  shows "typedInv fs t s'"
proof -
  from assms(4) obtain taken rest where i: "fs = taken @ rest"
    "inputSide s = (\<lparr>unread = concat (map encodeFrame rest), ends = EOF\<rparr>, terminalAfter t taken)"
    unfolding typedInv_def by blast
  from inputSide_step [OF assms(5)] show ?thesis
  proof
    assume "inputSide s' = snd (readInputStep (inputSide s))"
    also have "\<dots> = (\<lparr>unread = concat (map encodeFrame (drop 1 rest)), ends = EOF\<rparr>, terminalAfter t (taken @ take 1 rest))"
      unfolding i(2) using assms(1-3) i(1)
      by (subst readInputStep_frames)
        (simp_all add: terminalAfter_append, simp_all add: terminalAfter_def advance_def)
    finally show ?thesis
      unfolding typedInv_def using i(1)
      by (intro exI [of _ "taken @ take 1 rest"] exI [of _ "drop 1 rest"]) simp
  qed (use i in \<open>auto simp: typedInv_def\<close>)
qed

interpretation typedSys: transition_system
    "\<lambda>s. s = startSession conn \<lparr>unread = concat (map encodeFrame fs), ends = EOF\<rparr> t \<and>
       list_all inputFrameOk fs \<and> room (typed t) = None \<and> resizable t"
    sessionStep
    "\<lambda>s. list_all inputFrameOk fs \<and> room (typed t) = None \<and> resizable t \<and> typedInv fs t s" for conn fs t
proof
  show "list_all inputFrameOk fs \<and> room (typed t) = None \<and> resizable t \<and> typedInv fs t s"
    if "s = startSession conn \<lparr>unread = concat (map encodeFrame fs), ends = EOF\<rparr> t \<and>
       list_all inputFrameOk fs \<and> room (typed t) = None \<and> resizable t" for s
    using that by (auto simp: typedInv_def startSession_def intro: exI [of _ "[]"])
qed (use typedInv_step in blast)

text \<open>The line Go's encoder would write.\<close>

lemma go_line:
  "requestOk req \<Longrightarrow> jsonOk (JObj (requestMembers req)) \<Longrightarrow> length (jprint (JObj (requestMembers req))) < LineLimit \<Longrightarrow>
     asksFor (jprint (JObj (requestMembers req))) req"
  unfolding asksFor_def using jprint_spelt by blast

section \<open>Properties\<close>

text \<open>C3: A port connection is the port. Once the request line has arrived, whatever its order of members and its escapes, and the
  service accepts the connection, then at every moment of every interleaving the service has received a front of
  exactly what the node sent after the line, and the node the accepted reply and after it a front of exactly what
  the service sent; a direction that ends before its source is closed, its writes accepted, has carried
  everything.\<close>

theorem port_connection_carries:
  assumes "asksFor line (PortRequest p)" and "connect p = Some (serviceInput, service)" and "room conn = None"
  shows "let s0 = startRelay \<lparr>unread = sentData, ends = e\<rparr> (afterReply conn) serviceInput service in
    handle connect start entry \<lparr>unread = requestLine line @ sentData, ends = e\<rparr> conn = (Relaying s0, afterReply conn) \<and>
    (\<forall>s. reachable (\<lambda>s. s = s0) relayStep s \<longrightarrow>
      (\<exists>up down rest1 rest2.
        written (sink (toService s)) = written service @ up \<and> sentData = up @ rest1 \<and>
        written (sink (toPeer s)) = written conn @ acceptedReply @ down \<and> unread serviceInput = down @ rest2 \<and>
        (\<not> peerClosed s \<and> \<not> copying (toService s) \<and> \<not> lostWrite (toService s) \<longrightarrow> rest1 = []) \<and>
        (\<not> serviceClosed s \<and> \<not> copying (toPeer s) \<and> \<not> lostWrite (toPeer s) \<longrightarrow> rest2 = [])))"
  unfolding Let_def
proof (intro conjI allI impI)
  show "handle connect start entry \<lparr>unread = requestLine line @ sentData, ends = e\<rparr> conn =
      (Relaying (startRelay \<lparr>unread = sentData, ends = e\<rparr> (afterReply conn) serviceInput service), afterReply conn)"
    using assms by (rule handle_port_accepted)
qed (drule relay_streams, simp add: afterReply_def)

theorem port_connection_carries_witness:
  "\<exists>s0 s. fst (handle (\<lambda>_. Some (\<lparr>unread = [7], ends = EOF\<rparr>, \<lparr>written = [], room = None\<rparr>)) (\<lambda>_. None) ''/bin/sh''
       \<lparr>unread = requestLine (jprint (JObj (requestMembers (PortRequest 80)))) @ [1, 2], ends = EOF\<rparr> \<lparr>written = [], room = None\<rparr>) = Relaying s0 \<and>
     reachable (\<lambda>s. s = s0) relayStep s \<and> written (sink (toService s)) = [1, 2] \<and>
     written (sink (toPeer s)) = acceptedReply @ [7]"
proof -
  let ?w = "\<lparr>written = [], room = None\<rparr>" and ?si = "\<lparr>unread = [7], ends = EOF\<rparr>"
  let ?s0 = "startRelay \<lparr>unread = [1, 2], ends = EOF\<rparr> (afterReply ?w) ?si ?w"
  let ?ms = "[Turn ToService 2, Turn ToService 2, Turn ToService 1, Turn ToPeer 1, Turn ToPeer 1, Turn ToPeer 1]"
  have "length (jprint (JObj (requestMembers (PortRequest 80)))) = 27" by code_simp
  then have asks: "asksFor (jprint (JObj (requestMembers (PortRequest 80)))) (PortRequest 80)"
    by (intro go_line) (simp_all add: LineLimit_def jport_def jnat_def code_def del: jprint.simps)
  have "\<exists>s. runMoves relayMoveTo ?ms ?s0 = Some s \<and> \<not> peerClosed s \<and> \<not> serviceClosed s \<and> \<not> copying (toService s) \<and> \<not> copying (toPeer s) \<and>
      \<not> lostWrite (toService s) \<and> \<not> lostWrite (toPeer s)"
    by (simp add: startRelay_def afterReply_def copyTurn_def copyRead_def copyWrite_def writeBytes_def report_def Let_def)
  then obtain s where s: "runMoves relayMoveTo ?ms ?s0 = Some s" "\<not> peerClosed s" "\<not> serviceClosed s" "\<not> copying (toService s)"
    "\<not> copying (toPeer s)" "\<not> lostWrite (toService s)" "\<not> lostWrite (toPeer s)" by blast
  have r: "reachable (\<lambda>s. s = ?s0) relayStep s" by (rule runMoves_reachable [OF reach_init s(1)]) simp
  note carries = port_connection_carries [OF asks, of "\<lambda>_. Some (?si, ?w)" ?si ?w ?w "[1, 2]" EOF "\<lambda>_. None" "''/bin/sh''",
    unfolded Let_def, OF refl]
  from carries r s(2-7) have "written (sink (toService s)) = [1, 2]" "written (sink (toPeer s)) = acceptedReply @ [7]"
    by auto
  with carries r show ?thesis by (intro exI [of _ ?s0] exI [of _ s]) simp
qed

text \<open>C2: A shell connection is a terminal. Once the request line has arrived and the process has started on its
  terminal, then at every moment of every interleaving the terminal has been typed the data and given the sizes of
  a front of the frames the node sent, in order; and when the session ends by itself the node has received the
  accepted reply, the whole output of the terminal as data frames, and the exit frame with the status of the
  process.\<close>

theorem shell_connection_carries:
  assumes "asksFor line (ShellRequest rq)" and "start (shellCommand entry rq) = Some t" and "room conn = None"
    and "list_all inputFrameOk fs" and "room (typed t) = None" and "resizable t"
  shows "let s0 = startSession (afterReply conn) \<lparr>unread = concat (map encodeFrame fs), ends = EOF\<rparr> t in
    handle connect start entry \<lparr>unread = requestLine line @ concat (map encodeFrame fs), ends = EOF\<rparr> conn =
      (InSession (shellCommand entry rq) s0, afterReply conn) \<and>
    (\<forall>s. reachable (\<lambda>s. s = s0) sessionStep s \<longrightarrow>
      (\<exists>taken rest. fs = taken @ rest \<and> snd (inputSide s) = terminalAfter t taken) \<and>
      (mainAt s = Returned None \<longrightarrow> (\<exists>chunks st. process s = Exited st \<and> produced s = concat chunks \<and>
         written (connection s) = written conn @ acceptedReply @ outStream chunks @ encodeFrame (exitFrame st))))"
  unfolding Let_def
proof (intro conjI allI impI)
  let ?s0 = "startSession (afterReply conn) \<lparr>unread = concat (map encodeFrame fs), ends = EOF\<rparr> t"
  show "handle connect start entry \<lparr>unread = requestLine line @ concat (map encodeFrame fs), ends = EOF\<rparr> conn =
      (InSession (shellCommand entry rq) ?s0, afterReply conn)"
    using assms(1-3) by (rule handle_shell_accepted)
  fix s
  assume r: "reachable (\<lambda>s. s = ?s0) sessionStep s"
  have "typedInv fs t s"
    using typedSys.inv_reachable [OF reachable_mono [OF r]] assms(4-6) by blast
  then show "\<exists>taken rest. fs = taken @ rest \<and> snd (inputSide s) = terminalAfter t taken"
    unfolding typedInv_def by force
  assume returned: "mainAt s = Returned None"
  have "reachable (sessionStarts (afterReply conn)) sessionStep s"
    by (rule reachable_mono [OF r]) (auto simp: sessionStarts_def)
  from reachable_inv [OF this] returned
  show "\<exists>chunks st. process s = Exited st \<and> produced s = concat chunks \<and>
      written (connection s) = written conn @ acceptedReply @ outStream chunks @ encodeFrame (exitFrame st)"
    by (auto simp: streamInv_def afterReply_def split: proc.splits if_splits)
qed

theorem shell_connection_carries_witness:
  "\<exists>s0 s. fst (handle (\<lambda>_. None) (\<lambda>_. Some \<lparr>typed = \<lparr>written = [], room = None\<rparr>, winsize = (80, 24), resizable = True\<rparr>) ''/bin/sh''
       \<lparr>unread = requestLine (jprint (JObj (requestMembers (ShellRequest \<lparr>Term = ''xterm'', Cols = 80, Rows = 24, Command = []\<rparr>)))) @
          encodeFrame (dataFrame [108, 115]), ends = EOF\<rparr> \<lparr>written = [], room = None\<rparr>) =
       InSession (shellCommand ''/bin/sh'' \<lparr>Term = ''xterm'', Cols = 80, Rows = 24, Command = []\<rparr>) s0 \<and>
     reachable (\<lambda>s. s = s0) sessionStep s \<and> produced s = [104, 105] \<and>
     (\<exists>chunks. concat chunks = [104, 105] \<and>
       written (connection s) = acceptedReply @ outStream chunks @ encodeFrame (exitFrame 0))"
proof -
  let ?w = "\<lparr>written = [], room = None\<rparr>" and ?t = "\<lparr>typed = \<lparr>written = [], room = None\<rparr>, winsize = (80, 24), resizable = True\<rparr>"
  let ?rq = "\<lparr>Term = ''xterm'', Cols = 80, Rows = 24, Command = []\<rparr>" and ?fs = "[dataFrame [108, 115]]"
  let ?s0 = "startSession (afterReply ?w) \<lparr>unread = concat (map encodeFrame ?fs), ends = EOF\<rparr> ?t"
  let ?ms = "[TerminalRead [104] False, ProcessExits None, SelectOutput, SelectProcess, TerminalRead [105] True,
    SelectOutput, SelectOutput]"
  have "length (jprint (JObj (requestMembers (ShellRequest ?rq)))) = 68" by code_simp
  then have asks: "asksFor (jprint (JObj (requestMembers (ShellRequest ?rq)))) (ShellRequest ?rq)"
    by (intro go_line) (simp_all add: LineLimit_def jport_def jnat_def hasNul_def utf8Valid_text code_def del: jprint.simps)
  have fs: "list_all inputFrameOk ?fs"
    by (simp add: inputFrameOk_def frameOk_def dataFrame_def FramePayloadLimit_def)
  have "\<exists>s. runMoves sessionMove ?ms ?s0 = Some s \<and> mainAt s = Returned None \<and> produced s = [104, 105] \<and> process s = Exited 0"
    by (simp add: startSession_def afterReply_def FramePayloadLimit_def session_defs Let_def writeFrame_def
        attempt_def wrapErr_def writeBytes_def exitStatus_def)
  then obtain s where s: "runMoves sessionMove ?ms ?s0 = Some s" "mainAt s = Returned None" "produced s = [104, 105]"
    "process s = Exited 0" by blast
  have r: "reachable (\<lambda>s. s = ?s0) sessionStep s" by (rule runMoves_reachable [OF reach_init s(1)]) simp
  note carries = shell_connection_carries [OF asks, of "\<lambda>_. Some ?t" "''/bin/sh''" ?t ?w ?fs "\<lambda>_. None",
    unfolded Let_def, OF refl _ fs]
  from carries r s have "\<exists>chunks. concat chunks = [104, 105] \<and>
       written (connection s) = acceptedReply @ outStream chunks @ encodeFrame (exitFrame 0)"
    by fastforce
  with carries r s(3) show ?thesis by (intro exI [of _ ?s0] exI [of _ s]) simp
qed

end
