(* ===== verification/Cli_Error.thy ===== *)
theory Cli_Error
  imports Go_Marshal
begin

text \<open>
  The errors of the client and the text it prints. A text is a list of pieces: plain text, a value
  under \<open>%q\<close>, and a wrapped error under \<open>%w\<close>, so that \<open>errors.As\<close> and the final rendering
  both have what they need. A panic of the source is an error of its own.
\<close>

datatype cliErr =
    Errorf "piece list"
  | ApiError (Tag: string) (Status: int) (Fields: "(string \<times> string list) list")
      (CurrentRevision: int) (Cause: "cliErr option")
  | ExitStatus int
  | ErrHelp
  | Panic string
and piece = T string | Q string | W cliErr

definition msg :: "string \<Rightarrow> cliErr" where
  "msg s = Errorf [T s]"

text \<open>\<open>errors.As\<close> for the two error types the client looks for.\<close>

fun asApiError :: "cliErr \<Rightarrow> cliErr option" and asApiErrorP :: "piece list \<Rightarrow> cliErr option" where
  "asApiError (ApiError t s f r c) = Some (ApiError t s f r c)"
| "asApiError (Errorf ps) = asApiErrorP ps"
| "asApiError _ = None"
| "asApiErrorP [] = None"
| "asApiErrorP (W e # ps) = asApiError e"
| "asApiErrorP (_ # ps) = asApiErrorP ps"

fun asExitStatus :: "cliErr \<Rightarrow> int option" and asExitStatusP :: "piece list \<Rightarrow> int option" where
  "asExitStatus (ExitStatus n) = Some n"
| "asExitStatus (Errorf ps) = asExitStatusP ps"
| "asExitStatus _ = None"
| "asExitStatusP [] = None"
| "asExitStatusP (W e # ps) = asExitStatus e"
| "asExitStatusP (_ # ps) = asExitStatusP ps"

fun isPanic :: "cliErr \<Rightarrow> bool" where
  "isPanic (Panic _) = True"
| "isPanic _ = False"

definition IsUnauthenticated :: "cliErr \<Rightarrow> bool" where
  "IsUnauthenticated err =
     (case asApiError err of Some (ApiError t _ _ _ _) \<Rightarrow> t = ''unauthenticated'' | _ \<Rightarrow> False)"

section \<open>Quoting\<close>

text \<open>\<open>strconv.Quote\<close>. Which runes above Latin-1 are printable is a table of the library, given
  as \<open>wide\<close>.\<close>

definition isPrintRune :: "(nat \<Rightarrow> bool) \<Rightarrow> nat \<Rightarrow> bool" where
  "isPrintRune wide r =
     (if r \<le> 0xFF then (0x20 \<le> r \<and> r < 0x7F) \<or> (0xA1 \<le> r \<and> r \<noteq> 0xAD) else wide r)"

fun hexDigits :: "nat \<Rightarrow> nat \<Rightarrow> string" where
  "hexDigits 0 v = []"
| "hexDigits (Suc n) v = hexDigits n (v div 16) @ [hexDigit (v mod 16)]"

definition shortEscapes :: "(nat \<times> char) list" where
  "shortEscapes = [(7, CHR ''a''), (8, CHR ''b''), (12, CHR ''f''), (10, CHR ''n''), (13, CHR ''r''),
     (9, CHR ''t''), (11, CHR ''v'')]"

definition escapeRune :: "(nat \<Rightarrow> bool) \<Rightarrow> nat \<Rightarrow> string" where
  "escapeRune wide r =
     (if r = 0x22 \<or> r = 0x5C then [CHR 0x5C, char_of r]
      else if isPrintRune wide r then encodeRune r
      else case map_of shortEscapes r of
        Some c \<Rightarrow> [CHR 0x5C, c]
      | None \<Rightarrow>
          if r < 0x20 \<or> r = 0x7F then CHR 0x5C # CHR ''x'' # hexDigits 2 r
          else if r < 0x10000 then CHR 0x5C # CHR ''u'' # hexDigits 4 r
          else CHR 0x5C # CHR ''U'' # hexDigits 8 r)"

definition quoteElem :: "(nat \<Rightarrow> bool) \<Rightarrow> string \<Rightarrow> string \<times> string" where
  "quoteElem wide s =
     (case utf8Head s of
        None \<Rightarrow> (CHR 0x5C # CHR ''x'' # hexDigits 2 (code (hd s)), tl s)
      | Some (r, n) \<Rightarrow> (escapeRune wide r, drop n s))"

lemma quoteElem_shorter: "s \<noteq> [] \<Longrightarrow> length (snd (quoteElem wide s)) < length s"
  by (auto simp: quoteElem_def dest: utf8Head_size(1) split: option.splits)

function quoteBody :: "(nat \<Rightarrow> bool) \<Rightarrow> string \<Rightarrow> string" where
  "quoteBody wide s =
     (if s = [] then [] else fst (quoteElem wide s) @ quoteBody wide (snd (quoteElem wide s)))"
  by pat_completeness auto
termination
  by (relation "measure (length \<circ> snd)") (auto dest: quoteElem_shorter)

declare quoteBody.simps [simp del]

definition quote :: "(nat \<Rightarrow> bool) \<Rightarrow> string \<Rightarrow> string" where
  "quote wide s = CHR 0x22 # quoteBody wide s @ [CHR 0x22]"

text \<open>Joining pieces as \<open>strings.Join\<close> joins strings.\<close>

fun joinPieces :: "string \<Rightarrow> piece list list \<Rightarrow> piece list" where
  "joinPieces sep [] = []"
| "joinPieces sep [p] = p"
| "joinPieces sep (p # ps) = p @ [T sep] @ joinPieces sep ps"

end
