(* ===== verification/Cli_World.thy ===== *)
theory Cli_World
  imports Cli_Error Go_Io
begin

text \<open>
  The world the client runs in: the server it talks to, its standard streams and terminal, the
  file system and the clock, together with the primitive effects on it. A command of the client is
  an \<open>action\<close> over this world. What the world will answer is unknown but fixed: the server is a
  function of the requests it has seen, so that every behaviour of a server over time is one such
  function.
\<close>

section \<open>State\<close>

text \<open>One HTTP request as it leaves the client, and what comes back: a status with a body, which may
  break off with an error, or no response at all. The first component says that the exchange took
  longer than \<open>transportNoticeDelay\<close>. Of a transport error the client asks which of five
  conditions it meets and what its innermost text is.\<close>

record call =
  verb :: string
  target :: string
  authorization :: "string option"
  contentType :: "string option"
  requestBody :: "string option"

record transportErr =
  isDeadline :: bool
  isCertificate :: bool
  isDNS :: bool
  isUnexpectedEOF :: bool
  isOp :: bool
  leafText :: string

datatype exchange =
    Response bool int string "transportErr option"
  | NoResponse bool transportErr

text \<open>The file system operations that can fail.\<close>

datatype fsOp =
    FsRead | FsMkdir | FsCreateTemp | FsChmod | FsWrite | FsClose | FsRename | FsRemoveTemp | FsRemove
  | FsStat | FsKnownHosts | FsKnownHostsWrite | FsKnownHostsClose

record fileEntry =
  contents :: string
  mode :: nat

datatype sshResult = SshOk | SshExit int "32 word" | SshNotStarted string | SshBroken string

record world =
  server :: "call list \<Rightarrow> exchange"
  calls :: "call list"
  floats :: "string \<Rightarrow> string option"
  stdout :: "piece list"
  stdoutFails :: bool
  stderr :: "piece list"
  stderrFails :: bool
  stdin :: reader
  stdinIsTerminal :: bool
  hasTty :: bool
  ttyIn :: reader
  terminalStateFails :: bool
  hidden :: "string option list"
  random :: "byte list option"
  ticks :: nat
  budget :: nat
  configDir :: "string option"
  files :: "string \<Rightarrow> fileEntry option"
  fault :: "fsOp \<Rightarrow> bool"
  partialWrite :: nat
  freshName :: string
  browserStarts :: bool
  browsers :: "(string \<times> string list) list"
  goos :: string
  ssh :: "string list \<Rightarrow> sshResult \<times> string"
  sshRuns :: "(string list \<times> (string \<Rightarrow> fileEntry option)) list"

text \<open>A world in which nothing fails, for the examples: a server, and a saved login's directory.\<close>

definition quietWorld :: "(call list \<Rightarrow> exchange) \<Rightarrow> world" where
  "quietWorld srv =
     \<lparr>server = srv, calls = [], floats = Some, stdout = [], stdoutFails = False, stderr = [],
      stderrFails = False, stdin = \<lparr>unread = [], ends = EOF\<rparr>, stdinIsTerminal = True, hasTty = True,
      ttyIn = \<lparr>unread = [], ends = EOF\<rparr>, terminalStateFails = False, hidden = [],
      random = Some (replicate 16 0), ticks = 10, budget = 100, configDir = Some ''/home/u/.config'',
      files = (\<lambda>_. None), fault = (\<lambda>_. False), partialWrite = 0, freshName = ''1'',
      browserStarts = True, browsers = [], goos = ''linux'', ssh = (\<lambda>_. (SshOk, [])), sshRuns = []\<rparr>"

type_synonym 'a cmd = "(world, cliErr, 'a) action"

section \<open>Output\<close>

text \<open>A write to standard output whose error is returned, and one whose error is ignored.\<close>

definition put :: "piece list \<Rightarrow> unit cmd" where
  "put ps w =
     (if stdoutFails w then (Inl (msg ''write standard output''), w)
      else (Inr (), w\<lparr>stdout := stdout w @ ps\<rparr>))"

definition printOut :: "piece list \<Rightarrow> unit cmd" where
  "printOut ps w = (Inr (), snd (put ps w))"

definition say :: "string \<Rightarrow> unit cmd" where
  "say s = printOut [T (s @ [CHR 0x0A])]"

definition putErr :: "piece list \<Rightarrow> unit cmd" where
  "putErr ps w =
     (if stderrFails w then (Inl (msg ''write standard error''), w)
      else (Inr (), w\<lparr>stderr := stderr w @ ps\<rparr>))"

definition complain :: "piece list \<Rightarrow> unit cmd" where
  "complain ps w = (Inr (), snd (putErr ps w))"

text \<open>An action on one reader of the world.\<close>

definition onStdin :: "(reader, 'e, 'a) action \<Rightarrow> (world, 'e, 'a) action" where
  "onStdin m w = (case m (stdin w) of (r, rd) \<Rightarrow> (r, w\<lparr>stdin := rd\<rparr>))"

definition onTty :: "(reader, 'e, 'a) action \<Rightarrow> (world, 'e, 'a) action" where
  "onTty m w = (case m (ttyIn w) of (r, rd) \<Rightarrow> (r, w\<lparr>ttyIn := rd\<rparr>))"

text \<open>Every command works under a deadline, so the server answers finitely many of its requests
  before it, \<open>budget\<close> many; a later one fails at once and does not leave the client. \<open>ticks\<close> is
  likewise how often the ticker of a polling loop fires before the deadline.\<close>

definition deadlinePassed :: transportErr where
  "deadlinePassed = \<lparr>isDeadline = True, isCertificate = False, isDNS = False, isUnexpectedEOF = False,
     isOp = False, leafText = ''context deadline exceeded''\<rparr>"

text \<open>\<open>net/http\<close> refuses a header whose value holds a control byte other than a tab, before it
  sends anything.\<close>

definition headerText :: "string \<Rightarrow> bool" where
  "headerText s \<longleftrightarrow> list_all (\<lambda>c. c = CHR 0x09 \<or> 0x20 \<le> code c \<and> code c \<noteq> 0x7F) s"

definition badHeader :: transportErr where
  "badHeader = \<lparr>isDeadline = False, isCertificate = False, isDNS = False, isUnexpectedEOF = False,
     isOp = False, leafText = ''net/http: invalid header field value for '' @ [CHR 0x22] @ ''Authorization'' @ [CHR 0x22]\<rparr>"

definition sendCall :: "call \<Rightarrow> world \<Rightarrow> exchange \<times> world" where
  "sendCall c w =
     (if \<not> (case authorization c of None \<Rightarrow> True | Some h \<Rightarrow> headerText h) then (NoResponse False badHeader, w)
      else case budget w of
        0 \<Rightarrow> (NoResponse False deadlinePassed, w)
      | Suc n \<Rightarrow> (server w (calls w @ [c]), w\<lparr>calls := calls w @ [c], budget := n\<rparr>))"

text \<open>\<open>defer\<close>: what runs whether or not the body failed.\<close>

definition deferred :: "unit cmd \<Rightarrow> 'a cmd \<Rightarrow> 'a cmd" where
  "deferred after m w = (case m w of (r, w') \<Rightarrow> (r, snd (after w')))"

definition guardThat :: "bool \<Rightarrow> cliErr \<Rightarrow> unit cmd" where
  "guardThat ok e = (if ok then succeed () else failWith e)"

definition getWorld :: "world cmd" where
  "getWorld w = (Inr w, w)"

fun eachDo :: "('a \<Rightarrow> unit cmd) \<Rightarrow> 'a list \<Rightarrow> unit cmd" where
  "eachDo f [] = succeed ()"
| "eachDo f (x # xs) = attempt (f x) (\<lambda>_. eachDo f xs)"

definition showInt :: "int \<Rightarrow> string" where
  "showInt = itoa"

definition noServer :: "call list \<Rightarrow> exchange" where
  "noServer cs = NoResponse False deadlinePassed"

section \<open>Frames\<close>

text \<open>Which calls a command has added, and that it forgets none.\<close>

definition grows :: "world \<Rightarrow> world \<Rightarrow> bool" where
  "grows w w' \<longleftrightarrow> (\<exists>cs. calls w' = calls w @ cs) \<and> server w' = server w"

lemma grows_refl_trans: "reflp grows" "transp grows"
  by (auto simp: reflp_def transp_def grows_def)

lemma keeps_eachDo:
  assumes "reflp R" and "transp R" and "\<And>x. keeps R (f x)"
  shows "keeps R (eachDo f xs)"
  by (induction xs) (simp_all add: assms keeps_attempt)

lemma guardThat_run [result_simps]:
  "guardThat True e w = (Inr (), w)" "guardThat False e w = (Inl e, w)"
  by (simp_all add: guardThat_def succeed_def failWith_def)

end
