(* ===== verification/Cli_Types.thy ===== *)
theory Cli_Types
  imports Go_Marshal
begin

text \<open>
  What the server sends (the types of \<open>cli/internal/api/client.go\<close>) and how
  \<open>encoding/json\<close> fills them. A field keeps its Go name with the type's name in front where two
  types share one; a Go int is an integer whose range the decoder checks, a pointer is an option, and
  a nil map or raw message is \<open>None\<close>.
\<close>

section \<open>Values of any type\<close>

text \<open>
  \<open>map[string]any\<close>: an object becomes a map, in which the last of two equal keys wins, and a
  number becomes a float. The text \<open>encoding/json\<close> prints for the float nearest to a number is
  given by \<open>fl\<close>, \<open>None\<close> when it is out of range.
\<close>

fun decAny :: "(string \<Rightarrow> string option) \<Rightarrow> json \<Rightarrow> json \<times> bool" where
  "decAny fl (JNum n) = (case fl n of Some t \<Rightarrow> (JNum t, True) | None \<Rightarrow> (JNull, False))"
| "decAny fl (JArr js) =
     (JArr (map (\<lambda>j. fst (decAny fl j)) js), list_all (\<lambda>j. snd (decAny fl j)) js)"
| "decAny fl (JObj kvs) =
     (JObj (rawFields (map (\<lambda>(k, j). (k, fst (decAny fl j))) kvs)),
      list_all (\<lambda>(k, j). snd (decAny fl j)) kvs)"
| "decAny fl j = (j, True)"

fun decAnyMap :: "(string \<Rightarrow> string option) \<Rightarrow> (string \<times> json) list option decoder" where
  "decAnyMap fl (JObj kvs) old =
     (Some (rawFields ((case old of None \<Rightarrow> [] | Some m \<Rightarrow> m) @ map (\<lambda>(k, j). (k, fst (decAny fl j))) kvs)),
      list_all (\<lambda>(k, j). snd (decAny fl j)) kvs)"
| "decAnyMap fl JNull old = (None, True)"
| "decAnyMap fl _ old = (old, False)"

text \<open>\<open>json.Marshal\<close> writes the keys of a map in order, at every depth.\<close>

fun marshalAny :: "json \<Rightarrow> json" where
  "marshalAny (JArr js) = JArr (map marshalAny js)"
| "marshalAny (JObj kvs) = JObj (sortMembers (map (\<lambda>(k, j). (k, marshalAny j)) kvs))"
| "marshalAny j = j"

text \<open>\<open>map[string][]string\<close>, and \<open>json.RawMessage\<close>.\<close>

fun decStringLists :: "(string \<times> string list) list decoder" where
  "decStringLists (JObj kvs) old =
     (foldl (\<lambda>m (k, j). AList.update k (fst (decSlice decString [] j [])) m) old kvs,
      list_all (\<lambda>(k, j). snd (decSlice decString [] j [])) kvs)"
| "decStringLists JNull old = ([], True)"
| "decStringLists _ old = (old, False)"

definition decRaw :: "json option decoder" where
  "decRaw j old = (Some j, True)"

section \<open>Types\<close>

record role =
  roleKind :: string
  roleShell :: bool
  viewPorts :: "int list"

record desired =
  revision :: int
  desiredState :: string
  environmentID :: string

record container =
  containerKind :: string
  containerIncarnationID :: string
  containerState :: string
  containerStatus :: "int option"

record waitingFor =
  waitingKind :: string
  waitingSource :: string

record failure =
  stage :: string
  failureCode :: string
  retry :: string
  failureMessage :: string
  diagnosticRef :: string
  failureRevision :: int

record actual =
  actualKind :: string
  receivedAt :: string
  freshness :: string
  installedEnvironment :: string
  actualContainer :: container
  actualData :: string
  actualWaitingFor :: "waitingFor option"
  actualFailure :: "failure option"

record operationOutcome =
  outcomeKind :: string
  outcomeFailure :: "failure option"

record operation =
  operationID :: string
  operationKind :: string
  targetRevision :: int
  operationOutcome :: operationOutcome

record enforcement =
  enforcementKind :: string
  enforcementNodeID :: string

record access =
  accessRevision :: int
  accessEnforcement :: enforcement

record publication =
  publicationPort :: int
  publicationURL :: string

record biot =
  biotID :: string
  biotName :: string
  ownerID :: string
  biotNodeID :: string
  biotRole :: role
  biotDesired :: desired
  biotEnvironment :: "(string \<times> json) list option"
  biotActual :: actual
  biotNode :: string
  biotOperation :: "operation option"
  biotAccess :: access
  biotPublications :: "publication list"
  directSecretExposurePossible :: bool

record hostKey =
  hostKeyType :: string
  hostPublicKey :: string
  hostFingerprint :: string

record sshDetails =
  sshHost :: string
  sshPort :: int
  hostKeys :: "hostKey list"

record deployment =
  publicationDomain :: string
  deploymentSSH :: sshDetails

record lifecycleResult =
  resultOperationID :: string
  resultBiotID :: string
  resultRevision :: int

record policyResult =
  policyResultKind :: string
  policyBiotID :: string
  policyAccessRevision :: int
  policyEnforcement :: enforcement

record principal =
  principalID :: string
  principalEmail :: string
  principalName :: string

record credential =
  credentialID :: string
  credentialLabel :: string
  expiresAt :: string
  lastUsedAt :: string

record sshKey =
  sshKeyID :: string
  sshPublicKey :: string
  sshFingerprint :: string
  sshKeyLabel :: string

record node =
  nodeID :: string
  nodeStatus :: string
  nodePlatform :: string
  maxBiots :: int
  assignedBiots :: int
  nodeConnection :: string
  nodeOrphans :: "json option"

record grant =
  grantKind :: string
  grantPort :: int
  grantee :: principal

record grants =
  grantsOwner :: principal
  grantsList :: "grant list"

record logs =
  logsIncarnationID :: string
  logsContent :: string
  logsTruncated :: bool

record diagnostic =
  diagnosticContent :: string
  diagnosticTruncated :: bool

record secret =
  secretName :: string

section \<open>Zero values\<close>

definition zeroRole :: role where "zeroRole = \<lparr>roleKind = [], roleShell = False, viewPorts = []\<rparr>"

definition zeroDesired :: desired where
  "zeroDesired = \<lparr>revision = 0, desiredState = [], environmentID = []\<rparr>"

definition zeroContainer :: container where
  "zeroContainer = \<lparr>containerKind = [], containerIncarnationID = [], containerState = [],
     containerStatus = None\<rparr>"

definition zeroWaitingFor :: waitingFor where
  "zeroWaitingFor = \<lparr>waitingKind = [], waitingSource = []\<rparr>"

definition zeroFailure :: failure where
  "zeroFailure = \<lparr>stage = [], failureCode = [], retry = [], failureMessage = [], diagnosticRef = [],
     failureRevision = 0\<rparr>"

definition zeroActual :: actual where
  "zeroActual = \<lparr>actualKind = [], receivedAt = [], freshness = [], installedEnvironment = [],
     actualContainer = zeroContainer, actualData = [], actualWaitingFor = None, actualFailure = None\<rparr>"

definition zeroOperation :: operation where
  "zeroOperation = \<lparr>operationID = [], operationKind = [], targetRevision = 0,
     operationOutcome = \<lparr>outcomeKind = [], outcomeFailure = None\<rparr>\<rparr>"

definition zeroEnforcement :: enforcement where
  "zeroEnforcement = \<lparr>enforcementKind = [], enforcementNodeID = []\<rparr>"

definition zeroPublication :: publication where
  "zeroPublication = \<lparr>publicationPort = 0, publicationURL = []\<rparr>"

definition zeroBiot :: biot where
  "zeroBiot = \<lparr>biotID = [], biotName = [], ownerID = [], biotNodeID = [], biotRole = zeroRole,
     biotDesired = zeroDesired, biotEnvironment = None, biotActual = zeroActual, biotNode = [],
     biotOperation = None, biotAccess = \<lparr>accessRevision = 0, accessEnforcement = zeroEnforcement\<rparr>,
     biotPublications = [], directSecretExposurePossible = False\<rparr>"

definition zeroHostKey :: hostKey where
  "zeroHostKey = \<lparr>hostKeyType = [], hostPublicKey = [], hostFingerprint = []\<rparr>"

definition zeroDeployment :: deployment where
  "zeroDeployment = \<lparr>publicationDomain = [], deploymentSSH = \<lparr>sshHost = [], sshPort = 0, hostKeys = []\<rparr>\<rparr>"

definition zeroLifecycleResult :: lifecycleResult where
  "zeroLifecycleResult = \<lparr>resultOperationID = [], resultBiotID = [], resultRevision = 0\<rparr>"

definition zeroPolicyResult :: policyResult where
  "zeroPolicyResult = \<lparr>policyResultKind = [], policyBiotID = [], policyAccessRevision = 0,
     policyEnforcement = zeroEnforcement\<rparr>"

definition zeroPrincipal :: principal where
  "zeroPrincipal = \<lparr>principalID = [], principalEmail = [], principalName = []\<rparr>"

definition zeroCredential :: credential where
  "zeroCredential = \<lparr>credentialID = [], credentialLabel = [], expiresAt = [], lastUsedAt = []\<rparr>"

definition zeroSSHKey :: sshKey where
  "zeroSSHKey = \<lparr>sshKeyID = [], sshPublicKey = [], sshFingerprint = [], sshKeyLabel = []\<rparr>"

definition zeroNode :: node where
  "zeroNode = \<lparr>nodeID = [], nodeStatus = [], nodePlatform = [], maxBiots = 0, assignedBiots = 0,
     nodeConnection = [], nodeOrphans = None\<rparr>"

definition zeroGrant :: grant where
  "zeroGrant = \<lparr>grantKind = [], grantPort = 0, grantee = zeroPrincipal\<rparr>"

section \<open>Decoders\<close>

definition decRole :: "role decoder" where
  "decRole = decStruct
     [(''kind'', field roleKind roleKind_update decString),
      (''shell'', field roleShell roleShell_update decBool),
      (''view_ports'', field viewPorts viewPorts_update (decSlice decInt 0))]"

definition decDesired :: "desired decoder" where
  "decDesired = decStruct
     [(''revision'', field revision revision_update decInt),
      (''state'', field desiredState desiredState_update decString),
      (''environment_id'', field environmentID environmentID_update decString)]"

definition decContainer :: "container decoder" where
  "decContainer = decStruct
     [(''kind'', field containerKind containerKind_update decString),
      (''incarnation_id'', field containerIncarnationID containerIncarnationID_update decString),
      (''state'', field containerState containerState_update decString),
      (''status'', field containerStatus containerStatus_update (decPtr decInt 0))]"

definition decWaitingFor :: "waitingFor decoder" where
  "decWaitingFor = decStruct
     [(''kind'', field waitingKind waitingKind_update decString),
      (''source'', field waitingSource waitingSource_update decString)]"

definition decFailure :: "failure decoder" where
  "decFailure = decStruct
     [(''stage'', field stage stage_update decString),
      (''code'', field failureCode failureCode_update decString),
      (''retry'', field retry retry_update decString),
      (''message'', field failureMessage failureMessage_update decString),
      (''diagnostic_ref'', field diagnosticRef diagnosticRef_update decString),
      (''target_revision'', field failureRevision failureRevision_update decInt)]"

definition decActual :: "actual decoder" where
  "decActual = decStruct
     [(''kind'', field actualKind actualKind_update decString),
      (''received_at'', field receivedAt receivedAt_update decString),
      (''freshness'', field freshness freshness_update decString),
      (''installed_environment'', field installedEnvironment installedEnvironment_update decString),
      (''container'', field actualContainer actualContainer_update decContainer),
      (''data'', field actualData actualData_update decString),
      (''waiting_for'', field actualWaitingFor actualWaitingFor_update (decPtr decWaitingFor zeroWaitingFor)),
      (''failure'', field actualFailure actualFailure_update (decPtr decFailure zeroFailure))]"

text \<open>\<open>UnmarshalJSON\<close> of \<open>OperationOutcome\<close>: the kind, and for a failed operation the failure
  that lies in the same object.\<close>

definition decOutcome :: "operationOutcome decoder" where
  "decOutcome j old =
     (case decStruct [(''kind'', decString)] j [] of
        (k, ok) \<Rightarrow>
          if \<not> ok then (old, False)
          else if k = ''failed'' then
            (case decFailure j zeroFailure of
               (f, ok2) \<Rightarrow>
                 if \<not> ok2 then (old\<lparr>outcomeKind := k\<rparr>, False)
                 else (old\<lparr>outcomeKind := k, outcomeFailure := Some f\<rparr>, True))
          else (old\<lparr>outcomeKind := k\<rparr>, True))"

definition decOperation :: "operation decoder" where
  "decOperation = decStruct
     [(''id'', field operationID operationID_update decString),
      (''kind'', field operationKind operationKind_update decString),
      (''target_revision'', field targetRevision targetRevision_update decInt),
      (''outcome'', field operationOutcome operationOutcome_update decOutcome)]"

definition decEnforcement :: "enforcement decoder" where
  "decEnforcement = decStruct
     [(''kind'', field enforcementKind enforcementKind_update decString),
      (''node_id'', field enforcementNodeID enforcementNodeID_update decString)]"

definition decAccess :: "access decoder" where
  "decAccess = decStruct
     [(''revision'', field accessRevision accessRevision_update decInt),
      (''enforcement'', field accessEnforcement accessEnforcement_update decEnforcement)]"

definition decPublication :: "publication decoder" where
  "decPublication = decStruct
     [(''port'', field publicationPort publicationPort_update decInt),
      (''url'', field publicationURL publicationURL_update decString)]"

definition decBiot :: "(string \<Rightarrow> string option) \<Rightarrow> biot decoder" where
  "decBiot fl = decStruct
     [(''id'', field biotID biotID_update decString),
      (''name'', field biotName biotName_update decString),
      (''owner_id'', field ownerID ownerID_update decString),
      (''node_id'', field biotNodeID biotNodeID_update decString),
      (''role'', field biotRole biotRole_update decRole),
      (''desired'', field biotDesired biotDesired_update decDesired),
      (''environment'', field biotEnvironment biotEnvironment_update (decAnyMap fl)),
      (''actual'', field biotActual biotActual_update decActual),
      (''node'', field biotNode biotNode_update decString),
      (''operation'', field biotOperation biotOperation_update (decPtr decOperation zeroOperation)),
      (''access'', field biotAccess biotAccess_update decAccess),
      (''publications'', field biotPublications biotPublications_update (decSlice decPublication zeroPublication)),
      (''direct_secret_exposure_possible'',
        field directSecretExposurePossible directSecretExposurePossible_update decBool)]"

definition decHostKey :: "hostKey decoder" where
  "decHostKey = decStruct
     [(''type'', field hostKeyType hostKeyType_update decString),
      (''public_key'', field hostPublicKey hostPublicKey_update decString),
      (''fingerprint'', field hostFingerprint hostFingerprint_update decString)]"

definition decDeployment :: "deployment decoder" where
  "decDeployment = decStruct
     [(''publication_domain'', field publicationDomain publicationDomain_update decString),
      (''ssh'', field deploymentSSH deploymentSSH_update (decStruct
        [(''host'', field sshHost sshHost_update decString),
         (''port'', field sshPort sshPort_update decInt),
         (''host_keys'', field hostKeys hostKeys_update (decSlice decHostKey zeroHostKey))]))]"

definition decLifecycleResult :: "lifecycleResult decoder" where
  "decLifecycleResult = decStruct
     [(''operation_id'', field resultOperationID resultOperationID_update decString),
      (''biot_id'', field resultBiotID resultBiotID_update decString),
      (''revision'', field resultRevision resultRevision_update decInt)]"

definition decPolicyResult :: "policyResult decoder" where
  "decPolicyResult = decStruct
     [(''result'', field policyResultKind policyResultKind_update decString),
      (''biot_id'', field policyBiotID policyBiotID_update decString),
      (''access_revision'', field policyAccessRevision policyAccessRevision_update decInt),
      (''enforcement'', field policyEnforcement policyEnforcement_update decEnforcement)]"

definition decPrincipal :: "principal decoder" where
  "decPrincipal = decStruct
     [(''id'', field principalID principalID_update decString),
      (''email'', field principalEmail principalEmail_update decString),
      (''name'', field principalName principalName_update decString)]"

definition decCredential :: "credential decoder" where
  "decCredential = decStruct
     [(''id'', field credentialID credentialID_update decString),
      (''label'', field credentialLabel credentialLabel_update decString),
      (''expires_at'', field expiresAt expiresAt_update decString),
      (''last_used_at'', field lastUsedAt lastUsedAt_update decString)]"

definition decSSHKey :: "sshKey decoder" where
  "decSSHKey = decStruct
     [(''id'', field sshKeyID sshKeyID_update decString),
      (''public_key'', field sshPublicKey sshPublicKey_update decString),
      (''fingerprint'', field sshFingerprint sshFingerprint_update decString),
      (''label'', field sshKeyLabel sshKeyLabel_update decString)]"

definition decNode :: "node decoder" where
  "decNode = decStruct
     [(''id'', field nodeID nodeID_update decString),
      (''status'', field nodeStatus nodeStatus_update decString),
      (''platform'', field nodePlatform nodePlatform_update decString),
      (''max_biots'', field maxBiots maxBiots_update decInt),
      (''assigned_biots'', field assignedBiots assignedBiots_update decInt),
      (''connection'', field nodeConnection nodeConnection_update decString),
      (''orphans'', field nodeOrphans nodeOrphans_update decRaw)]"

definition decGrant :: "grant decoder" where
  "decGrant = decStruct
     [(''kind'', field grantKind grantKind_update decString),
      (''port'', field grantPort grantPort_update decInt),
      (''principal'', field grantee grantee_update decPrincipal)]"

definition decGrants :: "grants decoder" where
  "decGrants = decStruct
     [(''owner'', field grantsOwner grantsOwner_update decPrincipal),
      (''grants'', field grantsList grantsList_update (decSlice decGrant zeroGrant))]"

definition decLogs :: "logs decoder" where
  "decLogs = decStruct
     [(''incarnation_id'', field logsIncarnationID logsIncarnationID_update decString),
      (''content'', field logsContent logsContent_update decString),
      (''truncated'', field logsTruncated logsTruncated_update decBool)]"

definition decDiagnostic :: "diagnostic decoder" where
  "decDiagnostic = decStruct
     [(''content'', field diagnosticContent diagnosticContent_update decString),
      (''truncated'', field diagnosticTruncated diagnosticTruncated_update decBool)]"

definition decSecret :: "secret decoder" where
  "decSecret = decStruct [(''name'', field secretName secretName_update decString)]"

end
