(* ===== verification/Cli_Vocabulary.thy ===== *)
theory Cli_Vocabulary
  imports Cli_Error "HOL-Library.Multiset"
begin

text \<open>
  The error vocabulary of \<open>cli/internal/api/client.go\<close>: the two embedded artifacts and their
  parsers, the checks of \<open>init\<close>, and the sentences the client prints for an API error. A Go map
  that is only read is an association list; the two maps a server sends are association lists in
  the order the iteration happens to take.
\<close>

section \<open>The artifacts\<close>

definition artifact :: "string list list \<Rightarrow> string" where
  "artifact rows = concat (map (\<lambda>r. joinWith ''|'' r @ [CHR 0x0A]) rows)"

definition vocabularyRows :: "string list list" where
  "vocabularyRows =
    [[''already_registered'', ''field'', ''0'', ''is already registered; use a different key.'', ''none''],
     [''capacity_exceeded'', ''command'', ''0'', ''The selected node has no available capacity.'', ''none''],
     [''creation_conflict'', ''command'', ''0'', ''A Biot with that ID is already being created.'', ''none''],
     [''destroyed'', ''command'', ''0'', ''This Biot has been destroyed.'', ''none''],
     [''embedded_credentials'', ''field'', ''0'', ''must not embed credentials; deliver them as a source-fetch credential instead.'', ''none''],
     [''forbidden'', ''command'', ''0'', ''You do not have permission to do that.'', ''none''],
     [''hostname_conflict'', ''command'', ''0'', ''That hostname is already in use.'', ''none''],
     [''invalid_format'', ''field'', ''0'', ''has an invalid format.'', ''none''],
     [''invalid_input'', ''command'', ''0'', ''The request contains invalid input.'', ''none''],
     [''invalid_value'', ''field'', ''0'', ''has an invalid value.'', ''none''],
     [''missing'', ''field'', ''0'', ''is required.'', ''none''],
     [''name_conflict'', ''command'', ''0'', ''That Biot name is already in use.'', ''none''],
     [''name_too_long'', ''field'', ''63'', ''is longer than 63 characters; shorten it.'', ''none''],
     [''no_default_node'', ''field'', ''0'', ''is required because the server has no default node; choose one.'', ''none''],
     [''node_abandoned'', ''command'', ''0'', ''The selected node is abandoned.'', ''none''],
     [''node_disabled'', ''command'', ''0'', ''The selected node is disabled.'', ''none''],
     [''not_found'', ''command'', ''0'', ''That resource was not found.'', ''none''],
     [''not_future'', ''field'', ''0'', ''must be in the future; choose a later time.'', ''none''],
     [''not_ready'', ''field'', ''0'', ''is not ready yet.'', ''none''],
     [''nul_byte'', ''field'', ''0'', ''must not contain a NUL byte.'', ''none''],
     [''out_of_range'', ''field'', ''0'', ''is outside the allowed range.'', ''none''],
     [''publication_not_active'', ''field'', ''0'', ''is no longer active.'', ''required''],
     [''repository_url_too_long'', ''field'', ''2048'', ''is longer than 2048 characters; shorten it.'', ''none''],
     [''reserved_name'', ''field'', ''0'', ''is reserved; choose another name.'', ''none''],
     [''revision_conflict'', ''command'', ''0'', ''This Biot changed; its current revision is {revision}.'', ''required''],
     [''secret_value_too_large'', ''field'', ''65536'', ''is larger than 65536 bytes; shorten it.'', ''none''],
     [''source_ref_too_long'', ''field'', ''256'', ''is longer than 256 characters; shorten it.'', ''none''],
     [''temporarily_unavailable'', ''command'', ''0'', ''The server could not provide that resource right now.'', ''none''],
     [''too_far'', ''field'', ''0'', ''is beyond the allowed lifetime; choose an earlier time.'', ''none''],
     [''too_many_layers'', ''field'', ''16'', ''has more than 16 layers; remove one.'', ''none''],
     [''unauthenticated'', ''command'', ''0'', ''Your session is no longer valid.'', ''required''],
     [''unknown_principal'', ''field'', ''0'', ''does not identify a known principal; check the email address.'', ''none'']]"

definition vocabularyFile :: string where
  "vocabularyFile = artifact vocabularyRows"

definition fieldLabelRows :: "string list list" where
  "fieldLabelRows =
    [[''email'', ''email''],
     [''environment'', ''environment''],
     [''expires_at'', ''expiry''],
     [''form'', ''form''],
     [''id'', ''id''],
     [''initial_state'', ''initial state''],
     [''kind'', ''grant''],
     [''label'', ''label''],
     [''name'', ''name''],
     [''node_id'', ''node''],
     [''port'', ''port''],
     [''public_key'', ''public key''],
     [''repository'', ''repository''],
     [''runtime_secrets'', ''runtime secret''],
     [''source_credentials'', ''source-fetch credential''],
     [''value'', ''value'']]"

definition fieldLabelsFile :: string where
  "fieldLabelsFile = artifact fieldLabelRows"

section \<open>Parsing them\<close>

record vocabularyEntry =
  kind :: string
  limit :: int
  sentence :: string
  remedy :: bool

type_synonym vocab = "(string \<times> vocabularyEntry) list"

fun parseVocabularyLines :: "string \<Rightarrow> string list \<Rightarrow> (string, vocab) result" where
  "parseVocabularyLines previous [] = Inr []"
| "parseVocabularyLines previous (line # rest) =
     (let parts = splitOn CHR ''|'' line in
      if length parts \<noteq> 5 \<or> parts ! 0 = [] \<or> parts ! 1 = [] \<or> parts ! 3 = []
      then Inl ''embedded CLI vocabulary artifact has an invalid line''
      else if parts ! 0 \<le> previous
      then Inl ''embedded CLI vocabulary artifact must be sorted and unique''
      else if parts ! 1 \<noteq> ''field'' \<and> parts ! 1 \<noteq> ''command''
      then Inl ''embedded CLI vocabulary artifact has an invalid kind''
      else case atoi (parts ! 2) of
        None \<Rightarrow> Inl ''embedded CLI vocabulary artifact has an invalid limit''
      | Some lim \<Rightarrow>
          if lim < 0 then Inl ''embedded CLI vocabulary artifact has an invalid limit''
          else if parts ! 4 \<noteq> ''none'' \<and> parts ! 4 \<noteq> ''required''
          then Inl ''embedded CLI vocabulary artifact has an invalid remedy marker''
          else andThen (parseVocabularyLines (parts ! 0) rest) (\<lambda>entries.
            Inr ((parts ! 0, \<lparr>kind = parts ! 1, limit = lim, sentence = parts ! 3,
                              remedy = (parts ! 4 = ''required'')\<rparr>) # entries)))"

definition parseVocabulary :: "string \<Rightarrow> (string, vocab) result" where
  "parseVocabulary contents =
     (if \<not> hasSuffix contents [CHR 0x0A]
      then Inl ''embedded CLI vocabulary artifact must end with a newline''
      else let lines = splitOn CHR 0x0A (trimSuffix contents [CHR 0x0A]) in
        if hd lines = [] then Inl ''embedded CLI vocabulary artifact must not be empty''
        else parseVocabularyLines [] lines)"

fun parseLabelLines :: "string \<Rightarrow> string list \<Rightarrow> (string, (string \<times> string) list) result" where
  "parseLabelLines previous [] = Inr []"
| "parseLabelLines previous (line # rest) =
     (let parts = splitOn CHR ''|'' line in
      if length parts \<noteq> 2 \<or> parts ! 0 = [] \<or> parts ! 1 = []
      then Inl ''embedded CLI field-label artifact has an invalid line''
      else if parts ! 0 \<le> previous
      then Inl ''embedded CLI field-label artifact must be sorted and unique''
      else andThen (parseLabelLines (parts ! 0) rest) (\<lambda>labels.
        Inr ((parts ! 0, parts ! 1) # labels)))"

definition parseFieldLabels :: "string \<Rightarrow> (string, (string \<times> string) list) result" where
  "parseFieldLabels contents =
     (if \<not> hasSuffix contents [CHR 0x0A]
      then Inl ''embedded CLI field-label artifact must end with a newline''
      else let lines = splitOn CHR 0x0A (trimSuffix contents [CHR 0x0A]) in
        if hd lines = [] then Inl ''embedded CLI field-label artifact must not be empty''
        else parseLabelLines [] lines)"

text \<open>The package variables. A panic in their initialisation would end the process; it is the
  empty map here, and \<open>vocabulary_parses\<close> shows that it does not happen.\<close>

definition vocabulary :: vocab where
  "vocabulary = (case parseVocabulary vocabularyFile of Inr v \<Rightarrow> v | Inl _ \<Rightarrow> [])"

definition fieldLabels :: "(string \<times> string) list" where
  "fieldLabels = (case parseFieldLabels fieldLabelsFile of Inr v \<Rightarrow> v | Inl _ \<Rightarrow> [])"

text \<open>The arguments about the artifacts do not evaluate the parsers on the text: splitting undoes
  joining.\<close>

definition plainRow :: "string list \<Rightarrow> bool" where
  "plainRow r \<longleftrightarrow> r \<noteq> [] \<and> list_all (\<lambda>p. CHR ''|'' \<notin> set p \<and> CHR 0x0A \<notin> set p) r"

lemma artifact_lines:
  assumes "rows \<noteq> []" and "list_all plainRow rows"
  shows "hasSuffix (artifact rows) [CHR 0x0A]"
    "splitOn CHR 0x0A (trimSuffix (artifact rows) [CHR 0x0A]) = map (joinWith ''|'') rows"
proof -
  let ?lines = "map (joinWith ''|'') rows"
  have a: "artifact rows = joinWith [CHR 0x0A] ?lines @ [CHR 0x0A]"
    using assms(1) unfolding artifact_def
  proof (induction rows)
    case (Cons r rs)
    then show ?case by (cases rs) simp_all
  qed simp
  show "hasSuffix (artifact rows) [CHR 0x0A]"
    by (simp add: a hasSuffix_def hasPrefix_def)
  have n: "CHR 0x0A \<notin> set (joinWith ''|'' r)" if "plainRow r" for r
    using that unfolding plainRow_def
    by (induction "''|''" r rule: joinWith.induct) auto
  have "splitOn CHR 0x0A (joinWith [CHR 0x0A] ?lines) = ?lines"
    by (rule splitOn_joinWith) (use assms n in \<open>auto simp: list_all_iff\<close>)
  then show "splitOn CHR 0x0A (trimSuffix (artifact rows) [CHR 0x0A]) = ?lines"
    by (simp add: a trimSuffix_def hasSuffix_def hasPrefix_def)
qed

lemma split_row: "plainRow r \<Longrightarrow> splitOn CHR ''|'' (joinWith ''|'' r) = r"
  by (rule splitOn_joinWith) (auto simp: plainRow_def list_all_iff)


fun rowsOk :: "string \<Rightarrow> string list list \<Rightarrow> bool" where
  "rowsOk previous [] \<longleftrightarrow> True"
| "rowsOk previous (r # rs) \<longleftrightarrow>
     plainRow r \<and> length r = 5 \<and> r ! 0 \<noteq> [] \<and> r ! 3 \<noteq> [] \<and> previous < r ! 0 \<and>
     (r ! 1 = ''field'' \<or> r ! 1 = ''command'') \<and> (r ! 4 = ''none'' \<or> r ! 4 = ''required'') \<and>
     (case atoi (r ! 2) of None \<Rightarrow> False | Some n \<Rightarrow> 0 \<le> n) \<and> rowsOk (r ! 0) rs"

definition rowEntry :: "string list \<Rightarrow> string \<times> vocabularyEntry" where
  "rowEntry r = (r ! 0, \<lparr>kind = r ! 1, limit = the (atoi (r ! 2)), sentence = r ! 3,
     remedy = (r ! 4 = ''required'')\<rparr>)"

lemma parseVocabularyLines_rows:
  "rowsOk previous rows \<Longrightarrow>
     parseVocabularyLines previous (map (joinWith ''|'') rows) = Inr (map rowEntry rows)"
proof (induction rows arbitrary: previous)
  case (Cons r rs)
  then have r: "splitOn CHR ''|'' (joinWith ''|'' r) = r" by (simp add: split_row)
  have "\<not> r ! 0 \<le> previous" using Cons.prems by (simp add: not_le)
  with Cons r show ?case
    by (auto simp: Let_def rowEntry_def split: option.splits)
qed simp

lemma rowsOk_plain: "rowsOk previous rows \<Longrightarrow> list_all plainRow rows"
  by (induction rows arbitrary: previous) auto

lemma atoi_limits [simp]:
  "atoi ''0'' = Some 0" "atoi ''63'' = Some 63" "atoi ''2048'' = Some 2048" "atoi ''65536'' = Some 65536"
  "atoi ''256'' = Some 256" "atoi ''16'' = Some 16"
  by (simp_all add: atoi_def parseDigits_def isDigit_def digitVal_def digitsVal_def inInt64_def
      hasPrefix_def Let_def)

lemma vocabularyRows_ok: "rowsOk [] vocabularyRows"
  by (simp add: vocabularyRows_def plainRow_def less_char_def)

lemma vocabulary_parses: "parseVocabulary vocabularyFile = Inr (map rowEntry vocabularyRows)"
proof -
  have ne: "vocabularyRows \<noteq> []" by (simp add: vocabularyRows_def)
  note l = artifact_lines [OF ne rowsOk_plain [OF vocabularyRows_ok]]
  have "hd (map (joinWith ''|'') vocabularyRows) \<noteq> []" by (simp add: vocabularyRows_def)
  with l parseVocabularyLines_rows [OF vocabularyRows_ok] show ?thesis
    by (simp add: parseVocabulary_def vocabularyFile_def Let_def)
qed

lemma vocabulary_rows: "vocabulary = map rowEntry vocabularyRows"
  by (simp add: vocabulary_def vocabulary_parses)

fun labelRowsOk :: "string \<Rightarrow> string list list \<Rightarrow> bool" where
  "labelRowsOk previous [] \<longleftrightarrow> True"
| "labelRowsOk previous (r # rs) \<longleftrightarrow>
     plainRow r \<and> length r = 2 \<and> r ! 0 \<noteq> [] \<and> r ! 1 \<noteq> [] \<and> previous < r ! 0 \<and> labelRowsOk (r ! 0) rs"

lemma parseLabelLines_rows:
  "labelRowsOk previous rows \<Longrightarrow>
     parseLabelLines previous (map (joinWith ''|'') rows) = Inr (map (\<lambda>r. (r ! 0, r ! 1)) rows)"
proof (induction rows arbitrary: previous)
  case (Cons r rs)
  then have r: "splitOn CHR ''|'' (joinWith ''|'' r) = r" by (simp add: split_row)
  have "\<not> r ! 0 \<le> previous" using Cons.prems by (simp add: not_le)
  with Cons r show ?case by (simp add: Let_def)
qed simp

lemma labelRowsOk_plain: "labelRowsOk previous rows \<Longrightarrow> list_all plainRow rows"
  by (induction rows arbitrary: previous) auto

lemma fieldLabelRows_ok: "labelRowsOk [] fieldLabelRows"
  by code_simp

lemma fieldLabels_parse:
  "parseFieldLabels fieldLabelsFile = Inr (map (\<lambda>r. (r ! 0, r ! 1)) fieldLabelRows)"
proof -
  have ne: "fieldLabelRows \<noteq> []" by (simp add: fieldLabelRows_def)
  note l = artifact_lines [OF ne labelRowsOk_plain [OF fieldLabelRows_ok]]
  have "hd (map (joinWith ''|'') fieldLabelRows) \<noteq> []" by (simp add: fieldLabelRows_def)
  with l parseLabelLines_rows [OF fieldLabelRows_ok] show ?thesis
    by (simp add: parseFieldLabels_def fieldLabelsFile_def Let_def)
qed

lemma fieldLabels_rows: "fieldLabels = map (\<lambda>r. (r ! 0, r ! 1)) fieldLabelRows"
  by (simp add: fieldLabels_def fieldLabels_parse)

section \<open>Checks of the package's \<open>init\<close>\<close>

definition clientRemedies :: "(string \<times> string) list" where
  "clientRemedies =
    [(''unauthenticated'', ''Run biot login.''), (''revision_conflict'', ''Run the command again.''),
     (''publication_not_active'', ''choose an active publication.'')]"

definition expectedPlaceholders :: "(string \<times> string list) list" where
  "expectedPlaceholders = [(''revision_conflict'', [''revision''])]"

text \<open>The first group of every match of \<open>placeholderPattern\<close>, from left to right.\<close>

definition identStart :: "char \<Rightarrow> bool" where
  "identStart c \<longleftrightarrow> c \<in> set ''abcdefghijklmnopqrstuvwxyz_''"

definition identChar :: "char \<Rightarrow> bool" where
  "identChar c \<longleftrightarrow> identStart c \<or> c \<in> set ''0123456789''"

function placeholders :: "string \<Rightarrow> string list" where
  "placeholders [] = []"
| "placeholders (c # s) =
     (let name = takeWhile identChar s; rest = dropWhile identChar s in
      if c = CHR 0x7B \<and> name \<noteq> [] \<and> identStart (hd name) \<and> rest \<noteq> [] \<and> hd rest = CHR 0x7D
      then name # placeholders (tl rest)
      else placeholders s)"
  by pat_completeness auto
termination
proof (relation "measure length")
  fix c :: char and s name rest :: string
  assume "rest = dropWhile identChar s"
  then have "length rest \<le> length s" by (simp add: length_dropWhile_le)
  then show "(tl rest, c # s) \<in> measure length" by simp
qed simp_all

fun countChar :: "char \<Rightarrow> string \<Rightarrow> nat" where
  "countChar c [] = 0"
| "countChar c (x # xs) = (if x = c then Suc (countChar c xs) else countChar c xs)"

definition validatePlaceholders :: "string \<Rightarrow> string \<Rightarrow> (string, unit) result" where
  "validatePlaceholders reason sent =
     (let ps = placeholders sent;
          expected = (case map_of expectedPlaceholders reason of Some e \<Rightarrow> e | None \<Rightarrow> [])
      in if countChar CHR 0x7B sent \<noteq> length ps \<or> countChar CHR 0x7D sent \<noteq> length ps
         then Inl (''embedded CLI vocabulary artifact has an invalid placeholder for '' @ reason)
         else if ps \<noteq> expected
         then Inl (''embedded CLI vocabulary artifact has unexpected placeholders for '' @ reason)
         else Inr ())"

text \<open>The insertion sort of \<open>slicesSort\<close>: the inner loop carries the element at \<open>j\<close> down.\<close>

fun sinkDown :: "nat \<Rightarrow> string list \<Rightarrow> string list" where
  "sinkDown 0 vals = vals"
| "sinkDown (Suc j) vals =
     (if vals ! Suc j < vals ! j
      then sinkDown j (vals[Suc j := vals ! j, j := vals ! Suc j])
      else vals)"

definition slicesSort :: "string list \<Rightarrow> string list" where
  "slicesSort vals = fold sinkDown [1..<length vals] vals"

definition vocabularyNames :: "vocab \<Rightarrow> string \<Rightarrow> string list" where
  "vocabularyNames v wanted = slicesSort (map fst (filter (\<lambda>(n, e). kind e = wanted) v))"

text \<open>\<open>unicode.IsLower\<close> and \<open>IsUpper\<close> of the first rune; the remedies are ASCII.\<close>

definition firstLower :: "string \<Rightarrow> bool" where
  "firstLower s \<longleftrightarrow> s \<noteq> [] \<and> hd s \<in> set ''abcdefghijklmnopqrstuvwxyz''"

definition firstUpper :: "string \<Rightarrow> bool" where
  "firstUpper s \<longleftrightarrow> s \<noteq> [] \<and> hd s \<in> set ''ABCDEFGHIJKLMNOPQRSTUVWXYZ''"

definition checkName :: "vocab \<Rightarrow> string \<Rightarrow> string \<Rightarrow> string \<Rightarrow> (string, unit) result" where
  "checkName v wanted prefix name =
     (case map_of v name of
        None \<Rightarrow> Inl (prefix @ name)
      | Some e \<Rightarrow> if kind e \<noteq> wanted \<or> trimSpace (sentence e) = [] then Inl (prefix @ name) else Inr ())"

definition checkEntry :: "string \<times> vocabularyEntry \<Rightarrow> (string, unit) result" where
  "checkEntry ne =
     (case ne of (reason, e) \<Rightarrow>
        let r = map_of clientRemedies reason in
        if remedy e \<noteq> (r \<noteq> None) then Inl (''CLI remedy coverage is incomplete for '' @ reason)
        else if remedy e \<and> trimSpace (the r) = [] then Inl (''CLI remedy is empty for '' @ reason)
        else if remedy e \<and> ((kind e = ''field'' \<and> \<not> firstLower (the r)) \<or>
                             (kind e = ''command'' \<and> \<not> firstUpper (the r)))
        then Inl (''CLI remedy has the wrong capitalization for '' @ reason)
        else validatePlaceholders reason (sentence e))"

definition checkRemedy :: "vocab \<Rightarrow> string \<times> string \<Rightarrow> (string, unit) result" where
  "checkRemedy v nr =
     (case map_of v (fst nr) of
        None \<Rightarrow> Inl (''CLI remedy is not declared by the vocabulary for '' @ fst nr)
      | Some e \<Rightarrow> if remedy e then Inr ()
                  else Inl (''CLI remedy is not declared by the vocabulary for '' @ fst nr))"

fun checkAll :: "('a \<Rightarrow> (string, unit) result) \<Rightarrow> 'a list \<Rightarrow> (string, unit) result" where
  "checkAll f [] = Inr ()"
| "checkAll f (x # xs) = andThen (f x) (\<lambda>_. checkAll f xs)"

definition initChecks :: "vocab \<Rightarrow> (string, unit) result" where
  "initChecks v =
     andThen (checkAll (checkName v ''command'' ''CLI error vocabulary is incomplete for '')
       (vocabularyNames v ''command'')) (\<lambda>_.
     andThen (checkAll (checkName v ''field'' ''CLI field-error vocabulary is incomplete for '')
       (vocabularyNames v ''field'')) (\<lambda>_.
     andThen (checkAll checkEntry v) (\<lambda>_.
     checkAll (checkRemedy v) clientRemedies)))"

section \<open>Sentences\<close>

definition fieldLabel :: "string \<Rightarrow> string" where
  "fieldLabel fld = (case map_of fieldLabels fld of Some label \<Rightarrow> label | None \<Rightarrow> fld)"

definition reasonText :: "string \<Rightarrow> piece list" where
  "reasonText reason =
     (case map_of vocabulary reason of
        Some m \<Rightarrow> if kind m = ''field'' then [T (sentence m)]
          else [T ''has an unknown validation reason '', Q reason, T ''; update biot and try again.'']
      | None \<Rightarrow> [T ''has an unknown validation reason '', Q reason, T ''; update biot and try again.''])"

text \<open>\<open>strings.TrimSuffix(sentence, ".")\<close>; a quoted value never ends in a full stop.\<close>

definition trimStop :: "piece list \<Rightarrow> piece list" where
  "trimStop ps =
     (case rev ps of T s # front \<Rightarrow> rev front @ [T (trimSuffix s ''.'')] | _ \<Rightarrow> ps)"

definition sentenceWithRemedy :: "string \<Rightarrow> piece list \<Rightarrow> piece list" where
  "sentenceWithRemedy reason sent =
     (case map_of clientRemedies reason of
        Some r \<Rightarrow>
          if (case map_of vocabulary reason of Some e \<Rightarrow> kind e | None \<Rightarrow> []) = ''field''
          then trimStop sent @ [T (''; '' @ r)]
          else sent @ [T ('' '' @ r)]
      | None \<Rightarrow> sent)"

definition fieldReasonSentence :: "string \<Rightarrow> piece list" where
  "fieldReasonSentence reason = sentenceWithRemedy reason (reasonText reason)"

definition FieldReasonMessage :: "string \<Rightarrow> string \<Rightarrow> piece list" where
  "FieldReasonMessage fld reason = T (fieldLabel fld @ '' '') # fieldReasonSentence reason"

definition FieldReasonLimit :: "string \<Rightarrow> int \<times> bool" where
  "FieldReasonLimit reason =
     (case map_of vocabulary reason of
        Some e \<Rightarrow> (limit e, kind e = ''field'' \<and> 0 < limit e)
      | None \<Rightarrow> (0, False))"

definition commandSentence :: "string \<Rightarrow> (string, string) result" where
  "commandSentence tag =
     (case map_of vocabulary tag of
        Some e \<Rightarrow> if kind e \<noteq> ''command'' \<or> sentence e = []
          then Inl (''CLI command-error vocabulary is incomplete for '' @ tag) else Inr (sentence e)
      | None \<Rightarrow> Inl (''CLI command-error vocabulary is incomplete for '' @ tag))"

definition renderCommandSentence :: "string \<Rightarrow> (string \<times> string) list \<Rightarrow> (string, piece list) result" where
  "renderCommandSentence tag replacements =
     andThen (commandSentence tag) (\<lambda>sent.
       let sent = fold (\<lambda>(name, value) s. replaceAll (CHR 0x7B # name @ [CHR 0x7D]) value s) replacements sent
       in if placeholders sent \<noteq> [] then Inl (''CLI command-error vocabulary left a placeholder in '' @ tag)
          else Inr (sentenceWithRemedy tag [T sent]))"

definition invalidInputMessage :: "(string \<times> string list) list \<Rightarrow> (string, piece list) result" where
  "invalidInputMessage flds =
     (let keys = sort_key fieldLabel (map fst flds);
          fieldParts = (\<lambda>k. map (\<lambda>reason. T (fieldLabel k @ '' '') # fieldReasonSentence reason)
                               (the (map_of flds k)));
          parts = map (\<lambda>k. joinPieces '', '' (fieldParts k)) (filter (\<lambda>k. fieldParts k \<noteq> []) keys)
      in if parts = [] then andThen (commandSentence ''invalid_input'') (\<lambda>s. Inr [T s])
         else Inr (joinPieces ''; '' parts))"

text \<open>\<open>(e *Error) Error()\<close>.\<close>

fun apiErrorText :: "cliErr \<Rightarrow> (string, piece list) result" where
  "apiErrorText (ApiError tag st flds revision (Some c)) = Inr [W c]"
| "apiErrorText (ApiError tag st flds revision None) =
     (if tag = ''revision_conflict''
      then renderCommandSentence tag [(''revision'', itoa revision)]
      else if tag = ''invalid_input'' then invalidInputMessage flds
      else if tag = ''internal'' then Inr [T ''The server could not complete that request.'']
      else if (case map_of vocabulary tag of Some e \<Rightarrow> kind e = ''command'' | None \<Rightarrow> False)
      then renderCommandSentence tag []
      else if tag \<noteq> []
      then Inr [T ''The server returned an error this client does not understand (code '', Q tag,
             T ''). Update biot and try again.'']
      else Inr [T ''The server returned an unexpected response.''])"
| "apiErrorText e = Inr [W e]"

section \<open>Properties\<close>

lemma sinkDown_inserts:
  "\<exists>ys. sinkDown (length xs) (xs @ y # zs) = ys @ zs \<and> mset ys = add_mset y (mset xs)
     \<and> (sorted xs \<longrightarrow> sorted ys)"
proof (induction xs arbitrary: zs rule: rev_induct)
  case Nil
  then show ?case by (intro exI [of _ "[y]"]) simp
next
  case (snoc x xs)
  show ?case
  proof (cases "y < x")
    case True
    from snoc.IH [of "x # zs"] obtain ys where ys:
      "sinkDown (length xs) (xs @ y # x # zs) = ys @ x # zs" "mset ys = add_mset y (mset xs)"
      "sorted xs \<longrightarrow> sorted ys" by blast
    have "sinkDown (length (xs @ [x])) ((xs @ [x]) @ y # zs) = (ys @ [x]) @ zs"
      using True ys(1) by (simp add: nth_append list_update_append)
    moreover have "sorted (xs @ [x]) \<longrightarrow> sorted (ys @ [x])"
    proof
      assume "sorted (xs @ [x])"
      then have "sorted ys" "\<forall>z \<in> set xs. z \<le> x" using ys(3) by (simp_all add: sorted_append)
      moreover have "set ys = insert y (set xs)" using ys(2) by (metis set_mset_add_mset_insert set_mset_mset)
      ultimately show "sorted (ys @ [x])" using True by (auto simp: sorted_append)
    qed
    ultimately show ?thesis using ys(2) by (intro exI [of _ "ys @ [x]"]) simp
  next
    case False
    then have "sinkDown (length (xs @ [x])) ((xs @ [x]) @ y # zs) = (xs @ [x, y]) @ zs"
      by (simp add: nth_append)
    with False show ?thesis
      by (intro exI [of _ "xs @ [x, y]"]) (auto simp: sorted_append not_less)
  qed
qed

lemma slicesSort_prefix:
  "n \<le> length vals \<Longrightarrow> \<exists>ys. fold sinkDown [1..<n] vals = ys @ drop n vals \<and>
     mset ys = mset (take n vals) \<and> sorted ys"
proof (induction n)
  case (Suc n)
  then obtain ys where ys: "fold sinkDown [1..<n] vals = ys @ drop n vals"
    "mset ys = mset (take n vals)" "sorted ys" by auto
  let ?x = "vals ! n"
  have d: "drop n vals = ?x # drop (Suc n) vals" using Suc.prems by (simp add: Cons_nth_drop_Suc)
  have len: "length ys = n" using ys(2) Suc.prems by (metis length_take min.absorb2 size_mset Suc_leD)
  have t: "mset (take (Suc n) vals) = add_mset ?x (mset (take n vals))"
    using Suc.prems by (simp add: take_Suc_conv_app_nth)
  show ?case
  proof (cases n)
    case 0
    with ys(2) have "ys = []" by simp
    with 0 Suc.prems show ?thesis
      by (intro exI [of _ "take 1 vals"]) (cases "vals"; simp)
  next
    case (Suc k)
    from sinkDown_inserts [of ys ?x "drop (Suc n) vals"] len obtain zs where zs:
      "sinkDown n (ys @ ?x # drop (Suc n) vals) = zs @ drop (Suc n) vals"
      "mset zs = add_mset ?x (mset ys)" "sorted ys \<longrightarrow> sorted zs" by blast
    have "fold sinkDown [1..<Suc n] vals = sinkDown n (fold sinkDown [1..<n] vals)"
      using Suc by simp
    with zs ys d t show ?thesis by (intro exI [of _ zs]) simp
  qed
qed simp

text \<open>\<open>slicesSort\<close> sorts: the result is in ascending order and holds the same strings, each as
  often as before.\<close>

theorem slicesSort_sorts: "sorted (slicesSort vals) \<and> mset (slicesSort vals) = mset vals"
  using slicesSort_prefix [of "length vals" vals] by (auto simp: slicesSort_def)

lemma set_slicesSort: "set (slicesSort vals) = set vals"
  using slicesSort_prefix [of "length vals" vals]
  by (metis append_Nil2 drop_all le_refl set_mset_mset slicesSort_def take_all)

lemma checkAll_iff: "checkAll f xs = Inr () \<longleftrightarrow> (\<forall>x \<in> set xs. f x = Inr ())"
proof (induction xs)
  case (Cons x xs)
  then show ?case by (cases "f x") auto
qed simp

text \<open>A text that begins and ends with a visible ASCII character has no space to trim.\<close>

definition visible :: "char \<Rightarrow> bool" where
  "visible c \<longleftrightarrow> 0x20 < code c \<and> code c < 0x80"

lemma stripFront_id: "\<forall>e \<in> set es. e \<noteq> [] \<longrightarrow> hd e \<noteq> c \<Longrightarrow> stripFront es (c # s) = c # s"
proof -
  assume a: "\<forall>e \<in> set es. e \<noteq> [] \<longrightarrow> hd e \<noteq> c"
  have "filter (\<lambda>e. e \<noteq> [] \<and> hasPrefix (c # s) e) es = []"
    using a by (auto simp: filter_empty_conv hasPrefix_iff Cons_eq_append_conv)
  then show ?thesis by (subst stripFront.simps) simp
qed

lemma spaceEncodings_invisible:
  "\<forall>e \<in> set spaceEncodings. e \<noteq> [] \<and> \<not> visible (hd e) \<and> \<not> visible (last e)"
  by (simp add: spaceEncodings_def visible_def code_def)

lemma trimSpace_id:
  assumes "s \<noteq> []" and "visible (hd s)" and "visible (last s)"
  shows "trimSpace s = s"
proof -
  obtain c t where s: "s = c # t" using assms(1) by (cases s) auto
  have "stripFront spaceEncodings s = s"
    unfolding s by (rule stripFront_id) (use assms(2) s spaceEncodings_invisible in auto)
  moreover obtain d u where r: "rev s = d # u" "d = last s"
    using assms(1) by (metis hd_Cons_tl hd_rev rev_is_Nil_conv)
  have "stripFront (map rev spaceEncodings) (rev s) = rev s"
    unfolding r(1) by (rule stripFront_id)
      (use assms(3) r(2) spaceEncodings_invisible in \<open>auto simp: hd_rev\<close>)
  ultimately show ?thesis by (simp add: trimSpace_def)
qed

lemma placeholders_none: "CHR 0x7B \<notin> set s \<Longrightarrow> placeholders s = []"
  by (induction s rule: placeholders.induct) (auto simp: Let_def)

lemma countChar_none: "c \<notin> set s \<Longrightarrow> countChar c s = 0"
  by (induction s) auto

definition plainSentence :: "string \<Rightarrow> bool" where
  "plainSentence s \<longleftrightarrow> s \<noteq> [] \<and> visible (hd s) \<and> visible (last s) \<and> CHR 0x7B \<notin> set s \<and> CHR 0x7D \<notin> set s"

lemma vocabularyRows_sentences:
  "list_all (\<lambda>r. if r ! 0 = ''revision_conflict''
      then r ! 3 = ''This Biot changed; its current revision is {revision}.''
      else plainSentence (r ! 3)) vocabularyRows"
  by (simp add: vocabularyRows_def plainSentence_def visible_def code_def)

lemma revision_sentence:
  "placeholders ''This Biot changed; its current revision is {revision}.'' = [''revision'']"
  "countChar CHR 0x7B ''This Biot changed; its current revision is {revision}.'' = 1"
  "countChar CHR 0x7D ''This Biot changed; its current revision is {revision}.'' = 1"
  by code_simp+

lemma validate_plain:
  "plainSentence s \<Longrightarrow> map_of expectedPlaceholders reason = None \<Longrightarrow> validatePlaceholders reason s = Inr ()"
  by (simp add: validatePlaceholders_def plainSentence_def placeholders_none countChar_none)

lemma validate_revision:
  "validatePlaceholders ''revision_conflict'' ''This Biot changed; its current revision is {revision}.'' = Inr ()"
  unfolding validatePlaceholders_def revision_sentence by (simp add: expectedPlaceholders_def)

lemma validate_row: "r \<in> set vocabularyRows \<Longrightarrow> validatePlaceholders (r ! 0) (r ! 3) = Inr ()"
proof -
  assume "r \<in> set vocabularyRows"
  note s = bspec [OF vocabularyRows_sentences [unfolded list_all_iff] this]
  show ?thesis
  proof (cases "r ! 0 = ''revision_conflict''")
    case True
    with s have "r ! 3 = ''This Biot changed; its current revision is {revision}.''" by (simp only: if_True)
    then show ?thesis unfolding True by (simp only: validate_revision)
  next
    case False
    then have "map_of expectedPlaceholders (r ! 0) = None" by (simp add: expectedPlaceholders_def)
    with s False show ?thesis by (simp only: if_False validate_plain)
  qed
qed

lemma sentence_row: "r \<in> set vocabularyRows \<Longrightarrow> r ! 3 \<noteq> [] \<and> trimSpace (r ! 3) \<noteq> []"
proof -
  assume r: "r \<in> set vocabularyRows"
  have "r ! 3 \<noteq> [] \<and> visible (hd (r ! 3)) \<and> visible (last (r ! 3))"
    using bspec [OF vocabularyRows_sentences [unfolded list_all_iff] r]
    by (auto simp: plainSentence_def visible_def code_def split: if_splits)
  then show ?thesis by (simp add: trimSpace_id)
qed

lemma vocabularyRows_shape:
  "list_all (\<lambda>r. (r ! 1 = ''field'' \<or> r ! 1 = ''command'') \<and>
     (r ! 4 = ''required'') = (map_of clientRemedies (r ! 0) \<noteq> None) \<and>
     (r ! 0 = ''publication_not_active'' \<longrightarrow> r ! 1 = ''field'') \<and>
     (r ! 0 = ''unauthenticated'' \<or> r ! 0 = ''revision_conflict'' \<longrightarrow> r ! 1 = ''command'')) vocabularyRows"
  by (simp add: vocabularyRows_def clientRemedies_def)

lemma vocabulary_distinct: "distinct (map fst vocabulary)"
proof -
  have "distinct (map (\<lambda>r. r ! 0) vocabularyRows)" by (simp add: vocabularyRows_def)
  then show ?thesis by (simp add: vocabulary_rows rowEntry_def comp_def)
qed

lemma vocabulary_lookup: "map_of vocabulary n = Some e \<longleftrightarrow> (n, e) \<in> set vocabulary"
  by (simp add: vocabulary_distinct)

lemma vocabulary_member:
  assumes "(n, e) \<in> set vocabulary"
  obtains r where "r \<in> set vocabularyRows" "n = r ! 0" "kind e = r ! 1" "sentence e = r ! 3"
    "remedy e \<longleftrightarrow> r ! 4 = ''required''"
  using assms that by (auto simp: vocabulary_rows rowEntry_def)

lemma checkEntry_ok:
  assumes "(n, e) \<in> set vocabulary"
  shows "checkEntry (n, e) = Inr ()"
proof -
  obtain r where r: "r \<in> set vocabularyRows" "n = r ! 0" "kind e = r ! 1" "sentence e = r ! 3"
    "remedy e \<longleftrightarrow> r ! 4 = ''required''"
    using assms by (rule vocabulary_member)
  note shape = bspec [OF vocabularyRows_shape [unfolded list_all_iff] r(1)]
  have "trimSpace (the (map_of clientRemedies n)) \<noteq> []" if "map_of clientRemedies n \<noteq> None"
    using that by (auto simp: clientRemedies_def trimSpace_id visible_def code_def split: if_splits)
  with shape r validate_row [OF r(1)] show ?thesis
    unfolding checkEntry_def
    by (auto simp: Let_def clientRemedies_def firstLower_def firstUpper_def split: if_splits)
qed

text \<open>The client starts: both embedded artifacts parse, and none of the checks of \<open>init\<close>
  panics on them. Every reason is sorted, unique, of a known kind and non-empty; exactly the
  reasons marked as needing a remedy have one, in the capitalisation of their kind; and the only
  placeholder is the revision of \<open>revision_conflict\<close>.\<close>

theorem init_succeeds:
  "isOk (parseVocabulary vocabularyFile) \<and> isOk (parseFieldLabels fieldLabelsFile)
   \<and> initChecks vocabulary = Inr ()"
proof -
  have names: "set (vocabularyNames vocabulary k) = fst ` {ne \<in> set vocabulary. kind (snd ne) = k}" for k
    by (auto simp: vocabularyNames_def set_slicesSort image_iff)
  have name_ok: "checkName vocabulary k pfx n = Inr ()" if "n \<in> set (vocabularyNames vocabulary k)" for k pfx n
  proof -
    from that obtain e where e: "(n, e) \<in> set vocabulary" "kind e = k" by (auto simp: names)
    obtain r where "r \<in> set vocabularyRows" "sentence e = r ! 3" using e(1) by (rule vocabulary_member)
    with e sentence_row show ?thesis
      by (simp add: checkName_def iffD2 [OF vocabulary_lookup e(1)])
  qed
  have "checkRemedy vocabulary nr = Inr ()" if "nr \<in> set clientRemedies" for nr
  proof -
    have "\<exists>r \<in> set vocabularyRows. r ! 0 = fst nr"
      using that by (auto simp: clientRemedies_def vocabularyRows_def)
    then obtain r where r: "r \<in> set vocabularyRows" "r ! 0 = fst nr" by blast
    then have "rowEntry r \<in> set vocabulary" by (simp add: vocabulary_rows)
    then have m: "map_of vocabulary (fst nr) = Some (snd (rowEntry r))"
      unfolding vocabulary_lookup by (simp add: rowEntry_def r(2) [symmetric])
    have "map_of clientRemedies (fst nr) \<noteq> None"
      using that by (auto simp: clientRemedies_def)
    then have "remedy (snd (rowEntry r))"
      using bspec [OF vocabularyRows_shape [unfolded list_all_iff] r(1)] r(2) by (simp add: rowEntry_def)
    then show ?thesis by (simp add: checkRemedy_def m)
  qed
  with name_ok checkEntry_ok have "initChecks vocabulary = Inr ()"
    by (auto simp: initChecks_def andThen_eq_Inr_iff checkAll_iff)
  then show ?thesis by (simp add: vocabulary_parses fieldLabels_parse)
qed

lemma commandSentence_ok:
  assumes "map_of vocabulary tag = Some e" and "kind e = ''command''"
  shows "commandSentence tag = Inr (sentence e)"
proof -
  obtain r where "r \<in> set vocabularyRows" "sentence e = r ! 3"
    using assms(1) unfolding vocabulary_lookup by (rule vocabulary_member)
  with assms sentence_row show ?thesis by (simp add: commandSentence_def)
qed

lemma plain_command:
  assumes "map_of vocabulary tag = Some e" and "kind e = ''command''" and "tag \<noteq> ''revision_conflict''"
  shows "renderCommandSentence tag [] = Inr (sentenceWithRemedy tag [T (sentence e)])"
proof -
  obtain r where r: "r \<in> set vocabularyRows" "tag = r ! 0" "sentence e = r ! 3"
    using assms(1) unfolding vocabulary_lookup by (rule vocabulary_member)
  then have "CHR 0x7B \<notin> set (sentence e)"
    using bspec [OF vocabularyRows_sentences [unfolded list_all_iff] r(1)] assms(3)
    by (simp add: plainSentence_def)
  then show ?thesis
    by (simp add: renderCommandSentence_def commandSentence_ok [OF assms(1,2)] placeholders_none)
qed

lemma revision_entry:
  obtains e where "map_of vocabulary ''revision_conflict'' = Some e" "kind e = ''command''"
    "sentence e = ''This Biot changed; its current revision is {revision}.''"
proof -
  have "\<exists>r \<in> set vocabularyRows. r ! 0 = ''revision_conflict''" by (simp add: vocabularyRows_def)
  then obtain r where r: "r \<in> set vocabularyRows" "r ! 0 = ''revision_conflict''" by blast
  have "kind (snd (rowEntry r)) = ''command''"
    "sentence (snd (rowEntry r)) = ''This Biot changed; its current revision is {revision}.''"
    using r vocabularyRows_shape vocabularyRows_sentences by (auto simp: rowEntry_def list_all_iff)
  moreover have "map_of vocabulary ''revision_conflict'' = Some (snd (rowEntry r))"
    unfolding vocabulary_lookup using r by (force simp: vocabulary_rows rowEntry_def)
  ultimately show thesis by (rule that [rotated])
qed

lemma itoa_chars: "c \<in> set (itoa i) \<Longrightarrow> isDigit c \<or> c = CHR ''-''"
  using showNat_digits by (auto simp: itoa_def list_all_iff split: if_splits)

lemma replace_revision:
  "replaceAll (CHR 0x7B # ''revision'' @ [CHR 0x7D]) v ''This Biot changed; its current revision is {revision}.''
    = ''This Biot changed; its current revision is '' @ v @ ''.''"
  by (simp add: hasPrefix_def)

lemma render_revision:
  "renderCommandSentence ''revision_conflict'' [(''revision'', itoa n)]
    = Inr [T (''This Biot changed; its current revision is '' @ itoa n @ ''.''), T '' Run the command again.'']"
proof -
  obtain e where e: "map_of vocabulary ''revision_conflict'' = Some e" "kind e = ''command''"
    "sentence e = ''This Biot changed; its current revision is {revision}.''" by (rule revision_entry)
  have "CHR 0x7B \<notin> set (itoa n)"
    using itoa_chars [of "CHR 0x7B" n] by (auto simp: isDigit_def)
  then have "placeholders (''This Biot changed; its current revision is '' @ itoa n @ ''.'') = []"
    by (intro placeholders_none) simp
  moreover have "map_of clientRemedies ''revision_conflict'' = Some ''Run the command again.''"
    by (simp add: clientRemedies_def)
  ultimately show ?thesis
    using replace_revision [of "itoa n"]
    by (simp add: renderCommandSentence_def commandSentence_ok [OF e(1,2)] e sentenceWithRemedy_def
        del: replaceAll.simps append_Cons)
qed

lemma invalidInput_ok: "isOk (invalidInputMessage flds)"
proof -
  have "\<exists>r \<in> set vocabularyRows. r ! 0 = ''invalid_input'' \<and> r ! 1 = ''command''"
    by (simp add: vocabularyRows_def)
  then obtain r where "r \<in> set vocabularyRows" "r ! 0 = ''invalid_input''" "r ! 1 = ''command''" by blast
  then have "map_of vocabulary ''invalid_input'' = Some (snd (rowEntry r))"
    "kind (snd (rowEntry r)) = ''command''"
    unfolding vocabulary_lookup by (force simp: vocabulary_rows rowEntry_def)+
  from commandSentence_ok [OF this] show ?thesis
    by (auto simp: invalidInputMessage_def Let_def)
qed

text \<open>C39: The client can always say what went wrong: whatever tag, status, revision and field
  reasons a server sends, known or not, \<open>Error\<close> produces a text and never panics over a missing
  sentence or a placeholder that was left in it.\<close>

theorem error_text_total: "isOk (apiErrorText e)"
proof (cases e)
  case (ApiError tag st flds revision c)
  show ?thesis
  proof (cases c)
    case None
    show ?thesis
    proof (cases "tag = ''revision_conflict''")
      case True
      with None ApiError show ?thesis by (simp add: render_revision)
    next
      case False
      with None ApiError plain_command [of tag] show ?thesis
        by (auto simp: invalidInput_ok split: option.splits)
    qed
  qed (simp add: ApiError)
qed simp_all

text \<open>The message about rejected fields does not depend on the order in which Go happens to
  iterate the map of fields: with distinct labels, every order gives the same text.\<close>

theorem invalid_input_order:
  assumes "mset flds = mset flds'" and "distinct (map fst flds)" and "inj_on fieldLabel (fst ` set flds)"
  shows "invalidInputMessage flds = invalidInputMessage flds'"
proof -
  have m: "mset (map fst flds) = mset (map fst flds')" using assms(1) by (simp only: mset_map)
  have d: "distinct (map fst flds')" using assms(2) by (rule iffD1 [OF mset_eq_imp_distinct_iff [OF m]])
  have "map_of flds = map_of flds'"
    by (rule iffD2 [OF map_of_inject_set [OF assms(2) d] mset_eq_setD [OF assms(1)]])
  moreover have "sort_key fieldLabel (map fst flds) = sort_key fieldLabel (map fst flds')"
    by (rule sort_key_inj_key_eq) (use m assms(3) in simp_all)
  ultimately show ?thesis by (simp add: invalidInputMessage_def)
qed

theorem invalid_input_order_witness:
  "invalidInputMessage [(''name'', [''missing'']), (''email'', [''odd'', ''invalid_format''])]
   = invalidInputMessage [(''email'', [''odd'', ''invalid_format'']), (''name'', [''missing''])]"
proof (rule invalid_input_order)
  have "fieldLabel ''name'' = ''name''" "fieldLabel ''email'' = ''email''"
    by (simp_all add: fieldLabel_def fieldLabels_rows fieldLabelRows_def)
  then show "inj_on fieldLabel (fst ` set [(''name'', [''missing'']), (''email'', [''odd'', ''invalid_format''])])"
    by (simp add: inj_on_def)
qed simp_all

end
