(* ===== verification/Go_Url.thy ===== *)
theory Go_Url
  imports Go_Marshal
begin

text \<open>
  What the client uses of Go's \<open>net/url\<close>: parsing, escaping and printing a URL. A URL that names a
  user is recognised as such, whatever the user part holds.
\<close>

section \<open>Escaping\<close>

datatype urlMode = EncodePath | EncodePathSegment | EncodeHost | EncodeQueryComponent

definition unreservedChar :: "char \<Rightarrow> bool" where
  "unreservedChar c \<longleftrightarrow>
     c \<in> set ''abcdefghijklmnopqrstuvwxyzABCDEFGHIJKLMNOPQRSTUVWXYZ0123456789-_.~''"

definition hostChar :: "char \<Rightarrow> bool" where
  "hostChar c \<longleftrightarrow> c \<in> set ''!$&()*+,;=:[]<>'' \<or> c = CHR 0x22 \<or> c = CHR 0x27"

definition shouldEscape :: "char \<Rightarrow> urlMode \<Rightarrow> bool" where
  "shouldEscape c m =
     (if unreservedChar c then False
      else if m = EncodeHost \<and> hostChar c then False
      else if c \<in> set ''$&+,/:;=?@'' then
        (case m of
           EncodePath \<Rightarrow> c = CHR ''?''
         | EncodePathSegment \<Rightarrow> c \<in> set ''/;,?''
         | EncodeQueryComponent \<Rightarrow> True
         | EncodeHost \<Rightarrow> True)
      else True)"

definition upperHex :: "nat \<Rightarrow> char" where
  "upperHex d = (if d < 10 then char_of (48 + d) else char_of (55 + d))"

definition escapeByte :: "urlMode \<Rightarrow> char \<Rightarrow> string" where
  "escapeByte m c =
     (if c = CHR '' '' \<and> m = EncodeQueryComponent then ''+''
      else if shouldEscape c m then [CHR 0x25, upperHex (code c div 16), upperHex (code c mod 16)]
      else [c])"

definition escapeUrl :: "urlMode \<Rightarrow> string \<Rightarrow> string" where
  "escapeUrl m s = concat (map (escapeByte m) s)"

definition pathEscape :: "string \<Rightarrow> string" where
  "pathEscape s = escapeUrl EncodePathSegment s"

definition queryEscape :: "string \<Rightarrow> string" where
  "queryEscape s = escapeUrl EncodeQueryComponent s"

text \<open>\<open>Values.Encode\<close> for keys with one value each.\<close>

definition encodeQuery :: "(string \<times> string) list \<Rightarrow> string" where
  "encodeQuery kvs =
     joinWith ''&'' (map (\<lambda>(k, v). queryEscape k @ ''='' @ queryEscape v) (sort_key fst kvs))"

text \<open>Only \<open>%25\<close> and bytes outside ASCII may be escaped in a host.\<close>

fun unescapeUrl :: "urlMode \<Rightarrow> string \<Rightarrow> string option" where
  "unescapeUrl m [] = Some []"
| "unescapeUrl m (c # s) =
     (if c = CHR 0x25 then
        (case s of
           a # b # t \<Rightarrow>
             (case (hexVal a, hexVal b) of
                (Some x, Some y) \<Rightarrow>
                  if m = EncodeHost \<and> x < 8 \<and> (a, b) \<noteq> (CHR ''2'', CHR ''5'') then None
                  else map_option (Cons (char_of (16 * x + y))) (unescapeUrl m t)
              | _ \<Rightarrow> None)
         | _ \<Rightarrow> None)
      else if c = CHR ''+'' \<and> m = EncodeQueryComponent
      then map_option (Cons (CHR '' '')) (unescapeUrl m s)
      else if m = EncodeHost \<and> code c < 0x80 \<and> shouldEscape c m then None
      else map_option (Cons c) (unescapeUrl m s))"

section \<open>Parsing\<close>

record url =
  Scheme :: string
  Opaque :: string
  hasUser :: bool
  Host :: string
  Path :: string
  RawPath :: string
  ForceQuery :: bool
  RawQuery :: string
  Fragment :: string

definition noUrl :: url where
  "noUrl = \<lparr>Scheme = [], Opaque = [], hasUser = False, Host = [], Path = [], RawPath = [],
    ForceQuery = False, RawQuery = [], Fragment = []\<rparr>"

text \<open>\<open>strings.Cut\<close>.\<close>

definition cutAt :: "char \<Rightarrow> string \<Rightarrow> string \<times> string" where
  "cutAt c s = (takeWhile (\<lambda>x. x \<noteq> c) s, tl (dropWhile (\<lambda>x. x \<noteq> c) s))"

definition letter :: "char \<Rightarrow> bool" where
  "letter c \<longleftrightarrow> c \<in> set ''abcdefghijklmnopqrstuvwxyzABCDEFGHIJKLMNOPQRSTUVWXYZ''"

definition schemeRest :: "char \<Rightarrow> bool" where
  "schemeRest c \<longleftrightarrow> letter c \<or> c \<in> set ''0123456789+-.''"

definition getScheme :: "string \<Rightarrow> (string \<times> string) option" where
  "getScheme s =
     (let n = takeWhile schemeRest s; t = dropWhile schemeRest s in
      if s \<noteq> [] \<and> hd s = CHR '':'' then None
      else if n = [] \<or> \<not> letter (hd n) then Some ([], s)
      else if t \<noteq> [] \<and> hd t = CHR '':'' then Some (n, tl t)
      else Some ([], s))"

definition lowerChar :: "char \<Rightarrow> char" where
  "lowerChar c = (if 65 \<le> code c \<and> code c \<le> 90 then char_of (code c + 32) else c)"

definition controlByte :: "char \<Rightarrow> bool" where
  "controlByte c \<longleftrightarrow> code c < 0x20 \<or> code c = 0x7F"

fun countOf :: "char \<Rightarrow> string \<Rightarrow> nat" where
  "countOf c [] = 0"
| "countOf c (x # xs) = (if x = c then 1 else 0) + countOf c xs"

text \<open>A host, whose port is empty or digits; a bracketed one is taken as it stands up to its last
  bracket.\<close>

definition validOptionalPort :: "string \<Rightarrow> bool" where
  "validOptionalPort p \<longleftrightarrow> p = [] \<or> (hd p = CHR '':'' \<and> list_all isDigit (tl p))"

definition parseHost :: "string \<Rightarrow> string option" where
  "parseHost h =
     (if hasPrefix h ''['' then
        (if CHR '']'' \<notin> set h then None
         else if \<not> validOptionalPort (rev (takeWhile (\<lambda>c. c \<noteq> CHR '']'') (rev h))) then None
         else unescapeUrl EncodeHost h)
      else if CHR '':'' \<in> set h \<and>
        \<not> validOptionalPort (CHR '':'' # rev (takeWhile (\<lambda>c. c \<noteq> CHR '':'') (rev h))) then None
      else unescapeUrl EncodeHost h)"

definition parseAuthority :: "string \<Rightarrow> (bool \<times> string) option" where
  "parseAuthority a =
     (if CHR ''@'' \<in> set a
      then map_option (Pair True) (parseHost (rev (takeWhile (\<lambda>c. c \<noteq> CHR ''@'') (rev a))))
      else map_option (Pair False) (parseHost a))"

definition setPath :: "string \<Rightarrow> url \<Rightarrow> url option" where
  "setPath p u =
     map_option (\<lambda>path. u\<lparr>Path := path, RawPath := if p = escapeUrl EncodePath path then [] else p\<rparr>)
       (unescapeUrl EncodePath p)"

definition parseRest :: "url \<Rightarrow> string \<Rightarrow> url option" where
  "parseRest u rest =
     (if \<not> hasPrefix rest ''/'' \<and> Scheme u \<noteq> [] then Some (u\<lparr>Opaque := rest\<rparr>)
      else if \<not> hasPrefix rest ''/'' \<and> CHR '':'' \<in> set (fst (cutAt (CHR ''/'') rest)) then None
      else if (Scheme u \<noteq> [] \<or> \<not> hasPrefix rest ''///'') \<and> hasPrefix rest ''//'' then
        (let authority = takeWhile (\<lambda>c. c \<noteq> CHR ''/'') (drop 2 rest);
             path = dropWhile (\<lambda>c. c \<noteq> CHR ''/'') (drop 2 rest)
         in case parseAuthority authority of
              None \<Rightarrow> None
            | Some (user, host) \<Rightarrow> setPath path (u\<lparr>hasUser := user, Host := host\<rparr>))
      else setPath rest u)"

definition parseNoFragment :: "string \<Rightarrow> url option" where
  "parseNoFragment raw =
     (if list_ex controlByte raw then None
      else if raw = ''*'' then Some (noUrl\<lparr>Path := ''*''\<rparr>)
      else case getScheme raw of
        None \<Rightarrow> None
      | Some (scheme, rest) \<Rightarrow>
          (let u = noUrl\<lparr>Scheme := map lowerChar scheme\<rparr> in
           if hasSuffix rest ''?'' \<and> countOf (CHR ''?'') rest = 1
           then parseRest (u\<lparr>ForceQuery := True\<rparr>) (butlast rest)
           else parseRest (u\<lparr>RawQuery := snd (cutAt (CHR ''?'') rest)\<rparr>) (fst (cutAt (CHR ''?'') rest))))"

definition parseUrl :: "string \<Rightarrow> url option" where
  "parseUrl raw =
     (case cutAt (CHR ''#'') raw of
        (front, frag) \<Rightarrow>
          (case parseNoFragment front of
             None \<Rightarrow> None
           | Some u \<Rightarrow>
               if frag = [] then Some u
               else if unescapeUrl EncodePath frag = None then None
               else Some (u\<lparr>Fragment := frag\<rparr>)))"

section \<open>Printing\<close>

definition validEncoded :: "string \<Rightarrow> bool" where
  "validEncoded s \<longleftrightarrow>
     list_all (\<lambda>c. c \<in> set ''!$&()*+,;=:@[]%'' \<or> c = CHR 0x27 \<or> \<not> shouldEscape c EncodePath) s"

definition escapedPath :: "url \<Rightarrow> string" where
  "escapedPath u =
     (if RawPath u \<noteq> [] \<and> validEncoded (RawPath u) \<and> unescapeUrl EncodePath (RawPath u) = Some (Path u)
      then RawPath u
      else if Path u = ''*'' then ''*''
      else escapeUrl EncodePath (Path u))"

text \<open>\<open>String\<close>, for a URL with a host and without user and fragment, which is what the client
  prints.\<close>

definition urlString :: "url \<Rightarrow> string" where
  "urlString u =
     Scheme u @ ''://'' @ escapeUrl EncodeHost (Host u) @
     (let p = escapedPath u in if p \<noteq> [] \<and> hd p \<noteq> CHR ''/'' then CHR ''/'' # p else p) @
     (if ForceQuery u \<or> RawQuery u \<noteq> [] then CHR ''?'' # RawQuery u else [])"

section \<open>Escaping loses nothing\<close>

lemma hexVal_upperHex [simp]: "d < 16 \<Longrightarrow> hexVal (upperHex d) = Some d"
  by (auto simp: hexVal_def upperHex_def code_char_of Let_def)

lemma percent_escaped: "shouldEscape (CHR 0x25) m"
  by (cases m) (simp_all add: shouldEscape_def unreservedChar_def hostChar_def)

lemma unescape_pathEscape: "unescapeUrl EncodePath (pathEscape s @ t) = map_option ((@) s) (unescapeUrl EncodePath t)"
proof (induction s)
  case (Cons c s)
  have "code c div 16 < 16" "code c mod 16 < 16" using code_less [of c] by linarith+
  moreover have "16 * (code c div 16) + code c mod 16 = code c" by simp
  ultimately show ?case
    using Cons percent_escaped [of EncodePathSegment]
    by (auto simp: pathEscape_def escapeUrl_def escapeByte_def option.map_comp comp_def)
qed (simp add: pathEscape_def escapeUrl_def option.map_ident)

end
