(* ===== verification/Cli_Api.thy ===== *)
theory Cli_Api
  imports Cli_World Cli_Types Cli_Vocabulary Go_Url
begin

text \<open>
  The API client of \<open>cli/internal/api/client.go\<close>: making a client for a server URL, one request
  and what its response means, and the method of \<open>Client\<close> for every endpoint. Redirects, which
  \<open>net/http\<close> follows by itself, are part of one exchange.
\<close>

section \<open>The client\<close>

definition maxResponseBytes :: nat where
  [bound_simps]: "maxResponseBytes = 8388608"

record client =
  baseURL :: url
  token :: string

definition trimSlashes :: "string \<Rightarrow> string" where
  "trimSlashes s = trimRight {CHR ''/''} s"

definition newClient :: "string \<Rightarrow> string \<Rightarrow> (cliErr, client) result" where
  "newClient base tok =
     (case parseUrl base of
        None \<Rightarrow> Inl (msg ''server URL must be an absolute HTTP URL without credentials or a query.'')
      | Some u \<Rightarrow>
          if Scheme u = [] \<or> Host u = [] \<or> hasUser u \<or> RawQuery u \<noteq> [] \<or> Fragment u \<noteq> []
          then Inl (msg ''server URL must be an absolute HTTP URL without credentials or a query.'')
          else if Scheme u \<noteq> ''http'' \<and> Scheme u \<noteq> ''https''
          then Inl (msg ''server URL must use http or https.'')
          else Inr \<lparr>baseURL = u\<lparr>Path := trimSlashes (Path u)\<rparr>, token = tok\<rparr>)"

definition clientServerURL :: "client \<Rightarrow> string" where
  "clientServerURL c = urlString (baseURL c)"

section \<open>Responses\<close>

definition otherFailure :: "string \<Rightarrow> transportErr" where
  "otherFailure text = \<lparr>isDeadline = False, isCertificate = False, isDNS = False,
     isUnexpectedEOF = False, isOp = False, leafText = text\<rparr>"

definition readBounded :: "string \<Rightarrow> transportErr option \<Rightarrow> (transportErr, string) result" where
  "readBounded body broken =
     (if maxResponseBytes < length body then Inl (otherFailure ''response is too large'')
      else case broken of Some e \<Rightarrow> Inl e | None \<Rightarrow> Inr body)"

definition punctuate :: "string \<Rightarrow> string" where
  "punctuate message =
     (let m = trimSpace message in
      if m = [] then ''unknown transport failure.''
      else if hasSuffix m ''.'' then m else m @ ''.'')"

definition serverCommunicationError :: "string \<Rightarrow> transportErr \<Rightarrow> cliErr" where
  "serverCommunicationError url e =
     (let about = ''The Biot server at '' @ url in
      if isDeadline e then msg (about @ '' did not respond in time; check that it is running.'')
      else if isCertificate e
      then msg (about @ '' did not present a trusted certificate; check its HTTPS certificate.'')
      else if isDNS e then msg (about @ '' could not be found; check the server URL.'')
      else if isUnexpectedEOF e
      then msg (about @ '' closed its response before it was complete; check that it is running.'')
      else if isOp e then msg (about @ '' is not accepting connections; check that it is running.'')
      else msg (''Could not contact the Biot server at '' @ url @ ''; check that it is running. Cause: ''
             @ punctuate (leafText e)))"

record errorBody =
  bodyError :: string
  bodyFields :: "(string \<times> string list) list"
  bodyRevision :: int

definition decErrorBody :: "errorBody decoder" where
  "decErrorBody = decStruct
     [(''error'', field bodyError bodyError_update decString),
      (''fields'', field bodyFields bodyFields_update decStringLists),
      (''current_revision'', field bodyRevision bodyRevision_update decInt)]"

definition parseError :: "int \<Rightarrow> string \<Rightarrow> cliErr" where
  "parseError st text =
     (case unmarshal decErrorBody text \<lparr>bodyError = [], bodyFields = [], bodyRevision = 0\<rparr> of
        (v, ok) \<Rightarrow>
          let tag = (if \<not> ok \<or> bodyError v = []
                     then (if st = 401 then ''unauthenticated'' else ''internal'') else bodyError v)
          in ApiError tag st (bodyFields v) (bodyRevision v) None)"

section \<open>One request\<close>

definition requestTarget :: "client \<Rightarrow> string \<Rightarrow> (cliErr, string) result" where
  "requestTarget c p =
     (case parseUrl p of
        None \<Rightarrow> Inl (msg ''invalid API path.'')
      | Some u \<Rightarrow>
          if Scheme u \<noteq> [] \<or> Host u \<noteq> [] then Inl (msg ''invalid API path.'')
          else let t = urlString ((baseURL c)
                 \<lparr>Path := trimSlashes (Path (baseURL c)) @ ''/api/'' @ trimLeft {CHR ''/''} (Path u),
                  RawQuery := RawQuery u, Fragment := []\<rparr>)
               in if parseUrl t = None then Inl (Errorf [T ''build request: '', W (msg ''invalid URL''), T ''.''])
                  else Inr t)"

text \<open>The notice of \<open>do\<close>, which its goroutine prints when the exchange is slow.\<close>

definition noticeOf :: "client \<Rightarrow> bool \<Rightarrow> unit cmd" where
  "noticeOf c slow =
     (if slow then complain [T (''Waiting for the Biot server at '' @ clientServerURL c @ ''...'' @ [CHR 0x0A])]
      else succeed ())"

definition respond :: "client \<Rightarrow> exchange \<Rightarrow> string cmd" where
  "respond c x =
     (case x of
        NoResponse slow e \<Rightarrow>
          attempt (noticeOf c slow) (\<lambda>_. failWith (serverCommunicationError (clientServerURL c) e))
      | Response slow st body broken \<Rightarrow>
          attempt (noticeOf c slow) (\<lambda>_.
            case readBounded body broken of
              Inl e \<Rightarrow> failWith (serverCommunicationError (clientServerURL c) e)
            | Inr text \<Rightarrow>
                if st < 200 \<or> 300 \<le> st then failWith (parseError st text) else succeed text))"

definition apiRequest :: "client \<Rightarrow> string \<Rightarrow> string \<Rightarrow> json option \<Rightarrow> string cmd" where
  "apiRequest c method p body =
     attempt (lift (requestTarget c p)) (\<lambda>t w.
       case sendCall \<lparr>verb = method, target = t,
           authorization = (if token c \<noteq> [] then Some (''Bearer '' @ token c) else None),
           contentType = (if body \<noteq> None then Some ''application/json'' else None),
           requestBody = map_option jprint body\<rparr> w of
         (x, w') \<Rightarrow> respond c x w')"

text \<open>A request with a result to decode, and one without.\<close>

definition requestResult :: "client \<Rightarrow> string \<Rightarrow> string \<Rightarrow> json option \<Rightarrow> 'a decoder \<Rightarrow> 'a \<Rightarrow> 'a cmd" where
  "requestResult c method p body dec zero =
     attempt (apiRequest c method p body) (\<lambda>text.
       if text = [] then succeed zero
       else case unmarshal dec text zero of
         (v, ok) \<Rightarrow> if ok then succeed v
           else failWith (Errorf [T ''decode the Biot server response: '', W (msg ''invalid JSON''), T ''.'']))"

definition requestNothing :: "client \<Rightarrow> string \<Rightarrow> string \<Rightarrow> json option \<Rightarrow> unit cmd" where
  "requestNothing c method p body = attempt (apiRequest c method p body) (\<lambda>_. succeed ())"

section \<open>Endpoints\<close>

definition decodeBiot :: "client \<Rightarrow> string \<Rightarrow> string \<Rightarrow> json option \<Rightarrow> biot cmd" where
  "decodeBiot c method p body w = requestResult c method p body (decBiot (floats w)) zeroBiot w"

definition Me :: "client \<Rightarrow> principal cmd" where
  "Me c = requestResult c ''GET'' ''me'' None decPrincipal zeroPrincipal"

definition pageSize :: nat where
  "pageSize = 200"

definition biotsPath :: "string \<Rightarrow> string" where
  "biotsPath after =
     ''biots?'' @ encodeQuery ((''limit'', showNat pageSize) # (if after \<noteq> [] then [(''after'', after)] else []))"

definition fetchPage :: "client \<Rightarrow> string \<Rightarrow> biot list cmd" where
  "fetchPage c after w =
     requestResult c ''GET'' (biotsPath after) None (decSlice (decBiot (floats w)) zeroBiot) [] w"

definition GetBiot :: "client \<Rightarrow> string \<Rightarrow> biot cmd" where
  "GetBiot c i = decodeBiot c ''GET'' (''biots/'' @ pathEscape i) None"

definition jsonMap :: "(string \<times> json) list \<Rightarrow> json" where
  "jsonMap kvs = JObj (sortMembers kvs)"

definition CreateBiot :: "client \<Rightarrow> string \<Rightarrow> json \<Rightarrow> lifecycleResult cmd" where
  "CreateBiot c i body =
     requestResult c ''PUT'' (''biots/'' @ pathEscape i) (Some body) decLifecycleResult zeroLifecycleResult"

definition lifecycle :: "client \<Rightarrow> string \<Rightarrow> string \<Rightarrow> int \<Rightarrow> lifecycleResult cmd" where
  "lifecycle c method p revn =
     requestResult c method (''biots/'' @ p) (Some (jsonMap [(''expected_revision'', jint revn)]))
       decLifecycleResult zeroLifecycleResult"

definition StartBiot :: "client \<Rightarrow> string \<Rightarrow> int \<Rightarrow> lifecycleResult cmd" where
  "StartBiot c i revn = lifecycle c ''POST'' (pathEscape i @ ''/start'') revn"

definition StopBiot :: "client \<Rightarrow> string \<Rightarrow> int \<Rightarrow> lifecycleResult cmd" where
  "StopBiot c i revn = lifecycle c ''POST'' (pathEscape i @ ''/stop'') revn"

definition RebuildBiot :: "client \<Rightarrow> string \<Rightarrow> int \<Rightarrow> (string \<times> json) list \<Rightarrow> lifecycleResult cmd" where
  "RebuildBiot c i revn env =
     requestResult c ''POST'' (''biots/'' @ pathEscape i @ ''/environment'')
       (Some (jsonMap [(''environment'', marshalAny (JObj env)), (''expected_revision'', jint revn)]))
       decLifecycleResult zeroLifecycleResult"

definition DestroyBiot :: "client \<Rightarrow> string \<Rightarrow> lifecycleResult cmd" where
  "DestroyBiot c i =
     requestResult c ''DELETE'' (''biots/'' @ pathEscape i) None decLifecycleResult zeroLifecycleResult"

definition GetOperation :: "client \<Rightarrow> string \<Rightarrow> operation cmd" where
  "GetOperation c i = requestResult c ''GET'' (''operations/'' @ pathEscape i) None decOperation zeroOperation"

definition secretJSONValue :: "byte list \<Rightarrow> (cliErr, string) result" where
  "secretJSONValue value =
     (if utf8Valid (bytesString value) then Inr (bytesString value)
      else Inl (msg ''secret values must be valid UTF-8; this API carries them as JSON strings.''))"

definition DeliverSecret :: "client \<Rightarrow> string \<Rightarrow> string \<Rightarrow> byte list \<Rightarrow> unit cmd" where
  "DeliverSecret c i name value =
     attempt (lift (secretJSONValue value)) (\<lambda>encoded.
       requestNothing c ''PUT'' (''biots/'' @ pathEscape i @ ''/secrets/'' @ pathEscape name)
         (Some (jsonMap [(''value'', JStr encoded)])))"

definition ListSecrets :: "client \<Rightarrow> string \<Rightarrow> secret list cmd" where
  "ListSecrets c i =
     requestResult c ''GET'' (''biots/'' @ pathEscape i @ ''/secrets'') None
       (decSlice decSecret \<lparr>secretName = []\<rparr>) []"

definition RemoveSecret :: "client \<Rightarrow> string \<Rightarrow> string \<Rightarrow> unit cmd" where
  "RemoveSecret c i name =
     requestNothing c ''DELETE'' (''biots/'' @ pathEscape i @ ''/secrets/'' @ pathEscape name) None"

definition DeliverFetchCredential :: "client \<Rightarrow> string \<Rightarrow> string \<Rightarrow> byte list \<Rightarrow> unit cmd" where
  "DeliverFetchCredential c i source value =
     attempt (lift (secretJSONValue value)) (\<lambda>encoded.
       requestNothing c ''PUT'' (''biots/'' @ pathEscape i @ ''/fetch-credentials'')
         (Some (jsonMap [(''source'', JStr source), (''value'', JStr encoded)])))"

definition RemoveFetchCredential :: "client \<Rightarrow> string \<Rightarrow> string \<Rightarrow> unit cmd" where
  "RemoveFetchCredential c i source =
     requestNothing c ''DELETE'' (''biots/'' @ pathEscape i @ ''/fetch-credentials'')
       (Some (jsonMap [(''source'', JStr source)]))"

definition GetDeployment :: "client \<Rightarrow> deployment cmd" where
  "GetDeployment c = requestResult c ''GET'' ''deployment'' None decDeployment zeroDeployment"

definition ListNodes :: "client \<Rightarrow> node list cmd" where
  "ListNodes c = requestResult c ''GET'' ''nodes'' None (decSlice decNode zeroNode) []"

definition GetDiagnostic :: "client \<Rightarrow> string \<Rightarrow> diagnostic cmd" where
  "GetDiagnostic c ref =
     requestResult c ''GET'' (''diagnostics/'' @ pathEscape ref) None decDiagnostic
       \<lparr>diagnosticContent = [], diagnosticTruncated = False\<rparr>"

definition GetRuntimeLogs :: "client \<Rightarrow> string \<Rightarrow> int \<Rightarrow> logs cmd" where
  "GetRuntimeLogs c i maxBytes =
     requestResult c ''GET''
       (''biots/'' @ pathEscape i @ ''/logs?'' @ encodeQuery [(''max_bytes'', itoa maxBytes)]) None decLogs
       \<lparr>logsIncarnationID = [], logsContent = [], logsTruncated = False\<rparr>"

definition ListSSHKeys :: "client \<Rightarrow> sshKey list cmd" where
  "ListSSHKeys c = requestResult c ''GET'' ''ssh-keys'' None (decSlice decSSHKey zeroSSHKey) []"

definition AddSSHKey :: "client \<Rightarrow> string \<Rightarrow> string \<Rightarrow> sshKey cmd" where
  "AddSSHKey c publicKey label =
     requestResult c ''POST'' ''ssh-keys''
       (Some (jsonMap [(''public_key'', JStr publicKey), (''label'', JStr label)])) decSSHKey zeroSSHKey"

definition RemoveSSHKey :: "client \<Rightarrow> string \<Rightarrow> unit cmd" where
  "RemoveSSHKey c i = requestNothing c ''DELETE'' (''ssh-keys/'' @ pathEscape i) None"

definition ListCredentials :: "client \<Rightarrow> credential list cmd" where
  "ListCredentials c = requestResult c ''GET'' ''credentials'' None (decSlice decCredential zeroCredential) []"

definition RevokeCredential :: "client \<Rightarrow> string \<Rightarrow> unit cmd" where
  "RevokeCredential c i = requestNothing c ''DELETE'' (''credentials/'' @ pathEscape i) None"

definition ListPublications :: "client \<Rightarrow> string \<Rightarrow> publication list cmd" where
  "ListPublications c i =
     requestResult c ''GET'' (''biots/'' @ pathEscape i @ ''/publications'') None
       (decSlice decPublication zeroPublication) []"

definition publicationPolicy :: "client \<Rightarrow> string \<Rightarrow> string \<Rightarrow> int \<Rightarrow> policyResult cmd" where
  "publicationPolicy c method i port =
     requestResult c method (''biots/'' @ pathEscape i @ ''/publications/'' @ itoa port)
       (Some (JObj [])) decPolicyResult zeroPolicyResult"

definition Publish :: "client \<Rightarrow> string \<Rightarrow> int \<Rightarrow> policyResult cmd" where
  "Publish c i port = publicationPolicy c ''PUT'' i port"

definition Unpublish :: "client \<Rightarrow> string \<Rightarrow> int \<Rightarrow> policyResult cmd" where
  "Unpublish c i port = publicationPolicy c ''DELETE'' i port"

definition ResolvePrincipal :: "client \<Rightarrow> string \<Rightarrow> principal cmd" where
  "ResolvePrincipal c email =
     requestResult c ''GET'' (''principals?'' @ encodeQuery [(''email'', email)]) None decPrincipal zeroPrincipal"

definition GetGrants :: "client \<Rightarrow> string \<Rightarrow> grants cmd" where
  "GetGrants c i =
     requestResult c ''GET'' (''biots/'' @ pathEscape i @ ''/grants'') None decGrants
       \<lparr>grantsOwner = zeroPrincipal, grantsList = []\<rparr>"

definition grantPolicy :: "client \<Rightarrow> string \<Rightarrow> string \<Rightarrow> string \<Rightarrow> string \<Rightarrow> policyResult cmd" where
  "grantPolicy c method i what who =
     requestResult c method (''biots/'' @ pathEscape i @ ''/grants/'' @ what @ ''/'' @ pathEscape who)
       (Some (JObj [])) decPolicyResult zeroPolicyResult"

definition GrantShell :: "client \<Rightarrow> string \<Rightarrow> string \<Rightarrow> policyResult cmd" where
  "GrantShell c i who = grantPolicy c ''PUT'' i ''shell'' who"

definition RevokeShell :: "client \<Rightarrow> string \<Rightarrow> string \<Rightarrow> policyResult cmd" where
  "RevokeShell c i who = grantPolicy c ''DELETE'' i ''shell'' who"

definition GrantView :: "client \<Rightarrow> string \<Rightarrow> int \<Rightarrow> string \<Rightarrow> policyResult cmd" where
  "GrantView c i port who = grantPolicy c ''PUT'' i (''view/'' @ itoa port) who"

definition RevokeView :: "client \<Rightarrow> string \<Rightarrow> int \<Rightarrow> string \<Rightarrow> policyResult cmd" where
  "RevokeView c i port who = grantPolicy c ''DELETE'' i (''view/'' @ itoa port) who"

definition parseIntArg :: "string \<Rightarrow> (cliErr, int) result" where
  "parseIntArg value =
     (case atoi value of None \<Rightarrow> Inl (Errorf [Q value, T '' is not a number'']) | Some n \<Rightarrow> Inr n)"

section \<open>What a request changes\<close>

definition notice :: "client \<Rightarrow> piece list" where
  "notice c = [T (''Waiting for the Biot server at '' @ clientServerURL c @ ''...'' @ [CHR 0x0A])]"

text \<open>Talking to the server sends requests, uses up the budget, and may print notices; nothing else
  of the world changes.\<close>

definition talks :: "client \<Rightarrow> world \<Rightarrow> world \<Rightarrow> bool" where
  "talks c w w' \<longleftrightarrow>
     (\<exists>cs k n. w' = w\<lparr>calls := calls w @ cs, budget := n, stderr := stderr w @ concat (replicate k (notice c))\<rparr>
        \<and> budget w = n + length cs)"

lemma talks_refl [simp]: "talks c w w"
  unfolding talks_def
  by (rule exI [of _ "[]"], rule exI [of _ 0], rule exI [of _ "budget w"]) simp

lemma talks_trans:
  assumes "talks c w w1" and "talks c w1 w2"
  shows "talks c w w2"
proof -
  from assms obtain cs k n cs' k' n' where
    1: "w1 = w\<lparr>calls := calls w @ cs, budget := n, stderr := stderr w @ concat (replicate k (notice c))\<rparr>"
       "budget w = n + length cs" and
    2: "w2 = w1\<lparr>calls := calls w1 @ cs', budget := n', stderr := stderr w1 @ concat (replicate k' (notice c))\<rparr>"
       "budget w1 = n' + length cs'"
    unfolding talks_def by blast
  have "w2 = w\<lparr>calls := calls w @ (cs @ cs'), budget := n',
      stderr := stderr w @ concat (replicate (k + k') (notice c))\<rparr>"
    by (simp add: 1(1) 2(1) replicate_add)
  moreover have "budget w = n' + length (cs @ cs')" using 1 2 by simp
  ultimately show ?thesis unfolding talks_def by blast
qed

lemma talks_relation: "reflp (talks c)" "transp (talks c)"
  by (auto simp: reflp_def transp_def intro: talks_trans)

lemma noticeOf_run: "\<exists>k. noticeOf c slow w = (Inr (), w\<lparr>stderr := stderr w @ concat (replicate k (notice c))\<rparr>)"
  by (cases slow; cases "stderrFails w")
    (auto simp: noticeOf_def complain_def putErr_def succeed_def notice_def
      intro: exI [of _ "Suc 0"] exI [of _ 0])

lemma respond_talks: "respond c x w = (r, w') \<Longrightarrow> \<exists>k. w' = w\<lparr>stderr := stderr w @ concat (replicate k (notice c))\<rparr>"
proof -
  assume r: "respond c x w = (r, w')"
  obtain slow0 where s: "(\<exists>e. x = NoResponse slow0 e) \<or> (\<exists>st b br. x = Response slow0 st b br)"
    by (cases x) auto
  obtain k where k: "noticeOf c slow0 w = (Inr (), w\<lparr>stderr := stderr w @ concat (replicate k (notice c))\<rparr>)"
    using noticeOf_run by blast
  show ?thesis
    using r s k by (auto simp: respond_def attempt_def failWith_def succeed_def split: sum.splits if_splits)
qed

definition callFor :: "client \<Rightarrow> string \<Rightarrow> string \<Rightarrow> json option \<Rightarrow> call" where
  "callFor c method t body = \<lparr>verb = method, target = t,
     authorization = (if token c \<noteq> [] then Some (''Bearer '' @ token c) else None),
     contentType = (if body \<noteq> None then Some ''application/json'' else None),
     requestBody = map_option jprint body\<rparr>"

lemma apiRequest_run:
  "apiRequest c method p body w =
     (case requestTarget c p of
        Inl e \<Rightarrow> (Inl e, w)
      | Inr t \<Rightarrow> (case sendCall (callFor c method t body) w of (x, w1) \<Rightarrow> respond c x w1))"
  by (simp add: apiRequest_def attempt_def lift_def callFor_def split: sum.split)

lemma sendCall_talks: "sendCall cl w = (x, w1) \<Longrightarrow>
    (w1 = w \<and> (\<exists>e. x = NoResponse False e)) \<or>
    (\<exists>n. budget w = Suc n \<and> w1 = w\<lparr>calls := calls w @ [cl], budget := n\<rparr> \<and> x = server w (calls w @ [cl]))"
  by (auto simp: sendCall_def split: nat.splits if_splits)

lemma respond_failed: "respond c (NoResponse slow e) w = (r, w') \<Longrightarrow> \<not> isOk r"
  using noticeOf_run [of c slow w] by (auto simp: respond_def attempt_def failWith_def)

lemma apiRequest_talks: "apiRequest c method p body w = (r, w') \<Longrightarrow> talks c w w'"
proof -
  assume a: "apiRequest c method p body w = (r, w')"
  show ?thesis
  proof (cases "requestTarget c p")
    case (Inr t)
    obtain x w1 where s: "sendCall (callFor c method t body) w = (x, w1)" by fastforce
    with a Inr obtain k where w': "w' = w1\<lparr>stderr := stderr w1 @ concat (replicate k (notice c))\<rparr>"
      by (auto simp: apiRequest_run dest: respond_talks)
    from sendCall_talks [OF s] show ?thesis
    proof (elim disjE exE conjE)
      assume "w1 = w"
      with w' show ?thesis
        unfolding talks_def by (intro exI [of _ "[]"] exI [of _ k] exI [of _ "budget w"]) simp
    next
      fix n
      assume "budget w = Suc n" "w1 = w\<lparr>calls := calls w @ [callFor c method t body], budget := n\<rparr>"
      with w' show ?thesis
        unfolding talks_def
        by (intro exI [of _ "[callFor c method t body]"] exI [of _ k] exI [of _ n]) simp
    qed
  qed (use a in \<open>simp add: apiRequest_run\<close>)
qed

text \<open>A request that succeeded is one the server has answered.\<close>

lemma apiRequest_ok:
  assumes "apiRequest c method p body w = (Inr text, w')"
  obtains t slow st broken where "requestTarget c p = Inr t" "budget w = Suc (budget w')"
    "calls w' = calls w @ [callFor c method t body]" "server w (calls w') = Response slow st text broken"
    "200 \<le> st" "st < 300"
proof -
  from assms obtain t where t: "requestTarget c p = Inr t" by (auto simp: apiRequest_run split: sum.splits)
  obtain x w1 where s: "sendCall (callFor c method t body) w = (x, w1)" by fastforce
  with assms t have r: "respond c x w1 = (Inr text, w')" by (simp add: apiRequest_run)
  then have "\<forall>slow e. x \<noteq> NoResponse slow e" using respond_failed by fastforce
  with sendCall_talks [OF s] obtain n where n: "budget w = Suc n"
    "w1 = w\<lparr>calls := calls w @ [callFor c method t body], budget := n\<rparr>"
    "x = server w (calls w @ [callFor c method t body])" by auto
  from \<open>\<forall>slow e. x \<noteq> NoResponse slow e\<close> obtain slow st b broken where x: "x = Response slow st b broken"
    by (cases x) auto
  obtain k where "noticeOf c slow w1 = (Inr (), w1\<lparr>stderr := stderr w1 @ concat (replicate k (notice c))\<rparr>)"
    using noticeOf_run by blast
  with r x have "b = text" "200 \<le> st" "st < 300"
    "w' = w1\<lparr>stderr := stderr w1 @ concat (replicate k (notice c))\<rparr>"
    by (auto simp: respond_def attempt_def failWith_def succeed_def readBounded_def
        split: sum.splits if_splits option.splits)
  with t n x that [of t slow st broken] show thesis by simp
qed

lemma keeps_talks_request: "keeps (talks c) (apiRequest c method p body)"
  by (auto simp: keeps_def dest: apiRequest_talks)

lemma keeps_talks_result: "keeps (talks c) (requestResult c method p body dec zero)"
  unfolding requestResult_def
  by (intro keeps_attempt talks_relation keeps_talks_request)
    (auto simp: keeps_def succeed_def failWith_def split: if_splits prod.splits)

lemma requestResult_ok:
  assumes "requestResult c method p body dec zero w = (Inr v, w')"
  shows "budget w = Suc (budget w')"
    and "\<exists>t. requestTarget c p = Inr t \<and> calls w' = calls w @ [callFor c method t body]"
proof -
  from assms obtain answer w1 where "apiRequest c method p body w = (Inr answer, w1)" "w' = w1"
    unfolding requestResult_def
    by (auto simp: attempt_eq_Inr_iff succeed_def failWith_def split: if_splits prod.splits)
  then show "budget w = Suc (budget w')"
    "\<exists>t. requestTarget c p = Inr t \<and> calls w' = calls w @ [callFor c method t body]"
    by (auto elim: apiRequest_ok)
qed

section \<open>Listing\<close>

text \<open>\<open>ListBiots\<close> asks for page after page. It ends because every page it gets uses up the
  budget.\<close>

function listPages :: "client \<Rightarrow> string \<Rightarrow> biot list \<Rightarrow> biot list cmd" where
  "listPages c after biots w =
     (case fetchPage c after w of
        (Inl e, w') \<Rightarrow> (Inl e, w')
      | (Inr page, w') \<Rightarrow>
          if length page < pageSize then (Inr (biots @ page), w')
          else if biotID (last page) = [] \<or> biotID (last page) = after
          then (Inl (msg ''the server returned an invalid Biot listing cursor''), w')
          else listPages c (biotID (last page)) (biots @ page) w')"
  by pat_completeness auto
termination
  by (relation "measure (\<lambda>(c, after, biots, w). budget w)")
    (auto simp: fetchPage_def dest!: sym [of _ "requestResult _ _ _ _ _ _ _"] dest: requestResult_ok)

declare listPages.simps [simp del]

definition ListBiots :: "client \<Rightarrow> biot list cmd" where
  "ListBiots c = listPages c [] []"

end
