(* ===== verification/Cli_Id.thy ===== *)
theory Cli_Id
  imports Go_Marshal
begin

text \<open>
  The identifier a new Biot gets (\<open>cli/internal/id/id.go\<close>) and the pattern by which the client
  tells an identifier from a name (\<open>canonicalUUID\<close> in \<open>cli/internal/resolve/biot.go\<close>).
\<close>

unbundle bit_operations_syntax

section \<open>The code\<close>

text \<open>\<open>%08x\<close> and its relatives over a slice: two lower-case digits for every byte.\<close>

definition hexByte :: "byte \<Rightarrow> string" where
  "hexByte b = [hexDigit (unat (drop_bit 4 b)), hexDigit (unat (b AND 0x0F))]"

definition hexBytes :: "byte list \<Rightarrow> string" where
  "hexBytes bs = concat (map hexByte bs)"

definition slice :: "nat \<Rightarrow> nat \<Rightarrow> 'a list \<Rightarrow> 'a list" where
  "slice i j xs = take (j - i) (drop i xs)"

text \<open>The formatting of \<open>New\<close> over the random bytes, and \<open>New\<close> itself: \<open>None\<close> is a failure
  of the random source, which fills all sixteen bytes otherwise.\<close>

definition formatId :: "byte list \<Rightarrow> string" where
  "formatId value =
     (let value = value[6 := (value ! 6 AND 0x0F) OR 0x40];
          value = value[8 := (value ! 8 AND 0x3F) OR 0x80]
      in hexBytes (slice 0 4 value) @ ''-'' @ hexBytes (slice 4 6 value) @ ''-'' @
         hexBytes (slice 6 8 value) @ ''-'' @ hexBytes (slice 8 10 value) @ ''-'' @
         hexBytes (slice 10 16 value))"

definition newId :: "byte list option \<Rightarrow> string option" where
  "newId random = map_option formatId random"

text \<open>The regular expression, as the list of the character classes it goes through.\<close>

definition hexLower :: "char \<Rightarrow> bool" where
  "hexLower c \<longleftrightarrow> c \<in> set ''0123456789abcdef''"

definition uuidPattern :: "(char \<Rightarrow> bool) list" where
  "uuidPattern =
     replicate 8 hexLower @ [(=) CHR ''-''] @ replicate 4 hexLower @ [(=) CHR ''-''] @
     [\<lambda>c. c \<in> set ''12345''] @ replicate 3 hexLower @ [(=) CHR ''-''] @
     [\<lambda>c. c \<in> set ''89ab''] @ replicate 3 hexLower @ [(=) CHR ''-''] @ replicate 12 hexLower"

definition canonicalUUID :: "string \<Rightarrow> bool" where
  "canonicalUUID s \<longleftrightarrow> length s = length uuidPattern \<and> list_all (\<lambda>(p, c). p c) (zip uuidPattern s)"

section \<open>Properties\<close>

lemma hexDigit_lower [simp]: "d < 16 \<Longrightarrow> hexLower (hexDigit d)"
proof -
  have "\<forall>d < 16. hexLower (hexDigit d)" by code_simp
  then show "d < 16 \<Longrightarrow> hexLower (hexDigit d)" by blast
qed

lemma high_nibble [simp]: "unat (drop_bit 4 b) < 16" for b :: byte
proof -
  have "unat b < 256" using unsigned_less [of b, where ?'a = nat] by simp
  moreover have "unat (drop_bit 4 b) = unat b div 16" by (simp add: drop_bit_eq_div unat_div)
  ultimately show ?thesis by linarith
qed

lemma low_bits:
  fixes b :: byte
  shows "unat (b AND 0x0F) < 16" "unat (b AND 3) < 4"
proof -
  have "b AND 0x0F = take_bit 4 b" "b AND 3 = take_bit 2 b"
    by (simp_all add: take_bit_eq_mask mask_eq_exp_minus_1)
  moreover have "unat (take_bit 4 b) < 2 ^ 4" "unat (take_bit 2 b) < 2 ^ 2"
    by (simp_all only: unsigned_take_bit_eq take_bit_nat_less_exp)
  ultimately show "unat (b AND 0x0F) < 16" "unat (b AND 3) < 4" by simp_all
qed

lemma version_nibble: "drop_bit 4 ((b AND 0x0F) OR 0x40) = (4 :: byte)"
  by (rule bit_word_eqI) (auto simp: bit_simps less_Suc_eq numeral_eq_Suc)

lemma variant_nibble:
  fixes b :: byte
  shows "unat (drop_bit 4 ((b AND 0x3F) OR 0x80)) \<in> {8, 9, 10, 11}"
proof -
  have "drop_bit 4 ((b AND 0x3F) OR 0x80) = (drop_bit 4 b AND 3) OR 8"
    by (rule bit_word_eqI) (auto simp: bit_simps less_Suc_eq numeral_eq_Suc)
  moreover obtain k where "k < 4" and k: "drop_bit 4 b AND 3 = word_of_nat k"
    using low_bits(2) [of "drop_bit 4 b"] that [of "unat (drop_bit 4 b AND 3)"] by simp
  moreover from \<open>k < 4\<close> consider "k = 0" | "k = 1" | "k = 2" | "k = 3" by linarith
  then have "unat (word_of_nat k OR 8 :: byte) \<in> {8, 9, 10, 11}" by cases simp_all
  ultimately show ?thesis by (simp only:)
qed

lemma hexDigit_values:
  "hexDigit 4 = CHR ''4''" "hexDigit 8 = CHR ''8''" "hexDigit 9 = CHR ''9''"
  "hexDigit 10 = CHR ''a''" "hexDigit 11 = CHR ''b''"
  by code_simp+

lemma hexByte_forms:
  obtains x y where "hexByte b = [x, y]" and "hexLower x" and "hexLower y"
  by (simp add: hexByte_def low_bits)

lemma hexBytes_lower: "list_all hexLower (hexBytes bs)" "length (hexBytes bs) = 2 * length bs"
proof -
  have "list_all hexLower (hexByte b)" for b by (simp add: hexByte_def low_bits)
  then show "list_all hexLower (hexBytes bs)" by (induction bs) (simp_all add: hexBytes_def)
  show "length (hexBytes bs) = 2 * length bs" by (induction bs) (simp_all add: hexBytes_def hexByte_def)
qed

lemma match_replicate:
  "list_all p s \<Longrightarrow> length s = n \<Longrightarrow> list_all (\<lambda>(p, c). p c) (zip (replicate n p) s)"
  by (induction s arbitrary: n) auto

lemma sixteen:
  assumes "length xs = 16"
  obtains a b c d e f g h i j k l m n p q where "xs = [a, b, c, d, e, f, g, h, i, j, k, l, m, n, p, q]"
  using assms by (auto simp: numeral_eq_Suc length_Suc_conv)

text \<open>C38: Every identifier \<open>New\<close> makes is a random UUID, version 4 of the RFC 4122 variant, and one the client
  takes for an identifier: whatever the sixteen random bytes, the formatted string matches \<open>canonicalUUID\<close> with
  the version digit 4, so \<open>biot show\<close> and every other command that is given a new Biot's ID fetches that
  Biot instead of searching for a name.\<close>

theorem new_id_canonical:
  assumes "random = Some value" and "length value = 16" and "newId random = Some s"
  shows "canonicalUUID s \<and> s ! 14 = CHR ''4'' \<and> s ! 19 \<in> set ''89ab''"
proof -
  obtain a b c d e f g h i j k l m n p q where v: "value = [a, b, c, d, e, f, g, h, i, j, k, l, m, n, p, q]"
    using assms(2) by (rule sixteen)
  let ?g = "(g AND 0x0F) OR 0x40" and ?i = "(i AND 0x3F) OR 0x80"
  have s: "s = hexBytes [a, b, c, d] @ CHR ''-'' # hexBytes [e, f] @ CHR ''-'' # hexByte ?g @ hexByte h @
      CHR ''-'' # hexByte ?i @ hexByte j @ CHR ''-'' # hexBytes [k, l, m, n, p, q]"
    using assms(1,3)
    by (simp add: newId_def formatId_def v slice_def Let_def numeral_eq_Suc) (simp add: hexBytes_def)
  obtain g2 where g: "hexByte ?g = [CHR ''4'', g2]" "hexLower g2"
    by (simp add: hexByte_def version_nibble hexDigit_values low_bits)
  obtain i1 i2 where i: "hexByte ?i = [i1, i2]" "i1 \<in> set ''89ab''" "hexLower i2"
    using variant_nibble [of i] by (auto simp: hexByte_def low_bits hexDigit_values)
  obtain h1 h2 where h: "hexByte h = [h1, h2]" "hexLower h1" "hexLower h2" by (rule hexByte_forms)
  obtain j1 j2 where j: "hexByte j = [j1, j2]" "hexLower j1" "hexLower j2" by (rule hexByte_forms)
  have three: "replicate 3 hexLower = [hexLower, hexLower, hexLower]" by (simp add: numeral_eq_Suc)
  have four: "CHR ''4'' \<in> set ''12345''" by simp
  have "length s = length uuidPattern" by (simp add: s uuidPattern_def hexBytes_lower g i h j)
  moreover have "list_all (\<lambda>(p, c). p c) (zip uuidPattern s)"
    unfolding s uuidPattern_def g(1) i(1) h(1) j(1) three append_Cons append_Nil
    using g(2) i(2,3) h(2,3) j(2,3) four
    by (simp add: match_replicate hexBytes_lower del: set_simps)
  moreover have "s ! 14 = CHR ''4'' \<and> s ! 19 = i1"
    by (simp add: s g(1) h(1) i(1) nth_append hexBytes_lower)
  ultimately show ?thesis using i(2) by (simp only: canonicalUUID_def)
qed

theorem new_id_canonical_witness:
  "canonicalUUID ''00000000-0000-4000-8000-000000000000'' \<and> ''00000000-0000-4000-8000-000000000000'' ! 14 = CHR ''4''"
proof -
  have "newId (Some (replicate 16 0)) = Some ''00000000-0000-4000-8000-000000000000''" by code_simp
  from new_id_canonical [OF refl _ this] show ?thesis by simp
qed

end
