(* ===== verification/Cli_Config.thy ===== *)
theory Cli_Config
  imports Cli_World
begin

text \<open>
  The saved login of \<open>cli/internal/config/config.go\<close>: where it is, how it is read, and the
  write to a temporary file that is renamed into place. The file system is a map from paths to
  files together with the operations that fail; the directories are not modelled beyond that.
\<close>

section \<open>The code\<close>

record config =
  ServerURL :: string
  Token :: string

definition configJson :: "config \<Rightarrow> json" where
  "configJson v = JObj [(''server_url'', JStr (ServerURL v)), (''token'', JStr (Token v))]"

definition decConfig :: "config decoder" where
  "decConfig = decStruct
     [(''server_url'', field ServerURL ServerURL_update decString),
      (''token'', field Token Token_update decString)]"

text \<open>\<open>fmt.Errorf("...: %w", err)\<close> over an error of the operating system.\<close>

definition osFailure :: "string \<Rightarrow> cliErr" where
  "osFailure text = Errorf [T (text @ '': ''), W (msg ''input/output error'')]"

text \<open>\<open>os.UserConfigDir\<close> gives an absolute directory, taken to be clean; \<open>filepath.Join\<close>
  appends to it.\<close>

definition configDirectory :: "string \<Rightarrow> string" where
  "configDirectory directory = directory @ ''/biot''"

definition configPath :: "string cmd" where
  "configPath w =
     (case configDir w of
        None \<Rightarrow> (Inl (osFailure ''find the user configuration directory''), w)
      | Some d \<Rightarrow> (Inr (configDirectory d @ ''/config.json''), w))"

definition loadConfig :: "config cmd" where
  "loadConfig =
     attempt configPath (\<lambda>p w.
       case files w p of
         None \<Rightarrow> (Inl (msg ''you are not logged in; run biot login''), w)
       | Some f \<Rightarrow>
           if fault w FsRead then (Inl (osFailure ''read Biot configuration''), w)
           else case unmarshal decConfig (contents f) \<lparr>ServerURL = [], Token = []\<rparr> of
             (v, ok) \<Rightarrow>
               if \<not> ok \<or> ServerURL v = [] \<or> Token v = []
               then (Inl (msg ''Biot configuration is invalid; run biot login''), w)
               else (Inr v, w))"

text \<open>The system calls of \<open>Save\<close>. A write that fails has written a part.\<close>

definition failing :: "fsOp \<Rightarrow> string \<Rightarrow> unit cmd" where
  "failing operation text w = (if fault w operation then (Inl (osFailure text), w) else (Inr (), w))"

definition createTemp :: "string \<Rightarrow> string cmd" where
  "createTemp directory =
     attempt (failing FsCreateTemp ''create temporary Biot configuration'') (\<lambda>_ w.
       let name = directory @ ''/.config-'' @ freshName w
       in (Inr name, w\<lparr>files := (files w)(name \<mapsto> \<lparr>contents = [], mode = 384\<rparr>)\<rparr>))"

definition chmodFile :: "string \<Rightarrow> nat \<Rightarrow> unit cmd" where
  "chmodFile name m =
     attempt (failing FsChmod ''protect Biot configuration'') (\<lambda>_ w.
       (Inr (), w\<lparr>files := (files w)(name := map_option (\<lambda>f. f\<lparr>mode := m\<rparr>) (files w name))\<rparr>))"

definition appendTo :: "string \<Rightarrow> string \<Rightarrow> world \<Rightarrow> world" where
  "appendTo name text w =
     w\<lparr>files := (files w)(name := map_option (\<lambda>f. f\<lparr>contents := contents f @ text\<rparr>) (files w name))\<rparr>"

definition writeAndClose :: "string \<Rightarrow> string \<Rightarrow> unit cmd" where
  "writeAndClose name text w =
     (if fault w FsWrite
      then (Inl (osFailure ''write Biot configuration''), appendTo name (take (partialWrite w) text) w)
      else if fault w FsClose then (Inl (osFailure ''write Biot configuration''), appendTo name text w)
      else (Inr (), appendTo name text w))"

definition renameFile :: "string \<Rightarrow> string \<Rightarrow> unit cmd" where
  "renameFile old new =
     attempt (failing FsRename ''replace Biot configuration'') (\<lambda>_ w.
       (Inr (), w\<lparr>files := (files w)(new := files w old, old := None)\<rparr>))"

definition removeTemp :: "string \<Rightarrow> unit cmd" where
  "removeTemp name =
     attempt (failing FsRemoveTemp ''remove'') (\<lambda>_ w. (Inr (), w\<lparr>files := (files w)(name := None)\<rparr>))"

definition saveConfig :: "config \<Rightarrow> unit cmd" where
  "saveConfig v =
     (if ServerURL v = [] \<or> Token v = [] then failWith (msg ''server URL and token are required'')
      else attempt configPath (\<lambda>p.
        attempt (\<lambda>w. (Inr (configDirectory (the (configDir w))), w)) (\<lambda>directory.
        attempt (failing FsMkdir ''create Biot configuration directory'') (\<lambda>_.
        attempt (createTemp directory) (\<lambda>temporary.
          deferred (removeTemp temporary)
            (attempt (chmodFile temporary 384) (\<lambda>_.
             attempt (writeAndClose temporary (jprint (configJson v) @ [CHR 0x0A])) (\<lambda>_.
               renameFile temporary p))))))))"

definition removeConfig :: "unit cmd" where
  "removeConfig =
     attempt configPath (\<lambda>p w.
       if files w p = None then (Inr (), w)
       else if fault w FsRemove then (Inl (osFailure ''remove Biot configuration''), w)
       else (Inr (), w\<lparr>files := (files w)(p := None)\<rparr>))"

definition configExists :: "bool cmd" where
  "configExists =
     attempt configPath (\<lambda>p w.
       if fault w FsStat then (Inl (osFailure ''check Biot configuration''), w)
       else (Inr (files w p \<noteq> None), w))"

section \<open>What a save does\<close>

definition savedFile :: "config \<Rightarrow> fileEntry" where
  "savedFile v = \<lparr>contents = jprint (configJson v) @ [CHR 0x0A], mode = 384\<rparr>"

definition configFile :: "world \<Rightarrow> string" where
  "configFile w = configDirectory (the (configDir w)) @ ''/config.json''"

definition tempFile :: "world \<Rightarrow> string" where
  "tempFile w = configDirectory (the (configDir w)) @ ''/.config-'' @ freshName w"

lemma temp_differs [simp]: "tempFile w \<noteq> configFile w" "configFile w \<noteq> tempFile w"
  by (simp_all add: tempFile_def configFile_def)

lemma configPath_run:
  "configPath w = (if configDir w = None then (Inl (osFailure ''find the user configuration directory''), w)
     else (Inr (configFile w), w))"
  by (auto simp: configPath_def configFile_def split: option.split)

text \<open>The part of \<open>Save\<close> that works on the temporary file, and what it leaves.\<close>

definition leftover :: "world \<Rightarrow> string \<Rightarrow> world" where
  "leftover w content =
     w\<lparr>files := (files w)(tempFile w := if fault w FsRemoveTemp
        then Some \<lparr>contents = content, mode = 384\<rparr> else None)\<rparr>"

definition saveText :: "config \<Rightarrow> string" where
  "saveText v = jprint (configJson v) @ [CHR 0x0A]"

definition onTemp :: "world \<Rightarrow> string \<Rightarrow> world" where
  "onTemp w content = w\<lparr>files := (files w)(tempFile w \<mapsto> \<lparr>contents = content, mode = 384\<rparr>)\<rparr>"

lemma onTemp_simps [simp]:
  "fault (onTemp w c) = fault w" "partialWrite (onTemp w c) = partialWrite w"
  "files (onTemp w c) = (files w)(tempFile w \<mapsto> \<lparr>contents = c, mode = 384\<rparr>)"
  "configDir (onTemp w c) = configDir w" "freshName (onTemp w c) = freshName w"
  "tempFile (onTemp w c) = tempFile w" "configFile (onTemp w c) = configFile w"
  by (simp_all add: onTemp_def tempFile_def configFile_def)

lemma createTemp_run:
  "\<not> fault w FsCreateTemp \<Longrightarrow>
     createTemp (configDirectory (the (configDir w))) w = (Inr (tempFile w), onTemp w [])"
  by (simp add: createTemp_def attempt_def failing_def onTemp_def tempFile_def Let_def)

lemma chmod_run:
  "chmodFile (tempFile w) 384 (onTemp w []) =
     (if fault w FsChmod then (Inl (osFailure ''protect Biot configuration''), onTemp w [])
      else (Inr (), onTemp w []))"
  by (simp add: chmodFile_def attempt_def failing_def onTemp_def)

lemma write_run:
  "writeAndClose (tempFile w) text (onTemp w []) =
     (if fault w FsWrite
      then (Inl (osFailure ''write Biot configuration''), onTemp w (take (partialWrite w) text))
      else if fault w FsClose then (Inl (osFailure ''write Biot configuration''), onTemp w text)
      else (Inr (), onTemp w text))"
proof -
  have "appendTo (tempFile w) t (onTemp w []) = onTemp w t" for t
    by (simp add: appendTo_def) (simp add: onTemp_def)
  then show ?thesis by (simp add: writeAndClose_def)
qed

lemma removeTemp_after: "snd (removeTemp (tempFile w) (onTemp w c)) = leftover w c"
  by (simp add: removeTemp_def attempt_def failing_def leftover_def) (simp add: onTemp_def)

definition saved :: "config \<Rightarrow> world \<Rightarrow> world" where
  "saved v w = w\<lparr>files := (files w)(configFile w := Some (savedFile v), tempFile w := None)\<rparr>"

lemma rename_run:
  "renameFile (tempFile w) (configFile w) (onTemp w (saveText v)) =
     (if fault w FsRename
      then (Inl (osFailure ''replace Biot configuration''), onTemp w (saveText v)) else (Inr (), saved v w))"
proof -
  have "(files w)(tempFile w \<mapsto> f, configFile w \<mapsto> f, tempFile w := None)
      = (files w)(configFile w \<mapsto> f, tempFile w := None)" for f
    by (simp add: fun_eq_iff)
  then show ?thesis
    by (simp add: renameFile_def attempt_def failing_def saved_def)
      (simp add: onTemp_def savedFile_def saveText_def)
qed

lemma removeTemp_saved: "snd (removeTemp (tempFile w) (saved v w)) = saved v w"
  by (simp add: removeTemp_def attempt_def failing_def saved_def)

lemma saveConfig_run:
  "saveConfig v w =
     (if ServerURL v = [] \<or> Token v = [] then (Inl (msg ''server URL and token are required''), w)
      else if configDir w = None then (Inl (osFailure ''find the user configuration directory''), w)
      else if fault w FsMkdir then (Inl (osFailure ''create Biot configuration directory''), w)
      else if fault w FsCreateTemp then (Inl (osFailure ''create temporary Biot configuration''), w)
      else if fault w FsChmod then (Inl (osFailure ''protect Biot configuration''), leftover w [])
      else if fault w FsWrite
      then (Inl (osFailure ''write Biot configuration''), leftover w (take (partialWrite w) (saveText v)))
      else if fault w FsClose then (Inl (osFailure ''write Biot configuration''), leftover w (saveText v))
      else if fault w FsRename
      then (Inl (osFailure ''replace Biot configuration''), leftover w (saveText v))
      else (Inr (), saved v w))"
proof (cases "ServerURL v = [] \<or> Token v = [] \<or> configDir w = None \<or> fault w FsMkdir \<or> fault w FsCreateTemp")
  case True
  then show ?thesis
    by (auto simp: saveConfig_def attempt_def configPath_run failing_def failWith_def createTemp_def)
next
  case False
  then obtain d where d: "configDir w = Some d" by auto
  from False have "saveConfig v w =
      deferred (removeTemp (tempFile w))
        (attempt (chmodFile (tempFile w) 384) (\<lambda>_.
         attempt (writeAndClose (tempFile w) (saveText v)) (\<lambda>_.
           renameFile (tempFile w) (configFile w)))) (onTemp w [])"
    by (auto simp: saveConfig_def attempt_def configPath_run failing_def createTemp_run saveText_def)
  then show ?thesis
    using False d
    by (simp add: deferred_def attempt_def chmod_run write_run rename_run removeTemp_after removeTemp_saved
        split: if_split)
qed

section \<open>Reading it back\<close>

definition configText :: "config \<Rightarrow> bool" where
  "configText v \<longleftrightarrow> utf8Valid (ServerURL v) \<and> utf8Valid (Token v)"

lemma load_saved:
  assumes "configText v" and "ServerURL v \<noteq> []" and "Token v \<noteq> []" and "configDir w \<noteq> None"
    and "files w (configFile w) = Some (savedFile v)" and "\<not> fault w FsRead"
  shows "loadConfig w = (Inr v, w)"
proof -
  have "jsonOk (configJson v)" "jdepth (configJson v) \<le> maxNestingDepth"
    using assms(1) by (auto simp: configJson_def configText_def maxNestingDepth_def code_def
        intro!: utf8Valid_text)
  from parse_jprint_line [OF this]
  have "parseJson (contents (savedFile v)) = Some (configJson v)" by (simp add: savedFile_def)
  then have "unmarshal decConfig (contents (savedFile v)) \<lparr>ServerURL = [], Token = []\<rparr> = (v, True)"
    by (simp add: unmarshal_def decConfig_def configJson_def fieldFor_def field_def)
  with assms show ?thesis
    by (simp add: loadConfig_def attempt_def configPath_run)
qed

lemma load_none:
  "configDir w \<noteq> None \<Longrightarrow> files w (configFile w) = None \<Longrightarrow>
     loadConfig w = (Inl (msg ''you are not logged in; run biot login''), w)"
  by (auto simp: loadConfig_def attempt_def configPath_run)

lemma saved_simps [simp]:
  "configDir (saved v w) = configDir w" "fault (saved v w) = fault w" "configFile (saved v w) = configFile w"
  "files (saved v w) (configFile w) = Some (savedFile v)"
  by (simp_all add: saved_def configFile_def tempFile_def)

lemma removeConfig_run:
  "configDir w \<noteq> None \<Longrightarrow> removeConfig w = (Inr (), w') \<Longrightarrow>
     configDir w' = configDir w \<and> fault w' = fault w \<and> configFile w' = configFile w
     \<and> files w' (configFile w) = None"
  by (auto simp: removeConfig_def attempt_def configPath_run configFile_def split: if_splits)

text \<open>
  The contract the commands rely on, whatever stores the login: what was saved last is what is
  loaded, and after a removal nothing is. \<open>usable\<close> says that the store can be read.
\<close>

datatype 'c storeOp = Saved 'c | Removed

fun perform ::
  "('c \<Rightarrow> 'w \<Rightarrow> 'w option) \<Rightarrow> ('w \<Rightarrow> 'w option) \<Rightarrow> 'c storeOp list \<Rightarrow> 'w \<Rightarrow> 'w option" where
  "perform sav rm [] w = Some w"
| "perform sav rm (Saved c # ops) w = Option.bind (sav c w) (perform sav rm ops)"
| "perform sav rm (Removed # ops) w = Option.bind (rm w) (perform sav rm ops)"

locale store =
  fixes save :: "'c \<Rightarrow> 'w \<Rightarrow> 'w option" and remove :: "'w \<Rightarrow> 'w option"
    and load :: "'w \<Rightarrow> 'c option" and good :: "'c \<Rightarrow> bool" and usable :: "'w \<Rightarrow> bool"
  assumes load_save: "usable w \<Longrightarrow> good c \<Longrightarrow> save c w = Some w' \<Longrightarrow> load w' = Some c \<and> usable w'"
    and load_remove: "usable w \<Longrightarrow> remove w = Some w' \<Longrightarrow> load w' = None \<and> usable w'"
begin

lemma load_last:
  "usable w \<Longrightarrow> perform save remove (ops @ [opn]) w = Some w' \<Longrightarrow> \<forall>c. Saved c \<in> set (ops @ [opn]) \<longrightarrow> good c \<Longrightarrow>
     load w' = (case opn of Saved c \<Rightarrow> Some c | Removed \<Rightarrow> None)"
proof (induction ops arbitrary: w)
  case Nil
  then show ?case
    by (cases opn) (auto simp: bind_eq_Some_conv dest: load_save load_remove)
next
  case (Cons x ops)
  show ?case
  proof (cases x)
    case (Saved c)
    with Cons.prems obtain u where "save c w = Some u" "perform save remove (ops @ [opn]) u = Some w'"
      by (auto simp: bind_eq_Some_conv)
    with Cons.prems Saved Cons.IH [of u] load_save [of w c u] show ?thesis by simp
  next
    case Removed
    with Cons.prems obtain u where "remove w = Some u" "perform save remove (ops @ [opn]) u = Some w'"
      by (auto simp: bind_eq_Some_conv)
    with Cons.prems Removed Cons.IH [of u] load_remove [of w u] show ?thesis by simp
  qed
qed

end

definition worldAfter :: "unit cmd \<Rightarrow> world \<Rightarrow> world option" where
  "worldAfter m w = (case m w of (Inr _, w') \<Rightarrow> Some w' | (Inl _, _) \<Rightarrow> None)"

definition loadedConfig :: "world \<Rightarrow> config option" where
  "loadedConfig w = (case loadConfig w of (Inr v, _) \<Rightarrow> Some v | (Inl _, _) \<Rightarrow> None)"

definition readable :: "world \<Rightarrow> bool" where
  "readable w \<longleftrightarrow> configDir w \<noteq> None \<and> \<not> fault w FsRead"

interpretation loginStore: store "\<lambda>v. worldAfter (saveConfig v)" "worldAfter removeConfig"
    loadedConfig configText readable
proof
  fix w w' :: world and v
  assume u: "readable w" and "configText v" and s: "worldAfter (saveConfig v) w = Some w'"
  from s have "saveConfig v w = (Inr (), w')"
    by (auto simp: worldAfter_def split: prod.splits sum.splits)
  then have "w' = saved v w" "ServerURL v \<noteq> []" "Token v \<noteq> []"
    by (auto simp: saveConfig_run split: if_splits)
  with u \<open>configText v\<close> show "loadedConfig w' = Some v \<and> readable w'"
    by (simp add: loadedConfig_def readable_def load_saved)
next
  fix w w' :: world
  assume u: "readable w" and s: "worldAfter removeConfig w = Some w'"
  from s have "removeConfig w = (Inr (), w')"
    by (auto simp: worldAfter_def split: prod.splits sum.splits)
  with u removeConfig_run [of w w'] have "configDir w' \<noteq> None" "files w' (configFile w') = None"
    "readable w'" by (simp_all add: readable_def)
  with load_none [of w'] show "loadedConfig w' = None \<and> readable w'"
    by (simp add: loadedConfig_def)
qed

section \<open>Properties\<close>

text \<open>C11: A save is all or nothing. Whatever system calls fail, and wherever, the saved login is
  afterwards either exactly what it was or the complete new login, readable by its owner only; it is
  the new one exactly when \<open>Save\<close> reports success. The temporary file is gone unless the system
  refused to remove it, and no other file is touched.\<close>

theorem save_atomic:
  "\<exists>r w'. saveConfig v w = (r, w') \<and>
     files w' (configFile w) = (if isOk r then Some \<lparr>contents = jprint (configJson v) @ [CHR 0x0A], mode = 384\<rparr>
       else files w (configFile w)) \<and>
     (files w' (tempFile w) = None \<or> files w' (tempFile w) = files w (tempFile w) \<or> fault w FsRemoveTemp) \<and>
     files w' = (files w)(configFile w := files w' (configFile w), tempFile w := files w' (tempFile w))"
  by (simp add: saveConfig_run leftover_def saved_def savedFile_def fun_eq_iff)

text \<open>C27: The login that is loaded is the last one saved. After any sequence of successful logins
  and logouts, \<open>Load\<close> gives back exactly the server and token of the last login, or finds no login
  if the last of them was a logout. The files must be readable, and the texts saved valid UTF-8, which JSON
  would otherwise change.\<close>

theorem load_after_sequence:
  assumes "readable w" and "perform (\<lambda>v. worldAfter (saveConfig v)) (worldAfter removeConfig) (ops @ [opn]) w = Some w'"
    and "\<forall>v. Saved v \<in> set (ops @ [opn]) \<longrightarrow> configText v"
  shows "loadedConfig w' = (case opn of Saved v \<Rightarrow> Some v | Removed \<Rightarrow> None)"
  using assms by (rule loginStore.load_last)

theorem load_after_sequence_witness:
  "\<exists>w'. perform (\<lambda>v. worldAfter (saveConfig v)) (worldAfter removeConfig)
      [Saved \<lparr>ServerURL = ''https://a'', Token = ''t1''\<rparr>, Removed, Saved \<lparr>ServerURL = ''https://b'', Token = ''t2''\<rparr>]
      (quietWorld noServer) = Some w' \<and> loadedConfig w' = Some \<lparr>ServerURL = ''https://b'', Token = ''t2''\<rparr>"
proof -
  let ?a = "\<lparr>ServerURL = ''https://a'', Token = ''t1''\<rparr>" and ?b = "\<lparr>ServerURL = ''https://b'', Token = ''t2''\<rparr>"
  let ?p = "perform (\<lambda>v. worldAfter (saveConfig v)) (worldAfter removeConfig) ([Saved ?a, Removed] @ [Saved ?b])
    (quietWorld noServer)"
  have s: "saveConfig v w = (Inr (), saved v w)"
    if "configDir w \<noteq> None" "fault w = (\<lambda>_. False)" "ServerURL v \<noteq> []" "Token v \<noteq> []" for v w
    using that by (simp add: saveConfig_run)
  have r: "\<exists>w'. removeConfig w = (Inr (), w') \<and> configDir w' = configDir w \<and> fault w' = fault w"
    if "configDir w \<noteq> None" "fault w = (\<lambda>_. False)" for w
    using that by (auto simp: removeConfig_def attempt_def configPath_run)
  have q: "configDir (quietWorld noServer) \<noteq> None" "fault (quietWorld noServer) = (\<lambda>_. False)"
    by (simp_all add: quietWorld_def)
  obtain w1 where w1: "removeConfig (saved ?a (quietWorld noServer)) = (Inr (), w1)"
    "configDir w1 \<noteq> None" "fault w1 = (\<lambda>_. False)"
    using r [of "saved ?a (quietWorld noServer)"] q by auto
  have p: "?p = Some (saved ?b w1)"
    using q w1 by (simp add: worldAfter_def s)
  have "loadedConfig (saved ?b w1) = Some ?b"
    using load_after_sequence [OF _ p] q
    by (auto simp: readable_def configText_def utf8Valid_text code_def)
  with p show ?thesis by auto
qed

end
