(* ===== verification/Cli_Resolve.thy ===== *)
theory Cli_Resolve
  imports Cli_Api Cli_Id Cli_Config
begin

text \<open>
  From a name or an identifier to a Biot (\<open>cli/internal/resolve/biot.go\<close>), and the client made
  from the saved login (\<open>loadClient\<close> in \<open>cli/cmd/biot/commands.go\<close>).
\<close>

section \<open>The code\<close>

definition ambiguous :: "string \<Rightarrow> biot list \<Rightarrow> cliErr" where
  "ambiguous reference matches =
     Errorf [T ''Biot name '', Q reference, T ('' is ambiguous; matching IDs are ''
       @ joinWith '', '' (map biotID matches) @ ''. Use an ID.'')]"

definition pickMatch :: "string \<Rightarrow> biot list \<Rightarrow> (cliErr, biot) result" where
  "pickMatch reference matches =
     (case matches of
        [b] \<Rightarrow> Inr b
      | [] \<Rightarrow> Inl (msg ''That Biot was not found.'')
      | _ \<Rightarrow> Inl (ambiguous reference matches))"

definition resolveBiot :: "client \<Rightarrow> string \<Rightarrow> biot cmd" where
  "resolveBiot c reference =
     (if canonicalUUID reference then GetBiot c reference
      else attempt (ListBiots c) (\<lambda>biots.
        lift (pickMatch reference (filter (\<lambda>b. biotName b = reference) biots))))"

definition loadClient :: "client cmd" where
  "loadClient = attempt loadConfig (\<lambda>v. lift (newClient (ServerURL v) (config.Token v)))"

section \<open>What it does to the world\<close>

lemma keeps_talks_page: "keeps (talks c) (fetchPage c after)"
  using keepsD [OF keeps_talks_result] by (auto simp: keeps_def fetchPage_def)

lemma listPages_keeps:
  assumes "reflp R" and "transp R" and "\<And>after. keeps R (fetchPage c after)"
  shows "listPages c after biots w = (r, w') \<Longrightarrow> R w w'"
  using assms
proof (induction c after biots w rule: listPages.induct)
  case (1 c after biots w)
  obtain rp w1 where p: "fetchPage c after w = (rp, w1)" by fastforce
  have t: "R w w1" using keepsD [OF "1.prems"(4) p] .
  show ?case
  proof (cases rp)
    case (Inl e)
    with "1.prems" p t show ?thesis by (subst (asm) listPages.simps) simp
  next
    case (Inr page)
    show ?thesis
    proof (cases "length page < pageSize \<or> biotID (last page) = [] \<or> biotID (last page) = after")
      case True
      with "1.prems"(1) p Inr t show ?thesis by (subst (asm) listPages.simps) (auto split: if_splits)
    next
      case False
      then have "listPages c (biotID (last page)) (biots @ page) w1 = (r, w')"
        using "1.prems"(1) p Inr by (subst (asm) listPages.simps) simp
      with "1.IH" [OF p [symmetric] Inr] False "1.prems" have "R w1 w'" by blast
      with t "1.prems"(3) show ?thesis by (blast dest: transpD)
    qed
  qed
qed

lemma listPages_talks: "listPages c after biots w = (r, w') \<Longrightarrow> talks c w w'"
  by (rule listPages_keeps [OF talks_relation keeps_talks_page])

lemma keeps_talks_list: "keeps (talks c) (ListBiots c)"
  by (auto simp: keeps_def ListBiots_def dest: listPages_talks)

lemma keeps_talks_get: "keeps (talks c) (GetBiot c i)"
  using keepsD [OF keeps_talks_result] by (auto simp: keeps_def GetBiot_def decodeBiot_def)

lemma keeps_talks_resolve: "keeps (talks c) (resolveBiot c reference)"
  unfolding resolveBiot_def
  by (auto intro!: keeps_attempt talks_relation keeps_talks_list keeps_talks_get simp: talks_relation)

lemma pickMatch_iff: "pickMatch reference matches = Inr b \<longleftrightarrow> matches = [b]"
  by (auto simp: pickMatch_def split: list.splits)

section \<open>The saved client\<close>

text \<open>The client of the saved login; loading it changes nothing.\<close>

definition savedClient :: "world \<Rightarrow> (cliErr, client) result" where
  "savedClient w = fst (loadClient w)"

lemma loadClient_run: "loadClient w = (savedClient w, w)"
proof -
  have "snd (loadClient w) = w"
    by (auto simp: loadClient_def loadConfig_def configPath_def attempt_def lift_def
        split: option.splits prod.splits sum.splits)
  then show ?thesis by (simp add: savedClient_def prod_eq_iff)
qed

text \<open>A logged-in world, for the examples.\<close>

definition demoWorld :: "(call list \<Rightarrow> exchange) \<Rightarrow> world" where
  "demoWorld srv = saved \<lparr>ServerURL = ''https://b'', Token = ''t''\<rparr> (quietWorld srv)"

definition demoClient :: client where
  "demoClient = \<lparr>baseURL = noUrl\<lparr>Scheme := ''https'', Host := ''b''\<rparr>, token = ''t''\<rparr>"

lemma demo_client: "savedClient (demoWorld srv) = Inr demoClient"
proof -
  have "loadConfig (demoWorld srv) = (Inr \<lparr>ServerURL = ''https://b'', Token = ''t''\<rparr>, demoWorld srv)"
    unfolding demoWorld_def
    by (rule load_saved) (auto simp: configText_def utf8Valid_text code_def quietWorld_def)
  moreover have "newClient ''https://b'' ''t'' = Inr demoClient" by code_simp
  ultimately show ?thesis by (simp add: savedClient_def loadClient_def attempt_def lift_def)
qed

lemma demo_calls: "calls (demoWorld srv) = []" "server (demoWorld srv) = srv" "budget (demoWorld srv) = 100"
  by (simp_all add: demoWorld_def saved_def quietWorld_def)

text \<open>A request that is answered, whatever comes with the answer.\<close>

lemma requestResult_answered:
  assumes "requestTarget c p = Inr t" and "headerText (''Bearer '' @ token c)" and "budget w = Suc n"
    and "server w (calls w @ [callFor c method t body]) = Response False st ans None" and "200 \<le> st" "st < 300"
    and "length ans \<le> maxResponseBytes" and "ans \<noteq> []" and "unmarshal dec ans zero = (v, True)"
  shows "requestResult c method p body dec zero w =
    (Inr v, w\<lparr>calls := calls w @ [callFor c method t body], budget := n\<rparr>)"
  using assms
  by (auto simp: requestResult_def attempt_def apiRequest_run sendCall_def respond_def noticeOf_def
      readBounded_def result_simps callFor_def)

lemma apiRequest_sent:
  assumes "apiRequest c method p body w = (r, w')" and "requestTarget c p = Inr t"
    and "headerText (''Bearer '' @ token c)" and "budget w = Suc n"
  shows "calls w' = calls w @ [callFor c method t body]"
proof -
  obtain x w1 where s: "sendCall (callFor c method t body) w = (x, w1)" by fastforce
  with assms(3,4) have "calls w1 = calls w @ [callFor c method t body]"
    by (auto simp: sendCall_def callFor_def split: if_splits)
  with assms(1,2) s show ?thesis by (auto simp: apiRequest_run dest!: respond_talks)
qed

lemma requestNothing_answered:
  assumes "requestTarget c p = Inr t" and "headerText (''Bearer '' @ token c)" and "budget w = Suc n"
    and "server w (calls w @ [callFor c method t body]) = Response False st ans None" and "200 \<le> st" "st < 300"
    and "length ans \<le> maxResponseBytes"
  shows "requestNothing c method p body w = (Inr (), w\<lparr>calls := calls w @ [callFor c method t body], budget := n\<rparr>)"
  using assms
  by (auto simp: requestNothing_def attempt_def apiRequest_run sendCall_def respond_def noticeOf_def
      readBounded_def result_simps callFor_def)

definition answer :: "json \<Rightarrow> exchange" where
  "answer j = Response False 200 (jprint j @ [CHR 0x0A]) None"

lemma requestResult_json:
  assumes "requestTarget c p = Inr t" and "headerText (''Bearer '' @ token c)" and "budget w = Suc n"
    and "server w (calls w @ [callFor c method t body]) = answer j"
    and "jsonOk j" and "jdepth j \<le> maxNestingDepth" and "length (jprint j) < 1000"
    and "dec j zero = (v, True)"
  shows "requestResult c method p body dec zero w =
    (Inr v, w\<lparr>calls := calls w @ [callFor c method t body], budget := n\<rparr>)"
proof (rule requestResult_answered [where st = 200 and ans = "jprint j @ [CHR 0x0A]"])
  show "unmarshal dec (jprint j @ [CHR 0x0A]) zero = (v, True)"
    using parse_jprint_line [OF assms(5,6)] assms(8) by (simp add: unmarshal_def)
  show "length (jprint j @ [CHR 0x0A]) \<le> maxResponseBytes" using assms(7) by (simp add: maxResponseBytes_def)
qed (use assms in \<open>simp_all add: answer_def\<close>)

lemma demo_header: "headerText (''Bearer '' @ token demoClient)"
  by code_simp

section \<open>Properties\<close>

text \<open>C28: A name resolves to a Biot only when it is the only one with that name: for a reference that
  is not an identifier, \<open>Biot\<close> succeeds exactly when the listing succeeds and holds exactly one Biot
  of that name, and gives that one; no match and several matches are errors, and an identifier never
  goes through the listing.\<close>

theorem resolve_unique:
  "resolveBiot c reference w = (Inr b, w') \<longleftrightarrow>
     (if canonicalUUID reference then GetBiot c reference w = (Inr b, w')
      else \<exists>biots. ListBiots c w = (Inr biots, w') \<and> filter (\<lambda>x. biotName x = reference) biots = [b])"
  by (auto simp: resolveBiot_def attempt_eq_Inr_iff lift_def pickMatch_iff)

end
