(* ===== verification/Cli_Command.thy ===== *)
theory Cli_Command
  imports Cli_World
begin

text \<open>
  The command tree of \<open>cli/internal/command/command.go\<close>: finding the command a line of arguments
  names, printing help, and the checks on arguments, with the two wrappers of
  \<open>cli/cmd/biot/main.go\<close>. A command without \<open>Run\<close> that is run is a nil dereference.
\<close>

section \<open>The code\<close>

datatype cmdTree =
  Cmd (cmdName: string) (cmdSynopsis: string) (cmdDescription: string) (cmdOptions: string)
    (cmdRun: "(string list \<Rightarrow> unit cmd) option") (cmdChildren: "cmdTree list")

definition plural :: "int \<Rightarrow> string" where
  "plural count = (if count = 1 then [] else ''s'')"

fun containsArgument :: "string list \<Rightarrow> string \<Rightarrow> bool" where
  "containsArgument [] wanted = False"
| "containsArgument (v # vs) wanted = (v = wanted \<or> containsArgument vs wanted)"

definition RequireArguments :: "string \<Rightarrow> string list \<Rightarrow> nat \<Rightarrow> (cliErr, unit) result" where
  "RequireArguments commandName arguments count =
     (if length arguments \<noteq> count
      then Inl (msg (commandName @ '' expects '' @ showNat count @ '' argument'' @ plural (int count) @
             ''; run biot '' @ commandName @ '' --help''))
      else Inr ())"

fun RejectUnknown :: "string list \<Rightarrow> string list \<Rightarrow> (cliErr, unit) result" where
  "RejectUnknown [] allowed = Inr ()"
| "RejectUnknown (a # as) allowed =
     (if hasPrefix a ''-'' \<and> \<not> containsArgument allowed a
      then Inl (Errorf [T ''unknown flag '', Q a])
      else RejectUnknown as allowed)"

definition RequireAtMostArguments :: "string \<Rightarrow> string list \<Rightarrow> nat \<Rightarrow> (cliErr, unit) result" where
  "RequireAtMostArguments commandName arguments count =
     (if length arguments > count
      then Inl (msg (commandName @ '' accepts at most '' @ showNat count @ '' argument'' @
             plural (int count) @ ''; run biot '' @ commandName @ '' --help''))
      else Inr ())"

definition rejectUnknown :: "string \<Rightarrow> string list \<Rightarrow> string list \<Rightarrow> (cliErr, unit) result" where
  "rejectUnknown commandName arguments allowed =
     mapErr (\<lambda>err. Errorf [W err, T (''; run biot '' @ commandName @ '' --help'')])
       (RejectUnknown arguments allowed)"

definition validateArguments ::
  "string \<Rightarrow> string list \<Rightarrow> nat \<Rightarrow> string list \<Rightarrow> (cliErr, unit) result" where
  "validateArguments commandName arguments count allowed =
     andThen (rejectUnknown commandName arguments allowed) (\<lambda>_.
       RequireArguments commandName arguments count)"

text \<open>\<open>%-20s\<close> pads with spaces to twenty runes.\<close>

function runeCount :: "string \<Rightarrow> nat" where
  "runeCount s =
     (if s = [] then 0
      else Suc (runeCount (drop (case utf8Head s of None \<Rightarrow> 1 | Some (r, n) \<Rightarrow> n) s)))"
  by pat_completeness auto
termination
  by (relation "measure length") (auto dest: utf8Head_size(1) split: option.splits)

declare runeCount.simps [simp del]

definition padRight :: "nat \<Rightarrow> string \<Rightarrow> string" where
  "padRight n s = s @ replicate (n - runeCount s) (CHR '' '')"

definition helpCommand :: "cmdTree \<Rightarrow> unit cmd" where
  "helpCommand c =
     attempt (put [T (''Usage: '' @ cmdSynopsis c)]) (\<lambda>_.
     attempt (if cmdDescription c \<noteq> []
              then put [T ([CHR 0x0A, CHR 0x0A] @ cmdDescription c)] else succeed ()) (\<lambda>_.
     attempt (if cmdOptions c \<noteq> []
              then put [T ([CHR 0x0A, CHR 0x0A] @ ''Options:'' @ [CHR 0x0A] @ cmdOptions c)] else succeed ()) (\<lambda>_.
     attempt (if cmdChildren c \<noteq> []
              then attempt (put [T ([CHR 0x0A, CHR 0x0A] @ ''Commands:'' @ [CHR 0x0A])]) (\<lambda>_.
                eachDo (\<lambda>child. put [T (''  '' @ padRight 20 (cmdName child) @ '' '' @
                  cmdDescription child @ [CHR 0x0A])]) (cmdChildren c))
              else succeed ()) (\<lambda>_.
     put [T [CHR 0x0A]]))))"

definition runCommand :: "cmdTree \<Rightarrow> string list \<Rightarrow> unit cmd" where
  "runCommand c arguments =
     (case cmdRun c of Some run \<Rightarrow> run arguments | None \<Rightarrow> failWith (Panic ''nil Run''))"

fun executeCommand :: "cmdTree \<Rightarrow> string list \<Rightarrow> unit cmd" where
  "executeCommand c [] =
     (if cmdChildren c \<noteq> [] then helpCommand c else runCommand c [])"
| "executeCommand c (a # as) =
     (if a = ''--help'' \<or> a = ''-h'' then helpCommand c
      else if hasPrefix a ''-'' then
        (if cmdRun c \<noteq> None then runCommand c (a # as)
         else failWith (Errorf [T ''unknown flag '', Q a, T (''; run biot '' @ cmdName c @ '' --help'')]))
      else case find (\<lambda>child. cmdName child = a) (cmdChildren c) of
        Some child \<Rightarrow> executeCommand child as
      | None \<Rightarrow>
          if cmdChildren c \<noteq> []
          then failWith (Errorf [T ''unknown command '', Q a, T (''; run '' @ cmdName c @ '' --help'')])
          else runCommand c (a # as))"

section \<open>What the checks accept\<close>

lemma containsArgument_iff [simp]: "containsArgument vs a \<longleftrightarrow> a \<in> set vs"
  by (induction vs) auto

lemma RejectUnknown_ok:
  "RejectUnknown arguments allowed = Inr () \<longleftrightarrow> (\<forall>a \<in> set arguments. hasPrefix a ''-'' \<longrightarrow> a \<in> set allowed)"
  by (induction arguments) auto

lemma rejectUnknown_ok:
  "rejectUnknown name arguments allowed = Inr () \<longleftrightarrow>
     (\<forall>a \<in> set arguments. hasPrefix a ''-'' \<longrightarrow> a \<in> set allowed)"
  by (simp add: rejectUnknown_def RejectUnknown_ok)

lemma validateArguments_ok:
  "validateArguments name arguments n allowed = Inr () \<longleftrightarrow>
     length arguments = n \<and> (\<forall>a \<in> set arguments. hasPrefix a ''-'' \<longrightarrow> a \<in> set allowed)"
  by (auto simp: validateArguments_def andThen_eq_Inr_iff rejectUnknown_ok RequireArguments_def)

section \<open>Dispatch\<close>

text \<open>A tree in which every command can be run or has children, and every \<open>Run\<close> satisfies a predicate.
  Whatever holds of those, of printing help and of reporting a mistake holds of a whole line.\<close>

fun soundTree :: "((string list \<Rightarrow> unit cmd) \<Rightarrow> bool) \<Rightarrow> cmdTree \<Rightarrow> bool" where
  "soundTree P (Cmd name synopsis description options run children) =
     ((case run of Some f \<Rightarrow> P f | None \<Rightarrow> children \<noteq> []) \<and> list_all (soundTree P) children)"

lemma soundTree_run: "soundTree P t \<Longrightarrow> cmdRun t = Some f \<Longrightarrow> P f"
  by (cases t) auto

lemma soundTree_children: "soundTree P t \<Longrightarrow> child \<in> set (cmdChildren t) \<Longrightarrow> soundTree P child"
  by (cases t) (auto simp: list_all_iff)

lemma soundTree_runs: "soundTree P t \<Longrightarrow> cmdChildren t = [] \<Longrightarrow> \<exists>f. cmdRun t = Some f"
  by (cases t) (auto split: option.splits)

lemma execute_sound:
  assumes "soundTree P t" and "\<And>f as. P f \<Longrightarrow> good (f as)" and "\<And>c. good (helpCommand c)"
    and "\<And>ps. good (failWith (Errorf ps))"
  shows "good (executeCommand t args)"
  using assms(1)
proof (induction t args rule: executeCommand.induct)
  case (1 t)
  have "good (runCommand t [])" if n: "cmdChildren t = []"
    using soundTree_runs [OF 1 n] soundTree_run [OF 1] assms(2) by (auto simp: runCommand_def)
  then show ?case by (simp add: assms(3))
next
  case (2 t a as)
  have run: "good (runCommand t (a # as))" if "cmdRun t \<noteq> None"
    using that soundTree_run [OF "2.prems"] assms(2) by (auto simp: runCommand_def)
  have leaf: "cmdRun t \<noteq> None" if n: "cmdChildren t = []"
    using soundTree_runs [OF "2.prems" n] by auto
  have child: "good (executeCommand child as)"
    if "\<not> (a = ''--help'' \<or> a = ''-h'')" "\<not> hasPrefix a ''-''"
      and f: "find (\<lambda>child. cmdName child = a) (cmdChildren t) = Some child" for child
    using "2.IH" [OF that] soundTree_children [OF "2.prems"] f by (auto simp: find_Some_iff)
  show ?case
    using run leaf child assms(3,4) by (auto split: option.split)
qed

end
