(* ===== verification/Cli_Input.thy ===== *)
theory Cli_Input
  imports Cli_World Cli_Vocabulary
begin

text \<open>
  Reading from the person or from a pipe (\<open>cli/internal/input/input.go\<close>): a line, a hidden
  value, and a secret from standard input with its bound. Here \<open>Secret\<close> is what it computes; \<open>Cli_Prompt\<close> has its
  steps and the signal handler that restores the terminal. The clearing of buffers is not modelled.
\<close>

section \<open>The code\<close>

definition secretValueLimit :: "(string, nat) result" where
  "secretValueLimit =
     (case FieldReasonLimit ''secret_value_too_large'' of
        (lim, ok) \<Rightarrow> if ok then Inr (nat lim) else Inl ''CLI vocabulary has no secret value limit'')"

definition maxSecretBytes :: nat where
  "maxSecretBytes = (case secretValueLimit of Inr n \<Rightarrow> n | Inl _ \<Rightarrow> 0)"

definition secretTooLarge :: cliErr where
  "secretTooLarge = Errorf (FieldReasonMessage ''value'' ''secret_value_too_large'')"

definition ioFailure :: "string \<Rightarrow> cliErr" where
  "ioFailure text = Errorf [T (text @ '': ''), W (msg ''input/output error'')]"

text \<open>\<open>bufio.Reader.ReadString('\n')\<close> with the error it ends with, then the two trims.\<close>

definition readLine :: "(reader, cliErr, string) action" where
  "readLine r =
     (let text = takeWhile (\<lambda>b. b \<noteq> 10) (unread r); rest = dropWhile (\<lambda>b. b \<noteq> 10) (unread r);
          line = (if rest = [] then text else text @ [10])
      in if rest = [] \<and> ends r \<noteq> EOF then (Inl (ioFailure ''read input''), r\<lparr>unread := []\<rparr>)
         else (Inr (trimSuffix (trimSuffix (bytesString line) [CHR 0x0A]) [CHR 0x0D]),
               r\<lparr>unread := tl rest\<rparr>))"

definition inputLine :: "string \<Rightarrow> bool \<Rightarrow> string cmd" where
  "inputLine prompt fromStdin =
     attempt (putErr [T prompt]) (\<lambda>_. if fromStdin then onStdin readLine else onTty readLine)"

text \<open>\<open>Secret\<close> on the controlling terminal, or on standard input when there is none.\<close>

definition secretInput :: "string \<Rightarrow> byte list cmd" where
  "secretInput prompt w =
     (if \<not> hasTty w \<and> \<not> stdinIsTerminal w
      then (Inl (msg ''hidden input needs a terminal; use --stdin''), w)
      else attempt (putErr [T prompt]) (\<lambda>_ w.
        if terminalStateFails w then (Inl (ioFailure ''read terminal state''), w)
        else case hidden w of
          [] \<Rightarrow> (Inl (ioFailure ''read hidden input''), w)
        | None # rest \<Rightarrow> (Inl (ioFailure ''read hidden input''), w\<lparr>hidden := rest\<rparr>)
        | Some value # rest \<Rightarrow>
            attempt (putErr [T [CHR 0x0A]]) (\<lambda>_.
              if length value > maxSecretBytes then failWith secretTooLarge
              else succeed (stringBytes value)) (w\<lparr>hidden := rest\<rparr>)) w)"

definition stdinSecretFrom :: "(reader, cliErr, byte list) action" where
  "stdinSecretFrom =
     attempt (wrapErr (\<lambda>_. ioFailure ''read secret from stdin'') (readAllLimited (maxSecretBytes + 1)))
       (\<lambda>value. if length value > maxSecretBytes then failWith secretTooLarge else succeed value)"

definition StdinSecret :: "byte list cmd" where
  "StdinSecret = onStdin stdinSecretFrom"

definition bytesTrimOneLineEnding :: "byte list \<Rightarrow> byte list" where
  "bytesTrimOneLineEnding value =
     (if value \<noteq> [] \<and> last value = 10
      then let value = butlast value in
           if value \<noteq> [] \<and> last value = 13 then butlast value else value
      else value)"

definition StdinToken :: "byte list cmd" where
  "StdinToken = attempt StdinSecret (\<lambda>value. succeed (bytesTrimOneLineEnding value))"

section \<open>Properties\<close>

lemma maxSecretBytes_value: "maxSecretBytes = 65536"
proof -
  have "\<exists>r \<in> set vocabularyRows. r = [''secret_value_too_large'', ''field'', ''65536'',
      ''is larger than 65536 bytes; shorten it.'', ''none'']"
    by (simp add: vocabularyRows_def)
  then have "rowEntry [''secret_value_too_large'', ''field'', ''65536'',
      ''is larger than 65536 bytes; shorten it.'', ''none''] \<in> set vocabulary"
    by (auto simp: vocabulary_rows)
  then have "map_of vocabulary ''secret_value_too_large'' = Some \<lparr>kind = ''field'', limit = 65536,
      sentence = ''is larger than 65536 bytes; shorten it.'', remedy = False\<rparr>"
    unfolding vocabulary_lookup by (simp add: rowEntry_def)
  then show ?thesis
    by (simp add: maxSecretBytes_def secretValueLimit_def FieldReasonLimit_def)
qed

text \<open>C37: A secret piped to the client is taken whole or refused, never cut: with at most 65536
  bytes on standard input, \<open>StdinSecret\<close> gives exactly those bytes and leaves nothing; with more it
  is the error of the vocabulary, before anything is sent.\<close>

theorem stdin_secret_exact:
  assumes "ends r = EOF"
  shows "stdinSecretFrom r =
    (if length (unread r) \<le> 65536 then (Inr (unread r), r\<lparr>unread := []\<rparr>)
     else (Inl secretTooLarge, r\<lparr>unread := drop 65537 (unread r)\<rparr>))"
  using assms
  by (auto simp: stdinSecretFrom_def attempt_def wrapErr_def readAllLimited_def maxSecretBytes_value
      succeed_def failWith_def)

theorem stdin_secret_exact_witness:
  "stdinSecretFrom \<lparr>unread = [115, 51, 10], ends = EOF\<rparr> = (Inr [115, 51, 10], \<lparr>unread = [], ends = EOF\<rparr>)"
  by (subst stdin_secret_exact) simp_all

lemma trim_token:
  "bytesTrimOneLineEnding (v @ [10]) = (if v \<noteq> [] \<and> last v = 13 then butlast v else v)"
  "v = [] \<or> last v \<noteq> 10 \<Longrightarrow> bytesTrimOneLineEnding v = v"
  by (auto simp: bytesTrimOneLineEnding_def Let_def)

end
