(* ===== verification/Cli_Commands.thy ===== *)
theory Cli_Commands
  imports Cli_Resolve Cli_Command Cli_Input
begin

text \<open>
  The commands of \<open>cli/cmd/biot/commands.go\<close>: logging in and out, listing and showing Biots, and the
  words the client uses for what the server reports. Where the source ignores the error of a write to
  standard output, so does \<open>say\<close>.
\<close>

section \<open>Words\<close>

definition tab :: string where
  "tab = [CHR 0x09]"

definition secretExposureWarning :: string where
  "secretExposureWarning = ''may contain supplied secrets. This is a historical marker; it does not show whether a secret is present now.''"

definition secretExposureMarker :: string where
  "secretExposureMarker = ''maybe''"

definition listHeader :: string where
  "listHeader = joinWith tab [''NAME'', ''ID'', ''DESIRED'', ''ACTUAL'', ''NODE'', ''WAITING FOR'', ''SECRETS'']"

definition principalLabel :: "principal \<Rightarrow> string" where
  "principalLabel p =
     (if principalEmail p \<noteq> [] then principalEmail p
      else if principalName p \<noteq> [] then principalName p
      else principalID p)"

definition actualContainerLabel :: "biot \<Rightarrow> string" where
  "actualContainerLabel b =
     (if actualKind (biotActual b) = ''never_reported'' then ''never reported''
      else let ct = actualContainer (biotActual b) in
        if containerKind ct = ''present'' then
          (if containerState ct = ''exited'' \<and> containerStatus ct \<noteq> None
           then ''exited (status '' @ itoa (the (containerStatus ct)) @ '')''
           else if containerState ct \<noteq> [] then containerState ct
           else ''present'')
        else if containerKind ct = ''absent'' \<or> containerKind ct = ''unknown'' then containerKind ct
        else ''unavailable'')"

definition waitingForLabel :: "waitingFor option \<Rightarrow> string" where
  "waitingForLabel waiting =
     (case waiting of
        None \<Rightarrow> []
      | Some f \<Rightarrow>
          if waitingKind f = ''fetch_credential'' then ''fetch credential '' @ waitingSource f
          else if waitingKind f = [] then ''unavailable''
          else waitingKind f)"

text \<open>The middle dot of the role label, in UTF-8.\<close>

definition middleDot :: string where
  "middleDot = [CHR 0xC2, CHR 0xB7]"

definition roleLabel :: "role \<Rightarrow> string" where
  "roleLabel r =
     (if roleKind r = ''owner'' then ''owner''
      else let labels = (if roleShell r then [''shell''] else []) @
                 (if viewPorts r \<noteq> [] then [''view '' @ joinWith '', '' (map itoa (viewPorts r))] else [])
        in if labels = [] then ''collaborator '' @ middleDot @ '' view''
           else ''collaborator '' @ middleDot @ '' '' @ joinWith '', '' labels)"

definition operationKindLabel :: "string \<Rightarrow> string" where
  "operationKindLabel k = (if k = ''update_environment'' then ''update environment'' else k)"

section \<open>List and show\<close>

definition listRow :: "biot \<Rightarrow> string" where
  "listRow b = joinWith tab
     [biotName b, biotID b, desiredState (biotDesired b), actualContainerLabel b, biotNode b,
      waitingForLabel (actualWaitingFor (biotActual b)),
      (if directSecretExposurePossible b then secretExposureMarker else [])]"

definition runList :: "string list \<Rightarrow> unit cmd" where
  "runList args =
     attempt (lift (validateArguments ''list'' args 0 [])) (\<lambda>_.
     attempt loadClient (\<lambda>c.
     attempt (ListBiots c) (\<lambda>biots.
       if biots = [] then say ''No Biots.''
       else attempt (say listHeader) (\<lambda>_. eachDo (\<lambda>b. say (listRow b)) biots))))"

text \<open>\<open>printBiot\<close>, line by line.\<close>

definition biotLines :: "biot \<Rightarrow> string list" where
  "biotLines b =
     [''name: '' @ biotName b,
      ''id: '' @ biotID b,
      ''role: '' @ roleLabel (biotRole b),
      ''desired: '' @ desiredState (biotDesired b) @ '' (revision '' @ itoa (revision (biotDesired b)) @ '')'',
      ''node: '' @ biotNode b] @
     (case biotOperation b of
        None \<Rightarrow> [''operation: none'']
      | Some p \<Rightarrow>
          (''operation: '' @ operationKindLabel (operationKind p) @ '' '' @ outcomeKind (operationOutcome p)) #
          (case outcomeFailure (operationOutcome p) of
             None \<Rightarrow> []
           | Some f \<Rightarrow> [''failure: '' @ stage f @ '' / '' @ failureCode f @ '': '' @ failureMessage f])) @
     [if actualKind (biotActual b) = ''never_reported'' then ''actual: never reported''
      else ''actual: '' @ actualData (biotActual b) @ '' ('' @ freshness (biotActual b) @ '')''] @
     [''container: '' @ actualContainerLabel b] @
     (let waiting = waitingForLabel (actualWaitingFor (biotActual b)) in
      if waiting \<noteq> [] then [''waiting for: '' @ waiting] else []) @
     (if directSecretExposurePossible b then [''warning: '' @ secretExposureWarning] else []) @
     (if biotPublications b \<noteq> []
      then ''publications:'' #
        map (\<lambda>p. ''  '' @ itoa (publicationPort p) @ '' '' @ publicationURL p) (biotPublications b)
      else [])"

definition printBiot :: "biot \<Rightarrow> unit cmd" where
  "printBiot b = eachDo say (biotLines b)"

text \<open>The way every command on one Biot begins: check the arguments, load the login, find the Biot.\<close>

definition onBiot :: "(cliErr, unit) result \<Rightarrow> string \<Rightarrow> (client \<Rightarrow> biot \<Rightarrow> 'a cmd) \<Rightarrow> 'a cmd" where
  "onBiot checked reference body =
     attempt (lift checked) (\<lambda>_.
     attempt loadClient (\<lambda>c.
     attempt (resolveBiot c reference) (\<lambda>b. body c b)))"

definition runShow :: "string list \<Rightarrow> unit cmd" where
  "runShow args = onBiot (validateArguments ''show'' args 1 []) (args ! 0) (\<lambda>c b. printBiot b)"

section \<open>Login and logout\<close>

definition browserCommand :: "string \<Rightarrow> string \<Rightarrow> string \<times> string list" where
  "browserCommand os url =
     (if os = ''darwin'' then (''open'', [url])
      else if os = ''windows'' then (''rundll32'', [''url.dll,FileProtocolHandler'', url])
      else (''xdg-open'', [url]))"

definition tryOpenBrowser :: "string \<Rightarrow> unit cmd" where
  "tryOpenBrowser url w =
     (if browserStarts w then (Inr (), w\<lparr>browsers := browsers w @ [browserCommand (goos w) url]\<rparr>)
      else complain [T (''Could not open a browser automatically; open the URL above manually.'' @ [CHR 0x0A])] w)"

definition accountURL :: "client \<Rightarrow> string" where
  "accountURL c = trimSlashes (clientServerURL c) @ ''/account''"

definition openAccountPage :: "client \<Rightarrow> unit cmd" where
  "openAccountPage c =
     attempt (printOut [T (''Open this URL to create or copy a bearer token:'' @ [CHR 0x0A] @ accountURL c
       @ [CHR 0x0A])]) (\<lambda>_. tryOpenBrowser (accountURL c))"

text \<open>Where a line is read from: standard input when it is not a terminal, or when there is no
  controlling terminal to open.\<close>

definition lineFromStdin :: "world \<Rightarrow> bool" where
  "lineFromStdin w \<longleftrightarrow> \<not> stdinIsTerminal w \<or> \<not> hasTty w"

definition loginURL :: "string list \<Rightarrow> string cmd" where
  "loginURL args =
     (case args of
        [url] \<Rightarrow> succeed url
      | _ \<Rightarrow> attempt getWorld (\<lambda>w. wrapErr (\<lambda>e. Errorf [T ''read server URL: '', W e])
               (inputLine ''Server URL: '' (lineFromStdin w))))"

definition loginToken :: "byte list cmd" where
  "loginToken =
     attempt getWorld (\<lambda>w. if stdinIsTerminal w then secretInput ''Bearer token: '' else StdinToken)"

definition tokenRejected :: cliErr where
  "tokenRejected = msg ''The token was not accepted. Check the token and run biot login again.''"

definition verifyToken :: "client \<Rightarrow> principal cmd" where
  "verifyToken c = wrapErr (\<lambda>e. if IsUnauthenticated e then tokenRejected else e) (Me c)"

definition runLogin :: "string list \<Rightarrow> unit cmd" where
  "runLogin args =
     attempt (lift (rejectUnknown ''login'' args [])) (\<lambda>_.
     attempt (lift (RequireAtMostArguments ''login'' args 1)) (\<lambda>_.
     attempt (loginURL args) (\<lambda>url.
     attempt (lift (newClient url [])) (\<lambda>c0.
     attempt (openAccountPage c0) (\<lambda>_.
     attempt loginToken (\<lambda>tok.
     attempt (lift (newClient url (bytesString tok))) (\<lambda>c.
     attempt (verifyToken c) (\<lambda>who.
     attempt (saveConfig \<lparr>ServerURL = clientServerURL c, Token = bytesString tok\<rparr>) (\<lambda>_.
       say (''Logged in as '' @ principalLabel who @ ''.''))))))))))"

definition runLogout :: "string list \<Rightarrow> unit cmd" where
  "runLogout args =
     attempt (lift (validateArguments ''logout'' args 0 [])) (\<lambda>_.
     attempt configExists (\<lambda>saved.
     attempt removeConfig (\<lambda>_.
       if saved then say ''Logged out.'' else say ''There was no saved session.'')))"

section \<open>A command on one Biot\<close>

lemma onBiot_cases:
  assumes "onBiot checked reference body w = (r, w')"
  obtains (refused) e where "r = Inl e" "w' = w"
  | (unresolved) c e where "savedClient w = Inr c" "r = Inl e" "talks c w w'" "resolveBiot c reference w = (Inl e, w')"
  | (resolved) c b w1 where "checked = Inr ()" "savedClient w = Inr c" "resolveBiot c reference w = (Inr b, w1)"
      "talks c w w1" "body c b w1 = (r, w')"
  using assms unfolding onBiot_def
  by (elim attempt_cases) (simp_all add: lift_def loadClient_run, (metis keepsD [OF keeps_talks_resolve])+)

end
