(* ===== verification/Cli_Secrets.thy ===== *)
theory Cli_Secrets
  imports Cli_Commands
begin

text \<open>
  Runtime secrets and source-fetch credentials (\<open>cli/cmd/biot/secrets.go\<close>): reading one value, and
  the commands that deliver, remove and list them.
\<close>

section \<open>The code\<close>

text \<open>The loop of \<open>parseValueCommand\<close> over the arguments, with the positional ones so far and whether
  \<open>--stdin\<close> was seen.\<close>

fun valueArguments ::
  "string \<Rightarrow> string list \<Rightarrow> bool \<Rightarrow> string list \<Rightarrow> (cliErr, string list \<times> bool) result" where
  "valueArguments action positionals fromStdin [] = Inr (positionals, fromStdin)"
| "valueArguments action positionals fromStdin (a # as) =
     (if a = ''--stdin'' then
        (if fromStdin then Inl (msg (action @ '' accepts --stdin only once''))
         else valueArguments action positionals True as)
      else valueArguments action (positionals @ [a]) fromStdin as)"

definition parseValueCommand ::
  "string \<Rightarrow> string list \<Rightarrow> (cliErr, string \<times> string \<times> bool) result" where
  "parseValueCommand action args =
     andThen (rejectUnknown action args [''--stdin'']) (\<lambda>_.
     andThen (valueArguments action [] False args) (\<lambda>(positionals, fromStdin).
     andThen (mapErr (\<lambda>_. msg (action @ '' expects a Biot name or ID and a value name; run biot ''
              @ action @ '' --help'')) (RequireArguments action positionals 2)) (\<lambda>_.
       Inr (positionals ! 0, positionals ! 1, fromStdin))))"

definition readSensitiveValue :: "bool \<Rightarrow> string \<Rightarrow> byte list cmd" where
  "readSensitiveValue fromStdin prompt =
     (if fromStdin then StdinSecret
      else attempt getWorld (\<lambda>w.
        if \<not> hasTty w \<and> \<not> stdinIsTerminal w
        then failWith (msg ''standard input is not a terminal; use --stdin to provide the value'')
        else secretInput prompt))"

definition runSecretSet :: "string list \<Rightarrow> unit cmd" where
  "runSecretSet args =
     attempt (lift (parseValueCommand ''secret set'' args)) (\<lambda>(reference, name, fromStdin).
     onBiot (Inr ()) reference (\<lambda>c b.
     attempt (readSensitiveValue fromStdin ''Runtime secret value: '') (\<lambda>value.
     attempt (wrapErr (\<lambda>e. Errorf [T ''runtime secret delivery failed: '', W e])
              (DeliverSecret c (biotID b) name value)) (\<lambda>_.
       say (''Runtime secret '' @ name @ '' delivered.'')))))"

definition runSecretRemove :: "string list \<Rightarrow> unit cmd" where
  "runSecretRemove args =
     onBiot (validateArguments ''secret rm'' args 2 []) (args ! 0) (\<lambda>c b.
     attempt (wrapErr (\<lambda>e. Errorf [T ''runtime secret removal failed: '', W e])
              (RemoveSecret c (biotID b) (args ! 1))) (\<lambda>_.
       say (''Runtime secret '' @ args ! 1 @ '' removed.'')))"

definition runSecretList :: "string list \<Rightarrow> unit cmd" where
  "runSecretList args =
     onBiot (validateArguments ''secret list'' args 1 []) (args ! 0) (\<lambda>c b.
     attempt (ListSecrets c (biotID b)) (\<lambda>secrets.
       if secrets = [] then say ''No runtime secrets.''
       else eachDo (\<lambda>s. say (secretName s)) secrets))"

definition runFetchCredentialSet :: "string list \<Rightarrow> unit cmd" where
  "runFetchCredentialSet args =
     attempt (lift (parseValueCommand ''fetch-credential set'' args)) (\<lambda>(reference, source, fromStdin).
     onBiot (Inr ()) reference (\<lambda>c b.
     attempt (readSensitiveValue fromStdin ''Source-fetch credential value: '') (\<lambda>value.
     attempt (wrapErr (\<lambda>e. Errorf [T ''source-fetch credential delivery failed: '', W e])
              (DeliverFetchCredential c (biotID b) source value)) (\<lambda>_.
       say (''Source-fetch credential for '' @ source @ '' delivered.'')))))"

definition runFetchCredentialRemove :: "string list \<Rightarrow> unit cmd" where
  "runFetchCredentialRemove args =
     onBiot (validateArguments ''fetch-credential rm'' args 2 []) (args ! 0) (\<lambda>c b.
     attempt (wrapErr (\<lambda>e. Errorf [T ''source-fetch credential removal failed: '', W e])
              (RemoveFetchCredential c (biotID b) (args ! 1))) (\<lambda>_.
       say (''Source-fetch credential for '' @ args ! 1 @ '' removed.'')))"

end
