(* ===== verification/Cli_Lifecycle.thy ===== *)
theory Cli_Lifecycle
  imports Cli_Secrets
begin

text \<open>
  The life of a Biot as \<open>cli/cmd/biot/lifecycle.go\<close> drives it: creating one, with or without values
  to deliver, starting, stopping, restarting, rebuilding and destroying it, and waiting for what the
  server reports. Each polling loop ends because the ticker fires finitely often before the deadline
  of the command, \<open>ticks\<close> many times over all its loops.
\<close>

section \<open>Options\<close>

record createOptions =
  repository :: string
  createName :: string
  createNode :: string
  layers :: "string list"
  secretNames :: "string list"
  fetchCredentials :: "string list"
  createStdin :: bool

definition noOptions :: createOptions where
  "noOptions = \<lparr>repository = [], createName = [], createNode = [], layers = [], secretNames = [],
     fetchCredentials = [], createStdin = False\<rparr>"

text \<open>The switch on a flag with its value, and the loop.\<close>

definition createOption :: "string \<Rightarrow> string \<Rightarrow> createOptions \<Rightarrow> createOptions option" where
  "createOption flag v opts =
     (if flag = ''--repo'' then Some (opts\<lparr>repository := v\<rparr>)
      else if flag = ''--name'' then Some (opts\<lparr>createName := v\<rparr>)
      else if flag = ''--node'' then Some (opts\<lparr>createNode := v\<rparr>)
      else if flag = ''--layer'' then Some (opts\<lparr>layers := layers opts @ [v]\<rparr>)
      else if flag = ''--secret'' then Some (opts\<lparr>secretNames := secretNames opts @ [v]\<rparr>)
      else if flag = ''--fetch-credential'' then Some (opts\<lparr>fetchCredentials := fetchCredentials opts @ [v]\<rparr>)
      else None)"

fun createLoop :: "createOptions \<Rightarrow> string list \<Rightarrow> (cliErr, createOptions) result" where
  "createLoop opts [] = Inr opts"
| "createLoop opts [a] =
     (if a = ''--stdin'' then Inr (opts\<lparr>createStdin := True\<rparr>)
      else Inl (Errorf [T ''unknown or incomplete create option '', Q a, T ''; run biot create --help'']))"
| "createLoop opts (a # v # as) =
     (if a = ''--stdin'' then createLoop (opts\<lparr>createStdin := True\<rparr>) (v # as)
      else if \<not> hasPrefix a ''--''
      then Inl (Errorf [T ''unknown or incomplete create option '', Q a, T ''; run biot create --help''])
      else case createOption a v opts of
        Some opts' \<Rightarrow> createLoop opts' as
      | None \<Rightarrow> Inl (Errorf [T ''unknown create option '', Q a, T ''; run biot create --help'']))"

definition createFlags :: "string list" where
  "createFlags = [''--repo'', ''--name'', ''--node'', ''--layer'', ''--secret'', ''--fetch-credential'', ''--stdin'']"

definition parseCreateOptions :: "string list \<Rightarrow> (cliErr, createOptions) result" where
  "parseCreateOptions args =
     andThen (rejectUnknown ''create'' args createFlags) (\<lambda>_.
     andThen (createLoop noOptions args) (\<lambda>opts.
       if repository opts = [] \<or> createName opts = []
       then Inl (msg ''create requires --repo and --name; run biot create --help'')
       else if createStdin opts \<and> length (secretNames opts) + length (fetchCredentials opts) \<noteq> 1
       then Inl (msg ''--stdin requires exactly one --secret or --fetch-credential'')
       else Inr opts))"

section \<open>Failures\<close>

definition diagnoseHint :: "string \<Rightarrow> string" where
  "diagnoseHint reference =
     (if reference \<noteq> [] then ''; run biot diagnose '' @ reference @ '' for more'' else [])"

definition operationFailure :: "failure option \<Rightarrow> string \<Rightarrow> cliErr" where
  "operationFailure f reference =
     (case f of
        None \<Rightarrow> msg (''the Biot operation failed; run biot show to inspect it'' @ diagnoseHint reference)
      | Some g \<Rightarrow> msg (stage g @ '' / '' @ failureCode g @ '': '' @ failureMessage g @ diagnoseHint reference))"

definition currentFailure :: "biot \<Rightarrow> string \<Rightarrow> (cliErr, unit) result" where
  "currentFailure b reference =
     (case biotOperation b of
        Some p \<Rightarrow>
          if targetRevision p = revision (biotDesired b) \<and> outcomeKind (operationOutcome p) = ''failed''
          then Inl (operationFailure (outcomeFailure (operationOutcome p)) reference)
          else (case actualFailure (biotActual b) of
                  Some f \<Rightarrow> if failureRevision f = revision (biotDesired b)
                    then Inl (operationFailure (Some f) reference) else Inr ()
                | None \<Rightarrow> Inr ())
      | None \<Rightarrow>
          (case actualFailure (biotActual b) of
             Some f \<Rightarrow> if failureRevision f = revision (biotDesired b)
               then Inl (operationFailure (Some f) reference) else Inr ()
           | None \<Rightarrow> Inr ()))"

definition waitingForFailure :: "biot \<Rightarrow> string \<Rightarrow> (cliErr, unit) result" where
  "waitingForFailure b reference =
     (case actualWaitingFor (biotActual b) of
        None \<Rightarrow> Inr ()
      | Some f \<Rightarrow>
          let name = (if reference = [] then biotName b else reference) in
          if waitingKind f = ''fetch_credential'' \<and> waitingSource f \<noteq> []
          then Inl (Errorf [T ''Biot '', Q name, T '' is waiting for source-fetch credential '', Q (waitingSource f),
                 T (''; run biot fetch-credential set '' @ name @ '' '' @ waitingSource f)])
          else if waitingKind f = []
          then Inl (Errorf [T ''Biot '', Q name,
                 T ('' is waiting for an unavailable credential request; inspect it with biot show '' @ name)])
          else Inl (Errorf [T ''Biot '', Q name,
                 T ('' is waiting for '' @ waitingKind f @ ''; inspect it with biot show '' @ name)]))"

section \<open>Waiting\<close>

definition tick :: "unit cmd" where
  "tick w = (Inr (), w\<lparr>ticks := ticks w - 1\<rparr>)"

definition timedOut :: "string \<Rightarrow> cliErr" where
  "timedOut reference = Errorf [T ''timed out waiting for Biot '', Q reference,
     T (''; run biot show '' @ reference @ '' to inspect it'')]"

text \<open>\<open>poll\<close>. The check gives \<open>Some\<close> when it is done, with what the closure of the source leaves in
  \<open>result\<close>.\<close>

fun pollLoop :: "nat \<Rightarrow> string \<Rightarrow> 'a option cmd \<Rightarrow> 'a cmd" where
  "pollLoop 0 reference check = attempt check (\<lambda>r.
     case r of Some a \<Rightarrow> succeed a | None \<Rightarrow> failWith (timedOut reference))"
| "pollLoop (Suc n) reference check = attempt check (\<lambda>r.
     case r of Some a \<Rightarrow> succeed a | None \<Rightarrow> attempt tick (\<lambda>_. pollLoop n reference check))"

definition poll :: "string \<Rightarrow> 'a option cmd \<Rightarrow> 'a cmd" where
  "poll reference check w = pollLoop (ticks w) reference check w"

definition operationCheck :: "client \<Rightarrow> string \<Rightarrow> string \<Rightarrow> string \<Rightarrow> unit option cmd" where
  "operationCheck c p i reference =
     attempt (GetOperation c p) (\<lambda>oper.
       let k = outcomeKind (operationOutcome oper) in
       if k = ''pending'' \<or> k = ''working'' then
         (if i \<noteq> [] then
            attempt (GetBiot c i) (\<lambda>b.
            attempt (lift (waitingForFailure b reference)) (\<lambda>_. succeed None))
          else succeed None)
       else if k = ''succeeded'' then succeed (Some ())
       else if k = ''failed'' then failWith (operationFailure (outcomeFailure (operationOutcome oper)) reference)
       else if k = ''superseded''
       then failWith (Errorf [T ''the operation for Biot '', Q reference,
              T ('' was superseded by a newer change; run biot show '' @ reference @ '' to inspect it'')])
       else failWith (Errorf [T ''the server returned an unknown operation outcome '', Q k]))"

definition waitOperation :: "client \<Rightarrow> string \<Rightarrow> string \<Rightarrow> string \<Rightarrow> unit cmd" where
  "waitOperation c p i reference = poll reference (operationCheck c p i reference)"

text \<open>The check the other three loops share: look at the Biot, and report what blocks it.\<close>

definition biotCheck :: "client \<Rightarrow> string \<Rightarrow> string \<Rightarrow> (biot \<Rightarrow> bool) \<Rightarrow> biot option cmd" where
  "biotCheck c i reference ready =
     attempt (GetBiot c i) (\<lambda>b.
     attempt (lift (waitingForFailure b reference)) (\<lambda>_.
     attempt (lift (currentFailure b reference)) (\<lambda>_.
       succeed (if ready b then Some b else None))))"

definition waitAllocation :: "client \<Rightarrow> string \<Rightarrow> string \<Rightarrow> biot cmd" where
  "waitAllocation c i reference = poll reference (biotCheck c i reference
     (\<lambda>b. actualData (biotActual b) = ''uninitialized'' \<or> actualData (biotActual b) = ''present''))"

definition waitPrepared :: "client \<Rightarrow> string \<Rightarrow> string \<Rightarrow> biot cmd" where
  "waitPrepared c i reference = poll reference (biotCheck c i reference
     (\<lambda>b. installedEnvironment (biotActual b) = environmentID (biotDesired b)))"

definition runningReady :: "biot \<Rightarrow> bool" where
  "runningReady b \<longleftrightarrow> desiredState (biotDesired b) = ''running'' \<and>
     containerState (actualContainer (biotActual b)) = ''running''"

definition waitRunning :: "client \<Rightarrow> string \<Rightarrow> string \<Rightarrow> unit cmd" where
  "waitRunning c i reference =
     attempt (poll reference (biotCheck c i reference runningReady)) (\<lambda>_. succeed ())"

section \<open>Create\<close>

text \<open>The closure of \<open>createPhasePrinter\<close>, whose variable \<open>last\<close> is passed along.\<close>

definition printPhase :: "string \<Rightarrow> string \<Rightarrow> string cmd" where
  "printPhase lastPhase phase =
     (if phase = lastPhase then succeed lastPhase
      else attempt (say (''biot '' @ phase)) (\<lambda>_. succeed phase))"

definition credentialedCreateFailure :: "string \<Rightarrow> string \<Rightarrow> string \<Rightarrow> cliErr \<Rightarrow> cliErr" where
  "credentialedCreateFailure name i recovery cause =
     Errorf [T ''Biot '', Q name, T ('' ('' @ i @ '') was created stopped but credentialed create failed: ''), W cause,
       T (''. After fixing it, run '' @ recovery @ '' or biot destroy '' @ name)]"

definition valuesRequired :: "createOptions \<Rightarrow> bool" where
  "valuesRequired opts \<longleftrightarrow> secretNames opts \<noteq> [] \<or> fetchCredentials opts \<noteq> []"

definition createBody :: "createOptions \<Rightarrow> json" where
  "createBody opts = jsonMap
     ([(''name'', JStr (createName opts)), (''repository'', JStr (repository opts)),
       (''environment'', jsonMap [(''base_nixpkgs'', JStr ''nixpkgs''), (''layers'', JArr (map JStr (layers opts)))]),
       (''initial_state'', JStr (if valuesRequired opts then ''stopped'' else ''running''))] @
      (if createNode opts \<noteq> [] then [(''node_id'', JStr (createNode opts))] else []))"

definition startFailure :: "createOptions \<Rightarrow> string \<Rightarrow> cliErr \<Rightarrow> cliErr" where
  "startFailure opts i = credentialedCreateFailure (createName opts) i (''biot start '' @ createName opts)"

definition deliverCredential :: "client \<Rightarrow> createOptions \<Rightarrow> string \<Rightarrow> string \<Rightarrow> unit cmd" where
  "deliverCredential c opts i source =
     (let failed = credentialedCreateFailure (createName opts) i
            (''biot fetch-credential set '' @ createName opts @ '' '' @ source)
      in attempt (wrapErr (\<lambda>e. failed (Errorf [T ''read source-fetch credential: '', W e]))
           (readSensitiveValue (createStdin opts) (''Source-fetch credential for '' @ source @ '': ''))) (\<lambda>value.
         wrapErr (\<lambda>e. failed (Errorf [T ''source-fetch credential delivery failed: '', W e]))
           (DeliverFetchCredential c i source value)))"

definition deliverSecret :: "client \<Rightarrow> createOptions \<Rightarrow> string \<Rightarrow> string \<Rightarrow> unit cmd" where
  "deliverSecret c opts i name =
     (let failed = credentialedCreateFailure (createName opts) i
            (''biot secret set '' @ createName opts @ '' '' @ name)
      in attempt (wrapErr (\<lambda>e. failed (Errorf [T ''read runtime secret: '', W e]))
           (readSensitiveValue (createStdin opts) (''Runtime secret '' @ name @ '': ''))) (\<lambda>value.
         wrapErr (\<lambda>e. failed (Errorf [T ''runtime secret delivery failed: '', W e]))
           (DeliverSecret c i name value)))"

definition createPlain :: "client \<Rightarrow> createOptions \<Rightarrow> string \<Rightarrow> string \<Rightarrow> lifecycleResult \<Rightarrow> unit cmd" where
  "createPlain c opts i phase created =
     attempt (printPhase phase ''preparing'') (\<lambda>phase.
     attempt (if resultOperationID created \<noteq> []
              then waitOperation c (resultOperationID created) i (createName opts) else succeed ()) (\<lambda>_.
     attempt (printPhase phase ''starting'') (\<lambda>_.
     attempt (waitRunning c i (createName opts)) (\<lambda>_.
       say ''biot ready''))))"

text \<open>With values: prepare, deliver the credentials, wait until they were used, deliver the secrets,
  start.\<close>

definition createPrepared :: "client \<Rightarrow> createOptions \<Rightarrow> string \<Rightarrow> string \<Rightarrow> lifecycleResult \<Rightarrow> string cmd" where
  "createPrepared c opts i phase created =
     (if fetchCredentials opts \<noteq> []
      then attempt (printPhase phase ''preparing'') (\<lambda>phase.
        attempt (wrapErr (startFailure opts i) (waitPrepared c i (createName opts))) (\<lambda>_. succeed phase))
      else if resultOperationID created \<noteq> []
      then attempt (wrapErr (startFailure opts i)
          (waitOperation c (resultOperationID created) i (createName opts))) (\<lambda>_. succeed phase)
      else succeed phase)"

definition createStart :: "client \<Rightarrow> createOptions \<Rightarrow> string \<Rightarrow> string \<Rightarrow> biot \<Rightarrow> unit cmd" where
  "createStart c opts i phase view =
     attempt (wrapErr (startFailure opts i) (StartBiot c i (revision (biotDesired view)))) (\<lambda>started.
     attempt (printPhase phase ''starting'') (\<lambda>_.
     attempt (if resultOperationID started \<noteq> []
              then wrapErr (startFailure opts i)
                (waitOperation c (resultOperationID started) i (createName opts))
              else succeed ()) (\<lambda>_.
     attempt (wrapErr (startFailure opts i) (waitRunning c i (createName opts))) (\<lambda>_.
       say ''biot ready''))))"

definition createWithValues :: "client \<Rightarrow> createOptions \<Rightarrow> string \<Rightarrow> string \<Rightarrow> lifecycleResult \<Rightarrow> unit cmd" where
  "createWithValues c opts i phase created =
     attempt (printPhase phase ''preparing'') (\<lambda>phase.
     attempt (wrapErr (startFailure opts i) (waitAllocation c i (createName opts))) (\<lambda>_.
     attempt (if fetchCredentials opts \<noteq> [] then printPhase phase ''delivering fetch credentials''
              else succeed phase) (\<lambda>phase.
     attempt (eachDo (deliverCredential c opts i) (fetchCredentials opts)) (\<lambda>_.
     attempt (createPrepared c opts i phase created) (\<lambda>phase.
     attempt (wrapErr (startFailure opts i) (GetBiot c i)) (\<lambda>view.
     attempt (if secretNames opts \<noteq> [] then printPhase phase ''delivering runtime secrets''
              else succeed phase) (\<lambda>phase.
     attempt (eachDo (deliverSecret c opts i) (secretNames opts)) (\<lambda>_.
       createStart c opts i phase view))))))))"

definition freshBiotID :: "string cmd" where
  "freshBiotID w =
     (case newId (random w) of
        None \<Rightarrow> (Inl (Errorf [T ''generate a Biot ID: '', W (msg ''input/output error'')]), w)
      | Some i \<Rightarrow> (Inr i, w))"

definition runCreate :: "string list \<Rightarrow> unit cmd" where
  "runCreate args =
     attempt (lift (parseCreateOptions args)) (\<lambda>opts.
     attempt (printPhase [] ''creating'') (\<lambda>phase.
     attempt freshBiotID (\<lambda>i.
     attempt loadClient (\<lambda>c.
     attempt (CreateBiot c i (createBody opts)) (\<lambda>created.
       if valuesRequired opts then createWithValues c opts i phase created
       else createPlain c opts i phase created)))))"

section \<open>The other lifecycle commands\<close>

definition lifecycleState :: "string \<Rightarrow> string" where
  "lifecycleState action = (if action = ''start'' then ''running'' else ''stopped'')"

definition reportAccepted :: "lifecycleResult \<Rightarrow> string \<Rightarrow> unit cmd" where
  "reportAccepted res already =
     (if resultOperationID res = [] then say already
      else say (''operation '' @ resultOperationID res @ '' accepted.''))"

definition runLifecycle :: "string list \<Rightarrow> string \<Rightarrow> unit cmd" where
  "runLifecycle args action =
     onBiot (validateArguments action args 1 []) (args ! 0) (\<lambda>c b.
     attempt (if action = ''start'' then StartBiot c (biotID b) (revision (biotDesired b))
              else StopBiot c (biotID b) (revision (biotDesired b))) (\<lambda>res.
       reportAccepted res (''Biot is already '' @ lifecycleState action @ ''.'')))"

definition runStart :: "string list \<Rightarrow> unit cmd" where
  "runStart args = runLifecycle args ''start''"

definition runStop :: "string list \<Rightarrow> unit cmd" where
  "runStop args = runLifecycle args ''stop''"

definition waitIfAny :: "client \<Rightarrow> lifecycleResult \<Rightarrow> string \<Rightarrow> string \<Rightarrow> unit cmd" where
  "waitIfAny c res i reference =
     (if resultOperationID res \<noteq> [] then waitOperation c (resultOperationID res) i reference else succeed ())"

definition runRestart :: "string list \<Rightarrow> unit cmd" where
  "runRestart args =
     onBiot (validateArguments ''restart'' args 1 []) (args ! 0) (\<lambda>c b.
     attempt (StopBiot c (biotID b) (revision (biotDesired b))) (\<lambda>stopped.
     attempt (waitIfAny c stopped (biotID b) (args ! 0)) (\<lambda>_.
     attempt (GetBiot c (biotID b)) (\<lambda>view.
     attempt (StartBiot c (biotID b) (revision (biotDesired view))) (\<lambda>started.
     attempt (waitIfAny c started (biotID b) (args ! 0)) (\<lambda>_.
     attempt (waitRunning c (biotID b) (args ! 0)) (\<lambda>_.
       say ''biot ready'')))))))"

definition runRebuild :: "string list \<Rightarrow> unit cmd" where
  "runRebuild args =
     onBiot (validateArguments ''rebuild'' args 1 []) (args ! 0) (\<lambda>c b.
       case biotEnvironment b of
         None \<Rightarrow> failWith (msg ''the server did not return this Biot's current environment selection; update the server and try again'')
       | Some env \<Rightarrow>
           attempt (RebuildBiot c (biotID b) (revision (biotDesired b)) env) (\<lambda>res.
             reportAccepted res ''The Biot environment is already current.''))"

definition runDestroy :: "string list \<Rightarrow> unit cmd" where
  "runDestroy args =
     onBiot (validateArguments ''destroy'' args 1 []) (args ! 0) (\<lambda>c b.
     attempt (DestroyBiot c (biotID b)) (\<lambda>res.
       reportAccepted res ''Biot is already destroyed.''))"

definition runWait :: "string list \<Rightarrow> unit cmd" where
  "runWait args =
     onBiot (validateArguments ''wait'' args 1 []) (args ! 0) (\<lambda>c b.
       case biotOperation b of
         None \<Rightarrow> failWith (msg ''there is no operation in progress for that Biot'')
       | Some p \<Rightarrow>
           attempt (waitOperation c (operationID p) (biotID b) (args ! 0)) (\<lambda>_.
             say ''operation succeeded.''))"

end
