(* ===== verification/Cli_Publication.thy ===== *)
theory Cli_Publication
  imports Cli_Commands
begin

text \<open>
  Publishing ports and printing their URLs (\<open>cli/cmd/biot/publication.go\<close>).
\<close>

section \<open>The code\<close>

definition parsePortArg :: "string \<Rightarrow> string \<Rightarrow> (cliErr, int) result" where
  "parsePortArg value action =
     (case atoi value of
        Some n \<Rightarrow> if n < 1 \<or> n > 65535 then Inl (msg (action @ '' expects a port from 1 to 65535'')) else Inr n
      | None \<Rightarrow> Inl (msg (action @ '' expects a port from 1 to 65535'')))"

definition publicationReport :: "bool \<Rightarrow> policyResult \<Rightarrow> int \<Rightarrow> string" where
  "publicationReport publish res port =
     ''Port '' @ itoa port @
     (if policyResultKind res = ''unchanged''
      then (if publish then '' is already published.'' else '' is not published.'')
      else (if publish then '' published.'' else '' unpublished.''))"

definition runPublicationChange :: "string list \<Rightarrow> bool \<Rightarrow> unit cmd" where
  "runPublicationChange args publish =
     (let action = (if publish then ''publish'' else ''unpublish'') in
      attempt (lift (validateArguments action args 2 [])) (\<lambda>_.
      attempt (lift (parsePortArg (args ! 1) action)) (\<lambda>port.
      onBiot (Inr ()) (args ! 0) (\<lambda>c b.
      attempt (if publish then Publish c (biotID b) port else Unpublish c (biotID b) port) (\<lambda>res.
        say (publicationReport publish res port))))))"

definition runPublish :: "string list \<Rightarrow> unit cmd" where
  "runPublish args = runPublicationChange args True"

definition runUnpublish :: "string list \<Rightarrow> unit cmd" where
  "runUnpublish args = runPublicationChange args False"

definition printURL :: "publication \<Rightarrow> unit cmd" where
  "printURL p =
     (if publicationURL p = []
      then failWith (msg (''the server returned no URL for port '' @ itoa (publicationPort p)))
      else say (publicationURL p))"

definition runURLs :: "string list \<Rightarrow> unit cmd" where
  "runURLs args =
     onBiot (validateArguments ''urls'' args 1 []) (args ! 0) (\<lambda>c b.
     attempt (ListPublications c (biotID b)) (\<lambda>publications.
       if publications = [] then say ''No published URLs.''
       else eachDo printURL publications))"

section \<open>Ports\<close>

lemma parsePortArg_ok: "parsePortArg value action = Inr n \<longleftrightarrow> atoi value = Some n \<and> 1 \<le> n \<and> n \<le> 65535"
  by (auto simp: parsePortArg_def split: option.splits)

lemma parsePortArg_itoa:
  assumes "1 \<le> n" and "n \<le> 65535"
  shows "parsePortArg (itoa n) action = Inr n"
  using assms by (simp add: parsePortArg_ok atoi_itoa inInt64_def)

end
