(* ===== verification/Cli_Access.thy ===== *)
theory Cli_Access
  imports Cli_Publication
begin

text \<open>
  Sharing a Biot with other people (\<open>cli/cmd/biot/access.go\<close>).
\<close>

section \<open>Options\<close>

record shareOptions =
  shareBiot :: string
  shareEmail :: string
  sharePort :: int
  shareShell :: bool

fun shareLoop :: "string \<Rightarrow> shareOptions \<Rightarrow> string list \<Rightarrow> (cliErr, shareOptions) result" where
  "shareLoop action opts [] = Inr opts"
| "shareLoop action opts (a # as) =
     (if a = ''--to'' then
        (case as of
           [] \<Rightarrow> Inl (msg (action @ '' requires an email after --to''))
         | v # as' \<Rightarrow>
             if v = [] then Inl (msg (action @ '' requires an email after --to''))
             else if shareEmail opts \<noteq> [] then Inl (msg (action @ '' accepts --to only once''))
             else shareLoop action (opts\<lparr>shareEmail := v\<rparr>) as')
      else if a = ''--port'' then
        (case as of
           [] \<Rightarrow> Inl (msg (action @ '' requires a port after --port''))
         | v # as' \<Rightarrow>
             if sharePort opts \<noteq> 0 then Inl (msg (action @ '' accepts --port only once''))
             else (case parsePortArg v action of
                     Inl e \<Rightarrow> Inl e
                   | Inr n \<Rightarrow> shareLoop action (opts\<lparr>sharePort := n\<rparr>) as'))
      else if a = ''--shell'' then
        (if shareShell opts then Inl (msg (action @ '' accepts --shell only once''))
         else shareLoop action (opts\<lparr>shareShell := True\<rparr>) as)
      else Inl (Errorf [T (''unknown '' @ action @ '' option ''), Q a, T (''; run biot '' @ action @ '' --help'')]))"

definition shareFlags :: "string list" where
  "shareFlags = [''--to'', ''--port'', ''--shell'']"

definition shareChecks :: "string \<Rightarrow> shareOptions \<Rightarrow> (cliErr, shareOptions) result" where
  "shareChecks action opts =
     (if shareEmail opts = [] then Inl (msg (action @ '' requires --to EMAIL''))
      else if shareShell opts \<and> sharePort opts \<noteq> 0
      then Inl (msg (action @ '' accepts either --shell or --port, not both''))
      else if \<not> shareShell opts \<and> sharePort opts = 0
      then Inl (msg (action @ '' requires either --shell or --port PORT''))
      else Inr opts)"

definition parseShareOptions :: "string \<Rightarrow> string list \<Rightarrow> (cliErr, shareOptions) result" where
  "parseShareOptions action args =
     andThen (rejectUnknown action args shareFlags) (\<lambda>_.
       case args of
         [] \<Rightarrow> Inl (msg (action @ '' expects a Biot name or ID and sharing options; run biot '' @ action @ '' --help''))
       | b # as \<Rightarrow>
           andThen (shareLoop action \<lparr>shareBiot = b, shareEmail = [], sharePort = 0, shareShell = False\<rparr> as)
             (shareChecks action))"

section \<open>Share and unshare\<close>

definition upperFirst :: "string \<Rightarrow> string" where
  "upperFirst s =
     (case s of [] \<Rightarrow> [] | x # xs \<Rightarrow> (if 97 \<le> code x \<and> code x \<le> 122 then char_of (code x - 32) else x) # xs)"

definition shareDescription :: "string \<Rightarrow> shareOptions \<Rightarrow> string" where
  "shareDescription k opts =
     (if shareShell opts then ''Shell access'' else upperFirst k @ '' on port '' @ itoa (sharePort opts))"

definition printShareResult :: "policyResult \<Rightarrow> shareOptions \<Rightarrow> bool \<Rightarrow> unit cmd" where
  "printShareResult res opts give =
     (let k = (if shareShell opts then ''shell access'' else ''view access'');
          what = shareDescription k opts
      in if policyResultKind res \<noteq> ''applied'' \<and> policyResultKind res \<noteq> ''unchanged''
         then failWith (msg ''the server returned an unexpected access policy result'')
         else if policyResultKind res = ''unchanged''
         then (if give then say (what @ '' for '' @ shareEmail opts @ '' is already set.'')
               else say (what @ '' for '' @ shareEmail opts @ '' was not set.''))
         else say (what @ '' '' @ (if give then ''granted'' else ''removed'') @ '' for '' @ shareEmail opts @ ''.''))"

definition principalFailure :: "string \<Rightarrow> cliErr \<Rightarrow> cliErr" where
  "principalFailure email e =
     (case asApiError e of
        Some (ApiError t _ _ _ _) \<Rightarrow>
          if t = ''not_found'' then Errorf [T ''That principal could not be found for '', Q email, T ''.''] else e
      | _ \<Rightarrow> e)"

definition shareRequest :: "client \<Rightarrow> bool \<Rightarrow> shareOptions \<Rightarrow> string \<Rightarrow> string \<Rightarrow> policyResult cmd" where
  "shareRequest c give opts i who =
     (if shareShell opts then (if give then GrantShell c i who else RevokeShell c i who)
      else if give then GrantView c i (sharePort opts) who
      else RevokeView c i (sharePort opts) who)"

definition runShareChange :: "string list \<Rightarrow> bool \<Rightarrow> unit cmd" where
  "runShareChange args give =
     attempt (lift (parseShareOptions (if give then ''share'' else ''unshare'') args)) (\<lambda>opts.
     onBiot (Inr ()) (shareBiot opts) (\<lambda>c b.
     attempt (wrapErr (principalFailure (shareEmail opts)) (ResolvePrincipal c (shareEmail opts))) (\<lambda>who.
     attempt (guardThat (principalID who \<noteq> [])
       (Errorf [T ''the server returned no principal ID for '', Q (shareEmail opts)])) (\<lambda>_.
     attempt (shareRequest c give opts (biotID b) (principalID who)) (\<lambda>res.
       printShareResult res opts give)))))"

definition runShare :: "string list \<Rightarrow> unit cmd" where
  "runShare args = runShareChange args True"

definition runUnshare :: "string list \<Rightarrow> unit cmd" where
  "runUnshare args = runShareChange args False"

section \<open>Grants\<close>

definition grantPrincipal :: "principal \<Rightarrow> string" where
  "grantPrincipal p =
     (if principalEmail p \<noteq> [] then principalEmail p @ '' (principal ID '' @ principalID p @ '')''
      else if principalName p \<noteq> []
      then principalName p @ '' (email unavailable; principal ID '' @ principalID p @ '')''
      else if principalID p \<noteq> [] then ''email unavailable; principal ID '' @ principalID p
      else ''email unavailable; principal ID unavailable'')"

definition printGrant :: "grant \<Rightarrow> unit cmd" where
  "printGrant g =
     (if grantKind g = ''shell'' then say (''shell: '' @ grantPrincipal (grantee g))
      else if grantKind g = ''view''
      then say (''view port '' @ itoa (grantPort g) @ '': '' @ grantPrincipal (grantee g))
      else failWith (Errorf [T ''the server returned an unknown grant kind '', Q (grantKind g)]))"

definition runGrants :: "string list \<Rightarrow> unit cmd" where
  "runGrants args =
     onBiot (validateArguments ''grants'' args 1 []) (args ! 0) (\<lambda>c b.
     attempt (GetGrants c (biotID b)) (\<lambda>gs.
     attempt (say (''owner: '' @ grantPrincipal (grantsOwner gs))) (\<lambda>_.
       if grantsList gs = [] then say ''No explicit grants.''
       else eachDo printGrant (grantsList gs))))"

end
