(* ===== verification/Cli_Account.thy ===== *)
theory Cli_Account
  imports Cli_Commands
begin

text \<open>
  SSH keys and bearer credentials of an account (\<open>cli/cmd/biot/account_commands.go\<close>).
\<close>

section \<open>SSH keys\<close>

text \<open>\<open>filepath.Base\<close> on Unix.\<close>

definition filepathBase :: "string \<Rightarrow> string" where
  "filepathBase p =
     (if p = [] then ''.''
      else let r = rev (takeWhile (\<lambda>c. c \<noteq> CHR ''/'') (rev (trimSlashes p))) in
        if r = [] then ''/'' else r)"

definition readKeyFile :: "string \<Rightarrow> string cmd" where
  "readKeyFile p w =
     (case files w p of
        Some f \<Rightarrow>
          if fault w FsRead
          then (Inl (Errorf [T ''read public SSH key '', Q p, T '': '', W (msg ''input/output error'')]), w)
          else (Inr (contents f), w)
      | None \<Rightarrow> (Inl (Errorf [T ''read public SSH key '', Q p, T '': '', W (msg ''no such file or directory'')]), w))"

definition runSSHKeyAdd :: "string list \<Rightarrow> unit cmd" where
  "runSSHKeyAdd args =
     attempt (lift (validateArguments ''ssh-key add'' args 1 [])) (\<lambda>_.
     attempt (readKeyFile (args ! 0)) (\<lambda>text.
     let publicKey = trimSpace text; label = filepathBase (args ! 0) in
     attempt (guardThat (publicKey \<noteq> []) (msg ''the public SSH key file is empty'')) (\<lambda>_.
     attempt (guardThat (\<not> (label = ''.'' \<or> label = ''/'' \<or> label = []))
       (msg ''the public SSH key file has no usable name for its label'')) (\<lambda>_.
     attempt loadClient (\<lambda>c.
     attempt (wrapErr (\<lambda>e. Errorf [T ''add public SSH key: '', W e]) (AddSSHKey c publicKey label)) (\<lambda>k.
     attempt (guardThat (\<not> (sshKeyID k = [] \<or> sshFingerprint k = []))
       (msg ''the server returned an incomplete SSH key'')) (\<lambda>_.
       say (''SSH key '' @ sshKeyLabel k @ '' added ('' @ sshFingerprint k @ '').''))))))))"

definition runSSHKeyList :: "string list \<Rightarrow> unit cmd" where
  "runSSHKeyList args =
     attempt (lift (validateArguments ''ssh-key list'' args 0 [])) (\<lambda>_.
     attempt loadClient (\<lambda>c.
     attempt (ListSSHKeys c) (\<lambda>ks.
       if ks = [] then say ''No SSH keys.''
       else attempt (say (joinWith tab [''LABEL'', ''ID'', ''FINGERPRINT'', ''PUBLIC KEY''])) (\<lambda>_.
         eachDo (\<lambda>k. say (joinWith tab [sshKeyLabel k, sshKeyID k, sshFingerprint k, sshPublicKey k])) ks))))"

definition runSSHKeyRemove :: "string list \<Rightarrow> unit cmd" where
  "runSSHKeyRemove args =
     attempt (lift (validateArguments ''ssh-key rm'' args 1 [])) (\<lambda>_.
     attempt loadClient (\<lambda>c.
     attempt (wrapErr (\<lambda>e. Errorf [T ''remove public SSH key: '', W e]) (RemoveSSHKey c (args ! 0))) (\<lambda>_.
       say (''SSH key '' @ args ! 0 @ '' removed.''))))"

section \<open>Credentials\<close>

definition runTokenCreate :: "string list \<Rightarrow> unit cmd" where
  "runTokenCreate args =
     attempt (lift (validateArguments ''token create'' args 0 [])) (\<lambda>_.
     attempt loadClient openAccountPage)"

definition credentialRow :: "credential \<Rightarrow> string" where
  "credentialRow k = joinWith tab
     [credentialLabel k, credentialID k, expiresAt k, (if lastUsedAt k = [] then ''never'' else lastUsedAt k)]"

definition runTokenList :: "string list \<Rightarrow> unit cmd" where
  "runTokenList args =
     attempt (lift (validateArguments ''token list'' args 0 [])) (\<lambda>_.
     attempt loadClient (\<lambda>c.
     attempt (ListCredentials c) (\<lambda>ks.
       if ks = [] then say ''No bearer credentials.''
       else attempt (say (joinWith tab [''LABEL'', ''ID'', ''EXPIRES'', ''LAST USED''])) (\<lambda>_.
         eachDo (\<lambda>k. say (credentialRow k)) ks))))"

definition runTokenRevoke :: "string list \<Rightarrow> unit cmd" where
  "runTokenRevoke args =
     attempt (lift (validateArguments ''token revoke'' args 1 [])) (\<lambda>_.
     attempt loadClient (\<lambda>c.
     attempt (wrapErr (\<lambda>e. Errorf [T ''revoke bearer credential: '', W e]) (RevokeCredential c (args ! 0))) (\<lambda>_.
       say (''Bearer credential '' @ args ! 0 @ '' revoked.''))))"

end
