(* ===== verification/Cli_Operations.thy ===== *)
theory Cli_Operations
  imports Cli_Commands Go_Wait
begin

text \<open>
  The operator's commands of \<open>cli/cmd/biot/operations_commands.go\<close>: running the SSH client against a
  Biot with the host keys the server vouches for, listing nodes, and printing diagnostics and logs
  within a bound.
\<close>

section \<open>SSH arguments\<close>

fun sshLoop :: "string \<Rightarrow> string list \<Rightarrow> (cliErr, string \<times> string list) result" where
  "sshLoop identity [] = Inr (identity, [])"
| "sshLoop identity (a # as) =
     (if a = ''--identity'' then
        (case as of
           [] \<Rightarrow> Inl (msg ''ssh requires a file after --identity; run biot ssh --help'')
         | v # as' \<Rightarrow>
             if v = [] then Inl (msg ''ssh requires a file after --identity; run biot ssh --help'')
             else if identity \<noteq> [] then Inl (msg ''ssh accepts --identity only once'')
             else sshLoop v as')
      else if a = ''--'' then Inr (identity, as)
      else Inl (msg ''ssh accepts only --identity FILE and -- before a remote command; run biot ssh --help''))"

definition parseSSH :: "string list \<Rightarrow> (cliErr, string \<times> string \<times> string list) result" where
  "parseSSH args =
     (let front = takeWhile (\<lambda>a. a \<noteq> ''--'') args in
      andThen (rejectUnknown ''ssh'' front [''--identity'', ''--'']) (\<lambda>_.
        if args = [] \<or> front = [] then Inl (msg ''ssh expects a Biot name or ID; run biot ssh --help'')
        else andThen (sshLoop [] (tl args)) (\<lambda>(identity, remote). Inr (hd args, identity, remote))))"

section \<open>Known hosts\<close>

definition knownHostsAddress :: "string \<Rightarrow> int \<Rightarrow> string" where
  "knownHostsAddress host port =
     (if contains host '':'' then ''['' @ trimBoth {CHR ''['', CHR '']''} host @ '']:'' @ itoa port
      else if port = 22 then host
      else ''['' @ host @ '']:'' @ itoa port)"

definition knownHostsFailure :: cliErr where
  "knownHostsFailure = Errorf [T ''prepare SSH host-key verification: '', W (msg ''input/output error'')]"

definition knownHostsPath :: "world \<Rightarrow> string" where
  "knownHostsPath w = ''/tmp/biot-known-hosts-'' @ freshName w"

definition setFile :: "string \<Rightarrow> fileEntry option \<Rightarrow> world \<Rightarrow> world" where
  "setFile p f w = w\<lparr>files := (files w)(p := f)\<rparr>"

definition createKnownHosts :: "string cmd" where
  "createKnownHosts w =
     (if fault w FsKnownHosts then (Inl knownHostsFailure, w)
      else (Inr (knownHostsPath w), setFile (knownHostsPath w) (Some \<lparr>contents = [], mode = 384\<rparr>) w))"

definition appendKnownHost :: "string \<Rightarrow> string \<Rightarrow> unit cmd" where
  "appendKnownHost p line w =
     (if fault w FsKnownHostsWrite then (Inl knownHostsFailure, w)
      else (Inr (), setFile p (map_option (\<lambda>f. f\<lparr>contents := contents f @ line\<rparr>) (files w p)) w))"

definition closeKnownHosts :: "unit cmd" where
  "closeKnownHosts w = (if fault w FsKnownHostsClose then (Inl knownHostsFailure, w) else (Inr (), w))"

definition removeKnownHosts :: "string \<Rightarrow> unit cmd" where
  "removeKnownHosts p w = (Inr (), if fault w FsRemoveTemp then w else setFile p None w)"

definition hostKeyLine :: "string \<Rightarrow> hostKey \<Rightarrow> (cliErr, string) result" where
  "hostKeyLine address k =
     (if hostKeyType k = [] \<or> hostPublicKey k = [] \<or> hostFingerprint k = []
      then Inl (msg ''the server returned an incomplete SSH host key; ask an administrator to check its configuration'')
      else if \<not> hasPrefix (hostPublicKey k) (hostKeyType k @ '' '')
      then Inl (msg ''the server returned an invalid SSH host key; ask an administrator to check its configuration'')
      else Inr (address @ '' '' @ trimSpace (hostPublicKey k) @ [CHR 0x0A]))"

text \<open>The deferred function removes the file unless everything succeeded.\<close>

definition unlessDone :: "unit cmd \<Rightarrow> 'a cmd \<Rightarrow> 'a cmd" where
  "unlessDone undo m w = (case m w of (Inl e, w') \<Rightarrow> (Inl e, snd (undo w')) | (Inr a, w') \<Rightarrow> (Inr a, w'))"

definition writeKnownHosts :: "string \<Rightarrow> int \<Rightarrow> hostKey list \<Rightarrow> string cmd" where
  "writeKnownHosts host port keys =
     attempt createKnownHosts (\<lambda>p.
       unlessDone (removeKnownHosts p)
         (attempt (eachDo (\<lambda>k. attempt (lift (hostKeyLine (knownHostsAddress host port) k))
             (appendKnownHost p)) keys) (\<lambda>_.
          attempt closeKnownHosts (\<lambda>_. succeed p))))"

section \<open>Running SSH\<close>

definition sshArguments :: "string \<Rightarrow> string \<Rightarrow> int \<Rightarrow> string \<Rightarrow> string \<Rightarrow> string list \<Rightarrow> string list" where
  "sshArguments knownHosts identity port i host remote =
     [''-o'', ''StrictHostKeyChecking=yes'', ''-o'', ''UserKnownHostsFile='' @ knownHosts,
      ''-o'', ''GlobalKnownHostsFile=/dev/null''] @
     (if identity \<noteq> [] then [''-i'', identity] else []) @
     [''-p'', itoa port, i @ ''@'' @ host] @ remote"

text \<open>\<open>strings.ToLower\<close>, as far as a search for an ASCII phrase can tell: of the runes above ASCII only
  two become ASCII letters, the others stay what they are.\<close>

function lowerText :: "string \<Rightarrow> string" where
  "lowerText s =
     (if s = [] then []
      else case utf8Head s of
        None \<Rightarrow> hd s # lowerText (tl s)
      | Some (r, n) \<Rightarrow>
          (if 65 \<le> r \<and> r \<le> 90 then [char_of (r + 32)]
           else if r = 0x212A then ''k''
           else if r = 0x130 then ''i''
           else take n s) @ lowerText (drop n s))"
  by pat_completeness auto
termination
  by (relation "measure length") (auto dest: utf8Head_size(1) split: option.splits)

declare lowerText.simps [simp del]

definition publicKeyAuthenticationFailure :: "string \<Rightarrow> bool" where
  "publicKeyAuthenticationFailure message =
     (let m = lowerText message in
      contains m ''permission denied (publickey'' \<or> contains m ''no supported authentication methods available'')"

definition sshStatus :: "int \<Rightarrow> 32 word \<Rightarrow> int" where
  "sshStatus exitCode ws =
     (if exitCode < 0 then (if wsSignaled ws then 128 + wsSignal ws else 1) else exitCode)"

text \<open>\<open>process.Run\<close>, whose standard error goes to the client's and into a buffer. When the client's fails, the
  copy stops before the buffer, and the failure is the error of a run that otherwise succeeded.\<close>

definition execSSH :: "string list \<Rightarrow> (sshResult \<times> string) cmd" where
  "execSSH args w =
     (case ssh w args of
        (SshNotStarted why, _) \<Rightarrow> (Inr (SshNotStarted why, []), w)
      | (res, err) \<Rightarrow>
          (let w' = w\<lparr>sshRuns := sshRuns w @ [(args, files w)]\<rparr> in
           if stderrFails w \<and> err \<noteq> []
           then (Inr (if res = SshOk then SshBroken ''input/output error'' else res, []), w')
           else (Inr (res, err), snd (complain [T err] w'))))"

definition sshOutcome :: "sshResult \<times> string \<Rightarrow> unit cmd" where
  "sshOutcome p =
     (case p of
        (SshOk, _) \<Rightarrow> succeed ()
      | (SshNotStarted why, _) \<Rightarrow> failWith (Errorf [T ''start the SSH client: '', W (msg why)])
      | (SshBroken why, _) \<Rightarrow> failWith (Errorf [T ''start the SSH client: '', W (msg why)])
      | (SshExit exitCode ws, err) \<Rightarrow>
          attempt (if publicKeyAuthenticationFailure err
            then complain [T (''SSH authentication failed. Add a public key with biot ssh-key add FILE and make its private key available to ssh.'' @ [CHR 0x0A])]
            else succeed ()) (\<lambda>_. failWith (ExitStatus (sshStatus exitCode ws))))"

definition usableSSH :: "deployment \<Rightarrow> (cliErr, unit) result" where
  "usableSSH d =
     (if sshHost (deploymentSSH d) = [] \<or> sshPort (deploymentSSH d) < 1 \<or> sshPort (deploymentSSH d) > 65535
      then Inl (msg ''the server returned unusable SSH connection details'')
      else if hostKeys (deploymentSSH d) = []
      then Inl (msg ''the server has no SSH host key configured; ask an administrator to set BIOT_SSH_HOST_KEY_FILE'')
      else Inr ())"

definition runSSH :: "string list \<Rightarrow> unit cmd" where
  "runSSH args =
     attempt (lift (parseSSH args)) (\<lambda>(reference, identity, remote).
     onBiot (Inr ()) reference (\<lambda>c b.
     attempt (GetDeployment c) (\<lambda>d.
     attempt (lift (usableSSH d)) (\<lambda>_.
     let s = deploymentSSH d in
     attempt (writeKnownHosts (sshHost s) (sshPort s) (hostKeys s)) (\<lambda>knownHosts.
       deferred (removeKnownHosts knownHosts)
         (attempt (execSSH (sshArguments knownHosts identity (sshPort s) (biotID b) (sshHost s) remote))
            sshOutcome))))))"

section \<open>Nodes\<close>

record uidRange =
  rangeStart :: int
  rangeCount :: int

record orphanAllocation =
  orphanBiotID :: string
  orphanUIDRange :: uidRange

record nodeOrphanReport =
  reportKind :: string
  reportedAt :: string
  allocations :: "orphanAllocation list"

definition decUIDRange :: "uidRange decoder" where
  "decUIDRange = decStruct
     [(''start'', field rangeStart rangeStart_update decInt),
      (''count'', field rangeCount rangeCount_update decInt)]"

definition decOrphanAllocation :: "orphanAllocation decoder" where
  "decOrphanAllocation = decStruct
     [(''biot_id'', field orphanBiotID orphanBiotID_update decString),
      (''uid_range'', field orphanUIDRange orphanUIDRange_update decUIDRange)]"

definition decOrphanReport :: "nodeOrphanReport decoder" where
  "decOrphanReport = decStruct
     [(''kind'', field reportKind reportKind_update decString),
      (''reported_at'', field reportedAt reportedAt_update decString),
      (''allocations'', field allocations allocations_update (decSlice decOrphanAllocation
         \<lparr>orphanBiotID = [], orphanUIDRange = \<lparr>rangeStart = 0, rangeCount = 0\<rparr>\<rparr>))]"

text \<open>Go's int arithmetic wraps at 64 bits.\<close>

definition wrap64 :: "int \<Rightarrow> int" where
  "wrap64 n = (n + 9223372036854775808) mod 18446744073709551616 - 9223372036854775808"

definition orphanReport :: "json option \<Rightarrow> piece list \<times> orphanAllocation list" where
  "orphanReport orphans =
     (case orphans of
        None \<Rightarrow> ([T ''orphan report unavailable''], [])
      | Some j \<Rightarrow>
          (case decOrphanReport j \<lparr>reportKind = [], reportedAt = [], allocations = []\<rparr> of
             (r, ok) \<Rightarrow>
               if \<not> ok then ([T ''orphan report unavailable''], [])
               else if reportKind r = ''never_reported'' then ([T ''never reported''], [])
               else if reportKind r = ''reported''
               then ([T (showNat (length (allocations r)) @ '' allocation(s)'' @
                       (if reportedAt r \<noteq> [] then '', reported '' @ reportedAt r else []))], allocations r)
               else ([T ''orphan report unavailable (unknown kind '', Q (reportKind r), T '')''], [])))"

definition orphanLine :: "orphanAllocation \<Rightarrow> string" where
  "orphanLine a =
     (let rg = orphanUIDRange a in
      ''  orphan: Biot '' @ orphanBiotID a @ '', UID range '' @ itoa (rangeStart rg) @ ''-'' @
      itoa (wrap64 (wrap64 (rangeStart rg + rangeCount rg) - 1)))"

definition printNode :: "node \<Rightarrow> unit cmd" where
  "printNode n =
     (case orphanReport (nodeOrphans n) of
        (orphans, allocs) \<Rightarrow>
          attempt (printOut ([T (joinWith tab [nodeID n, nodeStatus n,
              (if nodePlatform n = [] then ''unknown'' else nodePlatform n),
              itoa (assignedBiots n) @ ''/'' @ itoa (maxBiots n), nodeConnection n] @ tab)] @ orphans @
              [T [CHR 0x0A]])) (\<lambda>_.
          eachDo (\<lambda>a. say (orphanLine a)) allocs))"

definition runNodes :: "string list \<Rightarrow> unit cmd" where
  "runNodes args =
     attempt (lift (validateArguments ''nodes'' args 0 [])) (\<lambda>_.
     attempt loadClient (\<lambda>c.
     attempt (ListNodes c) (\<lambda>nodes.
       if nodes = [] then say ''No nodes.''
       else attempt (say (joinWith tab [''ID'', ''STATUS'', ''PLATFORM'', ''CAPACITY'', ''CONNECTION'', ''ORPHANS''])) (\<lambda>_.
         eachDo printNode nodes))))"

section \<open>Diagnostics and logs\<close>

definition maxDisplayedOutputBytes :: nat where
  [bound_simps]: "maxDisplayedOutputBytes = 65536"

definition diagnosticFailure :: "biot \<Rightarrow> failure option" where
  "diagnosticFailure b =
     (let fallback = (case actualFailure (biotActual b) of
            Some f \<Rightarrow> if failureRevision f = revision (biotDesired b) then Some f else None
          | None \<Rightarrow> None)
      in case biotOperation b of
           Some p \<Rightarrow>
             if targetRevision p = revision (biotDesired b) \<and> outcomeKind (operationOutcome p) = ''failed''
             then outcomeFailure (operationOutcome p) else fallback
         | None \<Rightarrow> fallback)"

text \<open>The loop of \<open>truncateUTF8\<close>: the longest valid front of at most that many bytes.\<close>

fun validEnd :: "string \<Rightarrow> nat \<Rightarrow> nat" where
  "validEnd s 0 = 0"
| "validEnd s (Suc n) = (if utf8Valid (take (Suc n) s) then Suc n else validEnd s n)"

definition truncateUTF8 :: "string \<Rightarrow> nat \<Rightarrow> string" where
  "truncateUTF8 value bound = (if length value \<le> bound then value else take (validEnd value bound) value)"

definition printBoundedOutput :: "string \<Rightarrow> bool \<Rightarrow> string \<Rightarrow> unit cmd" where
  "printBoundedOutput content truncated label =
     (let over = length content > maxDisplayedOutputBytes;
          shown = (if over then truncateUTF8 content maxDisplayedOutputBytes else content);
          cutOff = (truncated \<or> over)
      in if shown = [] \<and> \<not> cutOff then say (''No '' @ label @ ''.'')
         else attempt (if shown \<noteq> []
              then attempt (printOut [T shown]) (\<lambda>_.
                if \<not> hasSuffix shown [CHR 0x0A] then printOut [T [CHR 0x0A]] else succeed ())
              else succeed ()) (\<lambda>_.
            if cutOff then say (''['' @ label @ '' truncated; showing at most '' @
              showNat maxDisplayedOutputBytes @ '' bytes.]'')
            else succeed ()))"

definition runDiagnose :: "string list \<Rightarrow> unit cmd" where
  "runDiagnose args =
     onBiot (validateArguments ''diagnose'' args 1 []) (args ! 0) (\<lambda>c b.
       case diagnosticFailure b of
         None \<Rightarrow> failWith (msg ''That Biot has no current failure diagnostic.'')
       | Some f \<Rightarrow>
           if diagnosticRef f = [] then failWith (msg ''That Biot has no current failure diagnostic.'')
           else attempt (GetDiagnostic c (diagnosticRef f)) (\<lambda>d.
             printBoundedOutput (diagnosticContent d) (diagnosticTruncated d) ''diagnostic output''))"

definition runLogs :: "string list \<Rightarrow> unit cmd" where
  "runLogs args =
     onBiot (validateArguments ''logs'' args 1 []) (args ! 0) (\<lambda>c b.
     attempt (GetRuntimeLogs c (biotID b) (int maxDisplayedOutputBytes)) (\<lambda>l.
       printBoundedOutput (logsContent l) (logsTruncated l) ''runtime logs''))"

end
