(* ===== verification/Cli_Main.thy ===== *)
theory Cli_Main
  imports Cli_Lifecycle Cli_Access Cli_Account Cli_Operations
begin

text \<open>
  The program: the tree of all commands as the \<open>init\<close> functions of \<open>cli/cmd/biot\<close> register them, its
  order, and \<open>main\<close> with its exit status.
\<close>

section \<open>The commands\<close>

definition textLines :: "string list \<Rightarrow> string" where
  "textLines ls = joinWith [CHR 0x0A] ls"

definition helpOption :: string where
  "helpOption = ''  -h, --help       Show this help.''"

definition wideHelpOption :: string where
  "wideHelpOption = ''  -h, --help              Show this help.''"

definition leaf :: "string \<Rightarrow> string \<Rightarrow> string \<Rightarrow> string list \<Rightarrow> (string list \<Rightarrow> unit cmd) \<Rightarrow> cmdTree" where
  "leaf name synopsis description options run =
     Cmd name synopsis description (textLines (options @ [helpOption])) (Some run) []"

definition branch :: "string \<Rightarrow> string \<Rightarrow> string \<Rightarrow> cmdTree list \<Rightarrow> cmdTree" where
  "branch name synopsis description children = Cmd name synopsis description helpOption None children"

definition accessCommands :: "cmdTree list" where
  "accessCommands =
     [leaf ''share'' ''biot share NAME_OR_ID --to EMAIL (--port PORT | --shell)''
        ''Give one person shell access or access to one published port.''
        [''  --to EMAIL       Required. Person to grant access to.'',
         ''  --port PORT      Grant access to one published port.'',
         ''  --shell          Grant shell access.''] runShare,
      leaf ''unshare'' ''biot unshare NAME_OR_ID --to EMAIL (--port PORT | --shell)''
        ''Remove one person's shell access or publication access.''
        [''  --to EMAIL       Required. Person whose access should be removed.'',
         ''  --port PORT      Remove access to one published port.'',
         ''  --shell          Remove shell access.''] runUnshare,
      leaf ''grants'' ''biot grants NAME_OR_ID''
        ''Show the owner and explicit access grants for a Biot.'' [] runGrants]"

definition accountCommands :: "cmdTree list" where
  "accountCommands =
     [branch ''ssh-key'' ''biot ssh-key <add|list|rm> ...''
        ''Register and remove public SSH keys for shell access.''
        [leaf ''add'' ''biot ssh-key add FILE''
           ''Register the public key in FILE; its filename becomes the key label.'' [] runSSHKeyAdd,
         leaf ''list'' ''biot ssh-key list'' ''List registered public SSH keys.'' [] runSSHKeyList,
         leaf ''rm'' ''biot ssh-key rm ID'' ''Remove a registered public SSH key by ID.'' [] runSSHKeyRemove],
      branch ''token'' ''biot token <create|list|revoke> ...''
        ''Open the account page or manage this account's bearer credentials.''
        [leaf ''create'' ''biot token create''
           ''Print the account page URL and open it to create a bearer token.'' [] runTokenCreate,
         leaf ''list'' ''biot token list''
           ''List bearer credentials without displaying their token values.'' [] runTokenList,
         leaf ''revoke'' ''biot token revoke ID'' ''Revoke one bearer credential by ID.'' [] runTokenRevoke]]"

definition baseCommands :: "(string list \<Rightarrow> unit cmd) \<Rightarrow> cmdTree list" where
  "baseCommands runHelp =
     [leaf ''help'' ''biot help''
        ''Show the Biot command list and the first steps for a new user.'' [] runHelp,
      leaf ''login'' ''biot login [SERVER_URL]''
        ''Open the account page, save a bearer token, and verify it. SERVER_URL is the HTTP or HTTPS address of your Biot server, such as https://biot.example.com.''
        [] runLogin,
      leaf ''logout'' ''biot logout''
        ''Remove the saved server URL and bearer token from this machine.'' [] runLogout,
      leaf ''list'' ''biot list'' ''List the Biots you can read.'' [] runList,
      leaf ''show'' ''biot show NAME_OR_ID'' ''Show one Biot by name or canonical ID.'' [] runShow]"

definition lifecycleCommands :: "cmdTree list" where
  "lifecycleCommands =
     [Cmd ''create'' ''biot create --repo URL --name NAME [options]''
        ''Create a Biot and wait until it is ready.''
        (textLines
          [''  --repo URL              Required. HTTPS repository to check out.'',
           ''  --name NAME             Required. Name for the new Biot.'',
           ''  --node ID               Node ID (the server chooses one by default).'',
           ''  --layer URL#REF         Nix layer source; repeatable.'',
           ''  --secret NAME           Runtime secret name; repeatable.'',
           ''  --fetch-credential URL  Source-fetch credential URL; repeatable.'',
           ''  --stdin                 Read exactly one value from standard input; use with exactly one --secret or --fetch-credential.'',
           wideHelpOption]) (Some runCreate) [],
      leaf ''start'' ''biot start NAME_OR_ID''
        ''Start a stopped Biot and report its lifecycle operation.'' [] runStart,
      leaf ''stop'' ''biot stop NAME_OR_ID''
        ''Stop a running Biot and report its lifecycle operation.'' [] runStop,
      leaf ''restart'' ''biot restart NAME_OR_ID''
        ''Stop a Biot, wait for it, then start it again.'' [] runRestart,
      leaf ''rebuild'' ''biot rebuild NAME_OR_ID'' ''Rebuild a Biot's current environment.'' [] runRebuild,
      leaf ''destroy'' ''biot destroy NAME_OR_ID'' ''Destroy a Biot permanently.'' [] runDestroy,
      leaf ''wait'' ''biot wait NAME_OR_ID''
        ''Wait for the current lifecycle operation to finish.'' [] runWait]"

definition operationsCommands :: "cmdTree list" where
  "operationsCommands =
     [leaf ''ssh'' ''biot ssh NAME_OR_ID [--identity FILE] [-- COMMAND]''
        ''Open a shell in a Biot, or run one command and return its status.''
        [''  --identity FILE  Use FILE as the SSH private key.'',
         ''  --               Pass the remaining arguments to SSH as the remote command.''] runSSH,
      leaf ''nodes'' ''biot nodes''
        ''List registered nodes, capacity, connection state, and orphan reports.'' [] runNodes,
      leaf ''diagnose'' ''biot diagnose NAME_OR_ID''
        ''Show the current failure diagnostic for a Biot.'' [] runDiagnose,
      leaf ''logs'' ''biot logs NAME_OR_ID''
        ''Print a bounded tail of a Biot's runtime output.'' [] runLogs]"

definition publicationCommands :: "cmdTree list" where
  "publicationCommands =
     [leaf ''publish'' ''biot publish NAME_OR_ID PORT''
        ''Publish one port from a Biot and report its URL policy change.'' [] runPublish,
      leaf ''unpublish'' ''biot unpublish NAME_OR_ID PORT''
        ''Stop publishing one port from a Biot.'' [] runUnpublish,
      leaf ''urls'' ''biot urls NAME_OR_ID''
        ''Print the published URLs for a Biot, one pasteable URL per line.'' [] runURLs]"

definition secretCommands :: "cmdTree list" where
  "secretCommands =
     [branch ''secret'' ''biot secret <set|rm|list> ...''
        ''Deliver, remove, or list runtime secrets without displaying their values.''
        [leaf ''set'' ''biot secret set NAME_OR_ID SECRET_NAME [--stdin]''
           ''Read one hidden runtime secret value and deliver it to a Biot.''
           [''  --stdin         Read exactly one secret value from standard input.''] runSecretSet,
         leaf ''rm'' ''biot secret rm NAME_OR_ID SECRET_NAME''
           ''Remove one runtime secret from a Biot.'' [] runSecretRemove,
         leaf ''list'' ''biot secret list NAME_OR_ID''
           ''List runtime secret names without showing their values.'' [] runSecretList],
      branch ''fetch-credential'' ''biot fetch-credential <set|rm> ...''
        ''Deliver or remove a source-fetch credential without displaying its value.''
        [leaf ''set'' ''biot fetch-credential set NAME_OR_ID SOURCE_URL [--stdin]''
           ''Read one hidden source-fetch credential and deliver it to a Biot.''
           [''  --stdin         Read exactly one source-fetch credential from standard input.''] runFetchCredentialSet,
         leaf ''rm'' ''biot fetch-credential rm NAME_OR_ID SOURCE_URL''
           ''Remove one source-fetch credential from a Biot.'' [] runFetchCredentialRemove]]"

section \<open>The root\<close>

definition commandOrderNames :: "(string \<times> nat) list" where
  "commandOrderNames =
     [(''login'', 0), (''logout'', 1), (''list'', 2), (''show'', 3),
      (''create'', 4), (''start'', 5), (''stop'', 6), (''restart'', 7), (''rebuild'', 8), (''destroy'', 9),
      (''wait'', 10), (''publish'', 11), (''unpublish'', 12), (''urls'', 13), (''share'', 14),
      (''unshare'', 15), (''grants'', 16), (''secret'', 17), (''fetch-credential'', 18),
      (''ssh'', 19), (''ssh-key'', 20), (''token'', 21), (''nodes'', 22), (''diagnose'', 23), (''logs'', 24)]"

definition commandOrder :: "string \<Rightarrow> nat" where
  "commandOrder name = (case map_of commandOrderNames name of Some n \<Rightarrow> n | None \<Rightarrow> 1000)"

definition clientVersion :: string where
  "clientVersion = ''dev''"

definition runRoot :: "string list \<Rightarrow> unit cmd" where
  "runRoot args =
     attempt (lift (mapErr (\<lambda>e. Errorf [W e, T ''; run biot --help'']) (RejectUnknown args [''--version'']))) (\<lambda>_.
       if args = [''--version''] then put [T (''biot '' @ clientVersion @ [CHR 0x0A])]
       else failWith (msg ''run biot --help for available commands''))"

text \<open>The files register their commands in the order of their names; \<open>main\<close> sorts them, keeping the
  order of equals. The \<open>help\<close> command prints the root command it is a child of; what it prints does
  not depend on what its own \<open>Run\<close> is.\<close>

definition registeredCommands :: "(string list \<Rightarrow> unit cmd) \<Rightarrow> cmdTree list" where
  "registeredCommands runHelp =
     accessCommands @ accountCommands @ baseCommands runHelp @ lifecycleCommands @ operationsCommands @
     publicationCommands @ secretCommands"

definition rootWith :: "(string list \<Rightarrow> unit cmd) \<Rightarrow> cmdTree" where
  "rootWith runHelp =
     Cmd ''biot'' ''biot <command> [options]''
       ''Biot provides development environments managed through a Biot server. Start with: biot login SERVER_URL''
       (textLines [helpOption, ''  --version        Show the client version.'']) (Some runRoot)
       (sort_key (\<lambda>c. commandOrder (cmdName c)) (registeredCommands runHelp))"

definition runHelp :: "string list \<Rightarrow> unit cmd" where
  "runHelp args =
     attempt (lift (rejectUnknown ''help'' args [])) (\<lambda>_.
     attempt (lift (RequireArguments ''help'' args 0)) (\<lambda>_.
       helpCommand (rootWith (\<lambda>_. succeed ()))))"

definition rootCommand :: cmdTree where
  "rootCommand = rootWith runHelp"

text \<open>\<open>main\<close>: the exit status, and what it prints of an error. An uncaught panic exits with 2.\<close>

definition runMain :: "string list \<Rightarrow> world \<Rightarrow> int \<times> world" where
  "runMain args w =
     (case executeCommand rootCommand args w of
        (Inr _, w') \<Rightarrow> (0, w')
      | (Inl e, w') \<Rightarrow>
          if e = ErrHelp then (0, w')
          else if isPanic e then (2, w')
          else case asExitStatus e of
            Some n \<Rightarrow> (n, w')
          | None \<Rightarrow> (1, snd (complain [W e, T [CHR 0x0A]] w')))"

end
