(* ===== verification/Cli_Policy.thy ===== *)
theory Cli_Policy
  imports Cli_Main
begin

text \<open>
  Which requests a command can send. A policy says of each client which calls are allowed; the locale
  fixes one, with the methods every request of which it allows, and proves each command of the client
  to keep to it. The policies of the program are interpretations: staying within the server of the
  saved login, and only reading.
\<close>

section \<open>Calls sent\<close>

definition silent :: "world \<Rightarrow> world \<Rightarrow> bool" where
  "silent w w' \<longleftrightarrow> calls w' = calls w \<and> server w' = server w"

definition sends :: "(call \<Rightarrow> bool) \<Rightarrow> world \<Rightarrow> world \<Rightarrow> bool" where
  "sends ok w w' \<longleftrightarrow> server w' = server w \<and> (\<exists>cs. calls w' = calls w @ cs \<and> (\<forall>cl \<in> set cs. ok cl))"

lemma silent_relation: "reflp silent" "transp silent"
  by (auto simp: silent_def reflp_def transp_def)

lemma sends_relation [simp]: "reflp (sends ok)" "transp (sends ok)"
proof -
  show "reflp (sends ok)" by (auto simp: sends_def reflp_def)
  show "transp (sends ok)"
    unfolding transp_def sends_def by (metis Un_iff append_assoc set_append)
qed

lemma silent_sends: "silent w w' \<Longrightarrow> sends ok w w'"
  by (simp add: silent_def sends_def)

lemma keeps_silent: "keeps silent m \<Longrightarrow> keeps (sends ok) m"
  by (auto simp: keeps_def intro: silent_sends)

named_theorems sends_intros \<open>actions built from parts that send only allowed calls\<close>
named_theorems silent_intros \<open>actions that send nothing\<close>

lemma silent_attempt [silent_intros]:
  "keeps silent m \<Longrightarrow> (\<And>a. keeps silent (k a)) \<Longrightarrow> keeps silent (attempt m k)"
  by (intro keeps_attempt silent_relation)

lemma sends_attempt [sends_intros]:
  "keeps (sends ok) m \<Longrightarrow> (\<And>a. keeps (sends ok) (k a)) \<Longrightarrow> keeps (sends ok) (attempt m k)"
  by (intro keeps_attempt) simp_all

lemma keeps_cases [sends_intros, silent_intros]:
  "(b \<Longrightarrow> keeps R m) \<Longrightarrow> (\<not> b \<Longrightarrow> keeps R n) \<Longrightarrow> keeps R (if b then m else n)"
  "keeps R none \<Longrightarrow> (\<And>a. keeps R (some a)) \<Longrightarrow> keeps R (case x of None \<Rightarrow> none | Some a \<Rightarrow> some a)"
  "keeps R nil \<Longrightarrow> (\<And>y ys. keeps R (cons y ys)) \<Longrightarrow> keeps R (case l of [] \<Rightarrow> nil | y # ys \<Rightarrow> cons y ys)"
  "(\<And>a b. keeps R (f a b)) \<Longrightarrow> keeps R (case p of (a, b) \<Rightarrow> f a b)"
  "keeps R (g v) \<Longrightarrow> keeps R (let y = v in g y)"
  "keeps R ok \<Longrightarrow> (\<And>n ws. keeps R (ex n ws)) \<Longrightarrow> (\<And>s. keeps R (ns s)) \<Longrightarrow> (\<And>s. keeps R (br s)) \<Longrightarrow>
     keeps R (case t of SshOk \<Rightarrow> ok | SshExit n ws \<Rightarrow> ex n ws | SshNotStarted s \<Rightarrow> ns s | SshBroken s \<Rightarrow> br s)"
  by (auto split: option.split list.split prod.split sshResult.split)

lemma keeps_eachDo_sends [sends_intros]: "(\<And>x. keeps (sends ok) (f x)) \<Longrightarrow> keeps (sends ok) (eachDo f xs)"
  by (rule keeps_eachDo) simp_all

lemma silent_pure [silent_intros]:
  "keeps silent (succeed a)" "keeps silent (failWith e)" "keeps silent (lift r)"
  using silent_relation by simp_all

lemma silent_eachDo [silent_intros]: "(\<And>x. keeps silent (f x)) \<Longrightarrow> keeps silent (eachDo f xs)"
  by (rule keeps_eachDo) (use silent_relation in simp_all)

lemmas keeps_wrap [sends_intros, silent_intros] = keeps_wrapErr

lemma keeps_deferred_sends [sends_intros]:
  assumes "keeps (sends ok) m" and "keeps (sends ok) after"
  shows "keeps (sends ok) (deferred after m)"
  unfolding keeps_def
proof (intro allI impI)
  fix w r w2
  assume d: "deferred after m w = (r, w2)"
  obtain r1 w1 where m: "m w = (r1, w1)" by fastforce
  obtain r2 where "after w1 = (r2, w2)" using d m by (cases "after w1") (simp add: deferred_def)
  with keepsD [OF assms(1) m] keepsD [OF assms(2)] sends_relation(2) show "sends ok w w2"
    by (metis transpD)
qed

subsection \<open>What sends nothing\<close>

lemma put_silent [silent_intros]:
  "keeps silent (put ps)" "keeps silent (printOut ps)" "keeps silent (say s)" "keeps silent (putErr ps)"
  "keeps silent (complain ps)" "keeps silent (guardThat b e)" "keeps silent getWorld" "keeps silent tick"
  by (auto simp: keeps_def silent_def put_def printOut_def say_def putErr_def complain_def guardThat_def
      getWorld_def tick_def result_simps split: if_splits)

lemma reader_silent [silent_intros]: "keeps silent (onStdin m)" "keeps silent (onTty m)"
  by (auto simp: keeps_def silent_def onStdin_def onTty_def split: prod.splits)

lemma secret_silent [silent_intros]: "keeps silent (secretInput prompt)"
  by (auto simp: keeps_def silent_def secretInput_def attempt_def putErr_def result_simps
      split: if_splits list.splits option.splits)

lemma sensitive_silent [silent_intros]: "keeps silent StdinSecret" "keeps silent (readSensitiveValue fromStdin prompt)"
  unfolding readSensitiveValue_def StdinSecret_def by (intro silent_intros)+

lemma page_silent [silent_intros]: "keeps silent (openAccountPage c)" "keeps silent (printPhase l p)"
  "keeps silent (printBiot b)" "keeps silent (reportAccepted res s)"
  unfolding openAccountPage_def printPhase_def printBiot_def reportAccepted_def
  by (intro silent_intros | simp add: keeps_def silent_def tryOpenBrowser_def complain_def putErr_def)+

lemma file_silent [silent_intros]:
  "keeps silent (readKeyFile p)" "keeps silent freshBiotID" "keeps silent createKnownHosts"
  "keeps silent (appendKnownHost p s)" "keeps silent closeKnownHosts" "keeps silent (removeKnownHosts p)"
  "keeps silent (execSSH args)"
  by (auto simp: keeps_def silent_def readKeyFile_def freshBiotID_def createKnownHosts_def setFile_def Let_def
      appendKnownHost_def closeKnownHosts_def removeKnownHosts_def execSSH_def complain_def putErr_def
      split: if_splits option.splits prod.splits sshResult.splits)

lemma silent_unlessDone [silent_intros]:
  "keeps silent m \<Longrightarrow> keeps silent undo \<Longrightarrow> keeps silent (unlessDone undo m)"
  by (auto simp: keeps_def unlessDone_def silent_def split: prod.splits sum.splits)
    (metis prod.collapse)+

lemma knownHosts_silent [silent_intros]: "keeps silent (writeKnownHosts host port keys)"
  "keeps silent (sshOutcome p)"
  unfolding writeKnownHosts_def sshOutcome_def
  by (intro silent_intros)+

lemma print_silent [silent_intros]:
  "keeps silent (printURL u)" "keeps silent (printGrant g)" "keeps silent (printShareResult res opts give)"
  "keeps silent (printNode n)" "keeps silent (printBoundedOutput s t l)"
  unfolding printURL_def printGrant_def printShareResult_def printNode_def printBoundedOutput_def Let_def
  by (intro silent_intros)+

section \<open>Requests under a policy\<close>

lemma apiRequest_calls:
  assumes "apiRequest c method p body w = (r, w')"
  shows "calls w' = calls w \<or> (\<exists>t. requestTarget c p = Inr t \<and> calls w' = calls w @ [callFor c method t body])"
    and "server w' = server w"
proof -
  show "server w' = server w" using apiRequest_talks [OF assms] by (auto simp: talks_def)
  show "calls w' = calls w \<or> (\<exists>t. requestTarget c p = Inr t \<and> calls w' = calls w @ [callFor c method t body])"
  proof (cases "requestTarget c p")
  case (Inr t)
  obtain x w1 where s: "sendCall (callFor c method t body) w = (x, w1)" by fastforce
  with assms Inr have "calls w' = calls w1" by (auto simp: apiRequest_run dest: respond_talks)
  with sendCall_talks [OF s] Inr show ?thesis by auto
  qed (use assms in \<open>simp add: apiRequest_run\<close>)
qed

text \<open>What a command run from the start may send: nothing unless there is a saved login, and then only
  what the policy allows its client.\<close>

definition via :: "(client \<Rightarrow> call \<Rightarrow> bool) \<Rightarrow> 'a cmd \<Rightarrow> bool" where
  "via ok m \<longleftrightarrow> (\<forall>w r w'. m w = (r, w') \<longrightarrow>
     (\<exists>cs. calls w' = calls w @ cs \<and> (\<forall>cl \<in> set cs. \<exists>c. savedClient w = Inr c \<and> ok c cl)))"

lemma viaI_silent: "keeps silent m \<Longrightarrow> via ok m"
  by (fastforce simp: keeps_def via_def silent_def)

lemma via_loadClient:
  assumes "\<And>c. keeps (sends (ok c)) (body c)"
  shows "via ok (attempt loadClient body)"
  unfolding via_def
proof (intro allI impI)
  fix w r w'
  assume a: "attempt loadClient body w = (r, w')"
  show "\<exists>cs. calls w' = calls w @ cs \<and> (\<forall>cl \<in> set cs. \<exists>c. savedClient w = Inr c \<and> ok c cl)"
  proof (cases "savedClient w")
    case (Inl e)
    with a show ?thesis by (simp add: attempt_def loadClient_run)
  next
    case (Inr c)
    with a have "body c w = (r, w')" by (simp add: attempt_def loadClient_run)
    with keepsD [OF assms] show ?thesis unfolding sends_def using Inr by metis
  qed
qed

lemma via_lift: "(\<And>a. via ok (k a)) \<Longrightarrow> via ok (attempt (lift x) k)"
  by (cases x) (auto simp: via_def attempt_def lift_def)

text \<open>What comes before the login is loaded must leave it as it is.\<close>

definition same_login :: "world \<Rightarrow> world \<Rightarrow> bool" where
  "same_login w w' \<longleftrightarrow> calls w' = calls w \<and> files w' = files w \<and> fault w' = fault w \<and> configDir w' = configDir w"

lemma same_login_saved: "same_login w w' \<Longrightarrow> savedClient w' = savedClient w"
  by (auto simp: same_login_def savedClient_def loadClient_def loadConfig_def configPath_def attempt_def
      lift_def split: option.splits prod.splits sum.splits)

lemma via_before:
  assumes "keeps same_login m" and "\<And>a. via ok (k a)"
  shows "via ok (attempt m k)"
  unfolding via_def
proof (intro allI impI)
  fix w r w'
  assume "attempt m k w = (r, w')"
  then show "\<exists>cs. calls w' = calls w @ cs \<and> (\<forall>cl \<in> set cs. \<exists>c. savedClient w = Inr c \<and> ok c cl)"
  proof (cases rule: attempt_cases)
    case (fails e)
    with keepsD [OF assms(1)] show ?thesis by (fastforce simp: same_login_def)
  next
    case (goes a w1)
    have l: "same_login w w1" using keepsD [OF assms(1)] goes(1) by blast
    from assms(2) [of a] goes(2) obtain cs where
      "calls w' = calls w1 @ cs" "\<forall>cl \<in> set cs. \<exists>c. savedClient w1 = Inr c \<and> ok c cl"
      unfolding via_def by blast
    with l same_login_saved [OF l] show ?thesis by (auto simp: same_login_def)
  qed
qed

lemma same_login_actions:
  "keeps same_login (say s)" "keeps same_login (printPhase l p)" "keeps same_login freshBiotID"
  "keeps same_login (readKeyFile f)" "keeps same_login (guardThat b e)"
  by (auto simp: keeps_def same_login_def say_def printOut_def put_def printPhase_def freshBiotID_def
      readKeyFile_def guardThat_def attempt_def result_simps split: if_splits option.splits)

lemmas endpoint_defs = Me_def GetBiot_def decodeBiot_def CreateBiot_def lifecycle_def StartBiot_def StopBiot_def
  RebuildBiot_def DestroyBiot_def GetOperation_def DeliverSecret_def ListSecrets_def RemoveSecret_def
  DeliverFetchCredential_def RemoveFetchCredential_def GetDeployment_def ListNodes_def GetDiagnostic_def
  GetRuntimeLogs_def ListSSHKeys_def AddSSHKey_def RemoveSSHKey_def ListCredentials_def RevokeCredential_def
  ListPublications_def publicationPolicy_def Publish_def Unpublish_def ResolvePrincipal_def GetGrants_def
  grantPolicy_def GrantShell_def RevokeShell_def GrantView_def RevokeView_def

lemma keeps_poll [sends_intros]:
  assumes "keeps (sends ok) check"
  shows "keeps (sends ok) (poll reference check)"
proof -
  have "keeps (sends ok) (pollLoop n reference check)" for n
    by (induction n) (simp_all only: pollLoop.simps,
      (intro sends_intros assms | assumption | rule keeps_silent, intro silent_intros)+)
  then show ?thesis by (auto simp: poll_def keeps_def)
qed

locale request_policy =
  fixes ok :: "client \<Rightarrow> call \<Rightarrow> bool" and methods :: "string set"
  assumes allowed: "method \<in> methods \<Longrightarrow> requestTarget c p = Inr t \<Longrightarrow> ok c (callFor c method t body)"
    and reads: "''GET'' \<in> methods"
begin

lemma request:
  assumes "method \<in> methods"
  shows "keeps (sends (ok c)) (apiRequest c method p body)"
  unfolding keeps_def
proof (intro allI impI)
  fix w r w'
  assume "apiRequest c method p body w = (r, w')"
  from apiRequest_calls [OF this] allowed [OF assms] show "sends (ok c) w w'"
    by (auto simp: sends_def)
qed

lemma result: "method \<in> methods \<Longrightarrow> keeps (sends (ok c)) (requestResult c method p body dec zero)"
  unfolding requestResult_def
  by (intro sends_intros request) (auto intro!: keeps_silent silent_intros split: prod.splits)

lemma plain_request: "method \<in> methods \<Longrightarrow> keeps (sends (ok c)) (requestNothing c method p body)"
  unfolding requestNothing_def by (intro sends_intros request) (auto intro!: keeps_silent silent_intros)

lemma floating:
  "method \<in> methods \<Longrightarrow> keeps (sends (ok c)) (\<lambda>w. requestResult c method p body (dec (floats w)) zero w)"
  using keepsD [OF result] by (auto simp: keeps_def)

lemma listing: "keeps (sends (ok c)) (ListBiots c)"
proof -
  have "keeps (sends (ok c)) (fetchPage c after)" for after
    unfolding fetchPage_def by (rule floating [OF reads])
  then show ?thesis
    using listPages_keeps [OF sends_relation] by (fastforce simp: keeps_def ListBiots_def)
qed

lemmas read_result = result [OF reads]
lemmas read_floating = floating [OF reads]

lemma reading:
  "keeps (sends (ok c)) (Me c)" "keeps (sends (ok c)) (GetBiot c i)" "keeps (sends (ok c)) (GetOperation c i)"
  "keeps (sends (ok c)) (ListSecrets c i)" "keeps (sends (ok c)) (GetDeployment c)"
  "keeps (sends (ok c)) (ListNodes c)" "keeps (sends (ok c)) (GetDiagnostic c s)"
  "keeps (sends (ok c)) (GetRuntimeLogs c i n)" "keeps (sends (ok c)) (ListSSHKeys c)"
  "keeps (sends (ok c)) (ListCredentials c)" "keeps (sends (ok c)) (ListPublications c i)"
  "keeps (sends (ok c)) (ResolvePrincipal c s)" "keeps (sends (ok c)) (GetGrants c i)"
  unfolding endpoint_defs by (rule read_result read_floating)+

lemma resolving: "keeps (sends (ok c)) (resolveBiot c reference)"
  unfolding resolveBiot_def
  by (intro sends_intros listing reading | rule keeps_silent, intro silent_intros)+

lemma via_onBiot:
  assumes "\<And>c b. keeps (sends (ok c)) (body c b)"
  shows "via ok (onBiot checked reference body)"
  unfolding onBiot_def by (intro via_lift via_loadClient sends_intros resolving assms)

lemma waiting:
  "keeps (sends (ok c)) (waitOperation c p i reference)" "keeps (sends (ok c)) (biotCheck c i reference ready)"
  unfolding waitOperation_def operationCheck_def biotCheck_def
  by (intro sends_intros reading | rule keeps_silent, intro silent_intros)+

lemma readers:
  "via ok (runList args)" "via ok (runShow args)" "via ok (runWait args)" "via ok (runURLs args)"
  "via ok (runGrants args)" "via ok (runSecretList args)" "via ok (runSSHKeyList args)"
  "via ok (runTokenCreate args)" "via ok (runTokenList args)" "via ok (runSSH args)" "via ok (runNodes args)"
  "via ok (runDiagnose args)" "via ok (runLogs args)"
  unfolding runList_def runShow_def runWait_def runURLs_def runGrants_def runSecretList_def runSSHKeyList_def
    runTokenCreate_def runTokenList_def runSSH_def runNodes_def runDiagnose_def runLogs_def
  by (intro via_onBiot via_lift via_loadClient sends_intros reading waiting listing
      | simp only: split_paired_all split_conv
      | rule keeps_silent, intro silent_intros)+

end

text \<open>A policy that allows every method the client uses.\<close>

locale open_policy = request_policy +
  assumes writes: "{''PUT'', ''POST'', ''DELETE''} \<subseteq> methods"
begin

lemma methods: "''PUT'' \<in> methods" "''POST'' \<in> methods" "''DELETE'' \<in> methods"
  using writes by auto

lemmas write_result = methods [THEN result]
lemmas write_nothing = methods [THEN plain_request]

lemma writing:
  "keeps (sends (ok c)) (CreateBiot c i body)" "keeps (sends (ok c)) (StartBiot c i n)"
  "keeps (sends (ok c)) (StopBiot c i n)" "keeps (sends (ok c)) (RebuildBiot c i n env)"
  "keeps (sends (ok c)) (DestroyBiot c i)" "keeps (sends (ok c)) (DeliverSecret c i s v)"
  "keeps (sends (ok c)) (RemoveSecret c i s)" "keeps (sends (ok c)) (DeliverFetchCredential c i s v)"
  "keeps (sends (ok c)) (RemoveFetchCredential c i s)" "keeps (sends (ok c)) (AddSSHKey c s l)"
  "keeps (sends (ok c)) (RemoveSSHKey c i)" "keeps (sends (ok c)) (RevokeCredential c i)"
  "keeps (sends (ok c)) (Publish c i port)" "keeps (sends (ok c)) (Unpublish c i port)"
  "keeps (sends (ok c)) (shareRequest c give opts i who)"
  unfolding endpoint_defs shareRequest_def
  by (intro sends_intros write_result write_nothing | rule keeps_silent, intro silent_intros)+

lemma creating: "keeps (sends (ok c)) (createPlain c opts i phase created)"
  "keeps (sends (ok c)) (createWithValues c opts i phase created)"
  unfolding createPlain_def createWithValues_def createPrepared_def createStart_def deliverCredential_def
    deliverSecret_def waitAllocation_def waitPrepared_def waitRunning_def
  by (intro sends_intros reading writing waiting | rule keeps_silent, intro silent_intros)+

lemma writers:
  "via ok (runLifecycle args action)" "via ok (runRestart args)" "via ok (runRebuild args)"
  "via ok (runDestroy args)" "via ok (runSecretSet args)" "via ok (runSecretRemove args)"
  "via ok (runFetchCredentialSet args)" "via ok (runFetchCredentialRemove args)"
  "via ok (runPublicationChange args publish)" "via ok (runShareChange args give)"
  "via ok (runSSHKeyRemove args)" "via ok (runTokenRevoke args)"
  unfolding runLifecycle_def runRestart_def runRebuild_def runDestroy_def runSecretSet_def runSecretRemove_def
    runFetchCredentialSet_def runFetchCredentialRemove_def runPublicationChange_def runShareChange_def
    runSSHKeyRemove_def runTokenRevoke_def waitIfAny_def waitRunning_def Let_def
  by (intro via_onBiot via_lift via_loadClient sends_intros reading writing waiting
      | simp only: split_paired_all split_conv
      | rule keeps_silent, intro silent_intros)+

lemma via_create: "via ok (runCreate args)"
  unfolding runCreate_def
  by (intro via_lift via_before same_login_actions via_loadClient sends_intros writing creating)

lemma via_addKey: "via ok (runSSHKeyAdd args)"
  unfolding runSSHKeyAdd_def Let_def
  by (intro via_lift via_before same_login_actions via_loadClient sends_intros writing
      | rule keeps_silent, intro silent_intros)+

end

end
