(* ===== verification/Cli_Scope.thy ===== *)
theory Cli_Scope
  imports Cli_Policy
begin

text \<open>
  The two policies of the client, as interpretations of the locales of \<open>Cli_Policy\<close>: every request
  stays within the server of the saved login, and the commands that report only read. They are lifted
  from the commands to whole command lines through the command tree.
\<close>

section \<open>The policies\<close>

definition serverPart :: "client \<Rightarrow> string" where
  "serverPart c = Scheme (baseURL c) @ ''://'' @ escapeUrl EncodeHost (Host (baseURL c))"

lemma setPath_form:
  assumes "setPath p v = Some u" and "p = [] \<or> hd p = CHR ''/''"
  shows "Path u = [] \<or> hd (Path u) = CHR ''/''" and "RawPath u = [] \<or> unescapeUrl EncodePath (RawPath u) = Some (Path u)"
    and "Host u = Host v" "Scheme u = Scheme v"
proof -
  from assms(1) obtain d where d: "unescapeUrl EncodePath p = Some d"
    and u: "u = v\<lparr>Path := d, RawPath := if p = escapeUrl EncodePath d then [] else p\<rparr>"
    by (auto simp: setPath_def)
  show "Path u = [] \<or> hd (Path u) = CHR ''/''"
    using d assms(2) by (cases p) (auto simp: u)
qed (use assms(1) in \<open>auto simp: setPath_def split: if_splits\<close>)

lemma parseRest_form:
  assumes "parseRest v s = Some u" and "Scheme v \<noteq> []" and "Host v = []" and "Host u \<noteq> []"
  shows "Path u = [] \<or> hd (Path u) = CHR ''/''" and "RawPath u = [] \<or> unescapeUrl EncodePath (RawPath u) = Some (Path u)"
proof -
  let ?p = "dropWhile (\<lambda>c. c \<noteq> CHR ''/'') (drop 2 s)"
  have slash: "?p = [] \<or> hd ?p = CHR ''/''" using hd_dropWhile [of "\<lambda>c. c \<noteq> CHR ''/''" "drop 2 s"] by blast
  from assms consider x where "setPath ?p x = Some u" | "setPath s v = Some u" "hasPrefix s ''/''"
    by (auto simp: parseRest_def Let_def split: if_splits option.splits prod.splits)
  then have "(Path u = [] \<or> hd (Path u) = CHR ''/'') \<and> (RawPath u = [] \<or> unescapeUrl EncodePath (RawPath u) = Some (Path u))"
  proof cases
    case 1
    then show ?thesis using setPath_form(1,2) [OF 1 slash] by blast
  next
    case 2
    with assms(3,4) setPath_form(3) [OF 2(1)] show ?thesis by (cases s) auto
  qed
  then show "Path u = [] \<or> hd (Path u) = CHR ''/''" "RawPath u = [] \<or> unescapeUrl EncodePath (RawPath u) = Some (Path u)"
    by blast+
qed

lemma parseRest_scheme: "parseRest v s = Some u \<Longrightarrow> Scheme u = Scheme v"
  by (auto simp: parseRest_def setPath_def Let_def split: if_splits option.splits prod.splits)

lemma parseUrl_form:
  assumes "parseUrl s = Some u" and "Scheme u \<noteq> []" and "Host u \<noteq> []"
  shows "Path u = [] \<or> hd (Path u) = CHR ''/''" and "RawPath u = [] \<or> unescapeUrl EncodePath (RawPath u) = Some (Path u)"
proof -
  from assms obtain u' where n: "parseNoFragment (fst (cutAt (CHR ''#'') s)) = Some u'"
    and same: "Path u = Path u'" "RawPath u = RawPath u'" "Scheme u' \<noteq> []" "Host u' \<noteq> []"
    by (auto simp: parseUrl_def split: prod.splits option.splits if_splits)
  from n same(4) obtain v r where r: "parseRest v r = Some u'" "Host v = []"
    by (auto simp: parseNoFragment_def noUrl_def Let_def split: option.splits prod.splits if_splits)
  then have "Scheme v = Scheme u'" by (metis parseRest_scheme)
  with parseRest_form [OF r(1)] r(2) same
  show "Path u = [] \<or> hd (Path u) = CHR ''/''" "RawPath u = [] \<or> unescapeUrl EncodePath (RawPath u) = Some (Path u)"
    by simp_all
qed

lemma escapePath_slash: "escapeUrl EncodePath (CHR ''/'' # s) = CHR ''/'' # escapeUrl EncodePath s"
  by (simp add: escapeUrl_def escapeByte_def shouldEscape_def)

text \<open>The target of a request: the client's server, its path, \<open>/api/\<close>, and the rest of the path escaped
  as a whole.\<close>

lemma requestTarget_form:
  assumes c: "newClient base tok = Inr c" and t: "requestTarget c p = Inr t"
  obtains u where "parseUrl p = Some u"
    and "t = serverPart c @ escapeUrl EncodePath (Path (baseURL c) @ ''/api/'' @ trimLeft {CHR ''/''} (Path u)) @
      (if ForceQuery (baseURL c) \<or> RawQuery u \<noteq> [] then CHR ''?'' # RawQuery u else [])"
proof -
  from t obtain u where u: "parseUrl p = Some u"
    and t': "t = urlString ((baseURL c)\<lparr>Path := trimSlashes (Path (baseURL c)) @ ''/api/'' @ trimLeft {CHR ''/''} (Path u),
                  RawQuery := RawQuery u, Fragment := []\<rparr>)"
    by (auto simp: requestTarget_def Let_def split: option.splits if_splits)
  from c obtain v where v: "parseUrl base = Some v" "Scheme v \<noteq> []" "Host v \<noteq> []"
    "baseURL c = v\<lparr>Path := trimSlashes (Path v)\<rparr>"
    by (auto simp: newClient_def split: option.splits if_splits)
  note form = parseUrl_form [OF v(1-3)]
  let ?path = "trimSlashes (Path v) @ ''/api/'' @ trimLeft {CHR ''/''} (Path u)"
  obtain sl where n: "Path v = trimSlashes (Path v) @ sl" and sl: "set sl \<subseteq> {CHR ''/''}"
    using trimRight_prefix [of "Path v"] unfolding trimSlashes_def by blast
  have idem: "trimSlashes (trimSlashes (Path v)) = trimSlashes (Path v)"
    by (simp add: trimSlashes_def trimRight_idem)
  have "Path v \<noteq> ?path"
  proof
    assume "Path v = ?path"
    with n have "sl = ''/api/'' @ trimLeft {CHR ''/''} (Path u)" by (metis same_append_eq)
    with sl have "set (''/api/'' @ trimLeft {CHR ''/''} (Path u)) \<subseteq> {CHR ''/''}" by simp
    then show False by auto
  qed
  moreover have "hd ?path = CHR ''/''"
    using form(1) n by (cases "trimSlashes (Path v)") auto
  moreover have "?path \<noteq> ''*''" by (auto simp: append_eq_Cons_conv)
  ultimately have "t = serverPart c @ escapeUrl EncodePath ?path @
      (if ForceQuery v \<or> RawQuery u \<noteq> [] then CHR ''?'' # RawQuery u else [])"
    using form(2) v(2,3) t' idem escapePath_slash [of "tl ?path"]
    by (cases ?path) (auto simp: urlString_def v(4) escapedPath_def serverPart_def Let_def)
  with u show thesis by (intro that [of u]) (simp_all add: v(4))
qed

text \<open>A call stays within a client's server when it goes to the server's scheme and host and to a path
  below \<open>/api/\<close> of its base, and carries the client's token and no other.\<close>

definition confined :: "client \<Rightarrow> call \<Rightarrow> bool" where
  "confined c cl \<longleftrightarrow>
     authorization cl = (if token c \<noteq> [] then Some (''Bearer '' @ token c) else None) \<and>
     (\<exists>p q. target cl = serverPart c @ escapeUrl EncodePath (Path (baseURL c) @ ''/api/'' @ p) @ q \<and>
       (q = [] \<or> hd q = CHR ''?''))"

lemma confinedI:
  assumes "target cl = serverPart c @ escapeUrl EncodePath (Path (baseURL c) @ ''/api/'' @ p) @ q"
    and "q = [] \<or> hd q = CHR ''?''"
    and "authorization cl = (if token c \<noteq> [] then Some (''Bearer '' @ token c) else None)"
  shows "confined c cl"
  using assms unfolding confined_def by blast

definition withinServer :: "client \<Rightarrow> call \<Rightarrow> bool" where
  "withinServer c cl \<longleftrightarrow> ((\<exists>base tok. newClient base tok = Inr c) \<longrightarrow> confined c cl)"

interpretation own_server: open_policy withinServer UNIV
proof unfold_locales
  fix vb :: string and c p t and body :: "json option"
  assume t: "requestTarget c p = Inr t"
  show "withinServer c (callFor c vb t body)"
    unfolding withinServer_def
  proof (intro impI, elim exE)
    fix base tok
    assume "newClient base tok = Inr c"
    from requestTarget_form [OF this t] obtain u where "parseUrl p = Some u"
      "t = serverPart c @ escapeUrl EncodePath (Path (baseURL c) @ ''/api/'' @ trimLeft {CHR ''/''} (Path u)) @
        (if ForceQuery (baseURL c) \<or> RawQuery u \<noteq> [] then CHR ''?'' # RawQuery u else [])" .
    then show "confined c (callFor c vb t body)"
      by (intro confinedI) (auto simp: callFor_def split: if_splits)
  qed
qed simp_all

definition readOnly :: "client \<Rightarrow> call \<Rightarrow> bool" where
  "readOnly c cl \<longleftrightarrow> verb cl = ''GET''"

interpretation read_only: request_policy readOnly "{''GET''}"
  by unfold_locales (auto simp: readOnly_def callFor_def)

text \<open>The saved login is a client that \<open>New\<close> has made.\<close>

lemma savedClient_made: "savedClient w = Inr c \<Longrightarrow> \<exists>base tok. newClient base tok = Inr c"
  by (auto simp: savedClient_def loadClient_def attempt_def lift_def split: prod.splits sum.splits)

section \<open>Whole command lines\<close>

lemma help_silent: "keeps silent (helpCommand c)"
  unfolding helpCommand_def by (intro silent_intros)+

lemma fixed_runs_silent: "keeps silent (runRoot args)" "keeps silent (runHelp args)" "keeps silent (runLogout args)"
proof -
  have e: "keeps silent configExists" "keeps silent removeConfig"
    by (auto simp: keeps_def silent_def configExists_def removeConfig_def configPath_def attempt_def
        split: option.splits if_splits)
  show "keeps silent (runRoot args)" "keeps silent (runHelp args)" "keeps silent (runLogout args)"
    unfolding runRoot_def runHelp_def runLogout_def by (intro silent_intros help_silent e)+
qed

text \<open>The groups of the tree are sound for a predicate when their \<open>Run\<close> functions satisfy it.\<close>

lemma groups_sound:
  "P runShare \<Longrightarrow> P runUnshare \<Longrightarrow> P runGrants \<Longrightarrow> list_all (soundTree P) accessCommands"
  "P runSSHKeyAdd \<Longrightarrow> P runSSHKeyList \<Longrightarrow> P runSSHKeyRemove \<Longrightarrow> P runTokenCreate \<Longrightarrow> P runTokenList \<Longrightarrow>
     P runTokenRevoke \<Longrightarrow> list_all (soundTree P) accountCommands"
  "P runCreate \<Longrightarrow> P runStart \<Longrightarrow> P runStop \<Longrightarrow> P runRestart \<Longrightarrow> P runRebuild \<Longrightarrow> P runDestroy \<Longrightarrow> P runWait \<Longrightarrow>
     list_all (soundTree P) lifecycleCommands"
  "P runSSH \<Longrightarrow> P runNodes \<Longrightarrow> P runDiagnose \<Longrightarrow> P runLogs \<Longrightarrow> list_all (soundTree P) operationsCommands"
  "P runPublish \<Longrightarrow> P runUnpublish \<Longrightarrow> P runURLs \<Longrightarrow> list_all (soundTree P) publicationCommands"
  "P runSecretSet \<Longrightarrow> P runSecretRemove \<Longrightarrow> P runSecretList \<Longrightarrow> P runFetchCredentialSet \<Longrightarrow>
     P runFetchCredentialRemove \<Longrightarrow> list_all (soundTree P) secretCommands"
  by (simp_all add: accessCommands_def accountCommands_def lifecycleCommands_def operationsCommands_def
      publicationCommands_def secretCommands_def leaf_def branch_def)

lemma base_sound:
  "P h \<Longrightarrow> P runLogout \<Longrightarrow> P runList \<Longrightarrow> P runShow \<Longrightarrow>
     list_all (\<lambda>t. cmdName t \<noteq> ''login'' \<longrightarrow> soundTree P t) (baseCommands h)"
  by (simp add: baseCommands_def leaf_def)

lemma own_server_tree:
  assumes "t \<in> set (registeredCommands runHelp)" and "cmdName t \<noteq> ''login''"
  shows "soundTree (\<lambda>f. \<forall>as. via withinServer (f as)) t"
proof -
  let ?P = "\<lambda>f. \<forall>as. via withinServer (f as)"
  have "list_all (soundTree ?P) (accessCommands @ accountCommands @ lifecycleCommands @ operationsCommands @
      publicationCommands @ secretCommands)"
    unfolding list_all_append
    by (intro conjI groups_sound) (simp_all add: own_server.readers own_server.writers own_server.via_create
      own_server.via_addKey runShare_def runUnshare_def runStart_def runStop_def runPublish_def runUnpublish_def)
  moreover have "list_all (\<lambda>t. cmdName t \<noteq> ''login'' \<longrightarrow> soundTree ?P t) (baseCommands runHelp)"
    by (rule base_sound) (simp_all add: own_server.readers viaI_silent fixed_runs_silent)
  ultimately show ?thesis
    using assms by (auto simp: registeredCommands_def list_all_iff)
qed

lemma root_children: "set (cmdChildren (rootWith h)) = set (registeredCommands h)"
  by (simp add: rootWith_def)

lemma child_of_root:
  assumes "find (\<lambda>t. cmdName t = a) (cmdChildren rootCommand) = Some t"
  shows "t \<in> set (registeredCommands runHelp)" and "cmdName t = a"
  using assms root_children [of runHelp] by (auto simp: rootCommand_def find_Some_iff)

lemma via_root:
  assumes "\<And>t. t \<in> set (registeredCommands runHelp) \<Longrightarrow> [cmdName t] = take 1 args \<Longrightarrow>
      soundTree (\<lambda>f. \<forall>as. via ok (f as)) t"
  shows "via ok (executeCommand rootCommand args)"
proof (cases args)
  case Nil
  have "cmdChildren rootCommand \<noteq> []"
    using root_children [of runHelp] by (auto simp: rootCommand_def registeredCommands_def accessCommands_def)
  with Nil show ?thesis by (simp add: viaI_silent help_silent)
next
  case (Cons a as)
  have run: "via ok (runCommand rootCommand (a # as))"
    by (simp add: runCommand_def rootCommand_def rootWith_def viaI_silent fixed_runs_silent)
  have "via ok (executeCommand t as)"
    if "find (\<lambda>t. cmdName t = a) (cmdChildren rootCommand) = Some t" for t
  proof (rule execute_sound)
    show "soundTree (\<lambda>f. \<forall>as. via ok (f as)) t"
      using assms child_of_root [OF that] Cons by auto
  qed (auto intro!: viaI_silent help_silent silent_pure)
  with run show ?thesis
    by (auto simp: Cons viaI_silent help_silent silent_pure split: option.split)
qed

lemma runMain_calls:
  assumes "via ok (executeCommand rootCommand args)" and "runMain args w = (n, w')"
  shows "\<exists>cs. calls w' = calls w @ cs \<and> (\<forall>cl \<in> set cs. \<exists>c. savedClient w = Inr c \<and> ok c cl)"
proof -
  obtain r w1 where e: "executeCommand rootCommand args w = (r, w1)" by fastforce
  have "calls w' = calls w1"
    using assms(2) e by (auto simp: runMain_def complain_def putErr_def split: sum.splits if_splits option.splits)
  with assms(1) e show ?thesis unfolding via_def by metis
qed

section \<open>Properties\<close>

text \<open>C5: The client talks to nobody but the server of the saved login. Whatever the command line, other
  than a login, every request of the whole run goes to the scheme and host of the saved server URL, to a
  path below \<open>/api/\<close> of its base, and carries the saved token as its only credential; without a saved
  login there is no request at all.\<close>

theorem requests_confined:
  assumes "runMain args w = (n, w')" and "take 1 args \<noteq> [''login'']"
  shows "\<exists>cs. calls w' = calls w @ cs \<and> (\<forall>cl \<in> set cs. \<exists>c. savedClient w = Inr c \<and> confined c cl)"
proof -
  have "via withinServer (executeCommand rootCommand args)"
    by (rule via_root, rule own_server_tree) (use assms(2) in auto)
  from runMain_calls [OF this assms(1)] show ?thesis
    using savedClient_made unfolding withinServer_def by fastforce
qed

definition reportingCommands :: "string list" where
  "reportingCommands = [''help'', ''logout'', ''list'', ''show'', ''wait'', ''urls'', ''grants'', ''ssh'', ''nodes'',
     ''diagnose'', ''logs'']"

lemma read_only_tree:
  assumes "t \<in> set (registeredCommands runHelp)" and "cmdName t \<in> set reportingCommands"
  shows "soundTree (\<lambda>f. \<forall>as. via readOnly (f as)) t"
proof -
  let ?S = "\<lambda>t. cmdName t \<in> set reportingCommands \<longrightarrow> soundTree (\<lambda>f. \<forall>as. via readOnly (f as)) t"
  note runs = read_only.readers viaI_silent [OF fixed_runs_silent(2)] viaI_silent [OF fixed_runs_silent(3)]
  have "list_all ?S accessCommands" "list_all ?S accountCommands" "list_all ?S publicationCommands"
    by (simp_all add: reportingCommands_def accessCommands_def accountCommands_def publicationCommands_def
        leaf_def branch_def runs)
  moreover have "list_all ?S lifecycleCommands" "list_all ?S secretCommands"
    by (simp_all add: reportingCommands_def lifecycleCommands_def secretCommands_def leaf_def branch_def runs)
  moreover have "list_all ?S operationsCommands" "list_all ?S (baseCommands runHelp)"
    by (simp_all add: reportingCommands_def operationsCommands_def baseCommands_def leaf_def runs)
  ultimately show ?thesis using assms by (auto simp: registeredCommands_def list_all_iff)
qed

text \<open>C30: The commands that only report never ask the server to change anything: every request of a
  whole run of one of them is a \<open>GET\<close>.\<close>

theorem reports_only_read:
  assumes "runMain (a # as) w = (n, w')" and "a \<in> set reportingCommands"
  shows "\<exists>cs. calls w' = calls w @ cs \<and> (\<forall>cl \<in> set cs. verb cl = ''GET'')"
proof -
  have "via readOnly (executeCommand rootCommand (a # as))"
    by (rule via_root, rule read_only_tree) (use assms(2) in auto)
  from runMain_calls [OF this assms(1)] show ?thesis unfolding readOnly_def by blast
qed

theorem requests_confined_witness:
  "\<exists>n w' cs. runMain [''list''] (demoWorld noServer) = (n, w') \<and> calls w' = cs \<and>
     (\<forall>cl \<in> set cs. confined demoClient cl)"
proof -
  obtain n w' where r: "runMain [''list''] (demoWorld noServer) = (n, w')" by fastforce
  from requests_confined [OF r] obtain cs where "calls w' = calls (demoWorld noServer) @ cs"
    "\<forall>cl \<in> set cs. \<exists>c. savedClient (demoWorld noServer) = Inr c \<and> confined c cl" by auto
  with r show ?thesis by (auto simp: demo_client demo_calls)
qed

theorem reports_only_read_witness:
  "\<exists>n w' cs. runMain [''show'', ''a''] (demoWorld noServer) = (n, w') \<and> calls w' = cs \<and>
     (\<forall>cl \<in> set cs. verb cl = ''GET'')"
proof -
  obtain n w' where r: "runMain [''show'', ''a''] (demoWorld noServer) = (n, w')" by fastforce
  from reports_only_read [OF r] r show ?thesis by (auto simp: reportingCommands_def demo_calls)
qed

end
