(* ===== verification/Cli_Requests.thy ===== *)
theory Cli_Requests
  imports Cli_Scope
begin

text \<open>
  What single operations of the API client ask for: the whole listing of Biots as the pages the server
  hands out, and the target a secret's name ends up in.
\<close>

section \<open>Listing\<close>

text \<open>A complete listing: page after page, each asked for with the last identifier of the page before,
  up to the first page that is not full.\<close>

inductive pageRun :: "client \<Rightarrow> string \<Rightarrow> world \<Rightarrow> biot list list \<Rightarrow> world \<Rightarrow> bool" for c where
  last_page: "fetchPage c after w = (Inr page, w') \<Longrightarrow> length page < pageSize \<Longrightarrow> pageRun c after w [page] w'"
| full_page: "fetchPage c after w = (Inr page, w1) \<Longrightarrow> pageSize \<le> length page \<Longrightarrow>
    biotID (last page) \<noteq> [] \<Longrightarrow> biotID (last page) \<noteq> after \<Longrightarrow>
    pageRun c (biotID (last page)) w1 pages w' \<Longrightarrow> pageRun c after w (page # pages) w'"

inductive_cases pageRun_elim: "pageRun c after w pages w'"

lemma listPages_sound:
  "listPages c after biots w = (Inr bs, w') \<Longrightarrow> \<exists>pages. pageRun c after w pages w' \<and> bs = biots @ concat pages"
proof (induction c after biots w rule: listPages.induct)
  case (1 c after biots w)
  from "1.prems" obtain page w1 where p: "fetchPage c after w = (Inr page, w1)"
    by (subst (asm) listPages.simps) (auto split: prod.splits sum.splits)
  show ?case
  proof (cases "length page < pageSize")
    case True
    with "1.prems" p have "bs = biots @ page" "w' = w1" by (subst (asm) listPages.simps, simp)+
    with last_page [OF p True] show ?thesis by (intro exI [of _ "[page]"]) simp
  next
    case False
    with "1.prems" p have c: "biotID (last page) \<noteq> []" "biotID (last page) \<noteq> after"
      and rest: "listPages c (biotID (last page)) (biots @ page) w1 = (Inr bs, w')"
      by (subst (asm) listPages.simps, simp split: if_splits)+
    from "1.IH" [OF p [symmetric] refl False] c rest obtain pages where
      "pageRun c (biotID (last page)) w1 pages w'" "bs = (biots @ page) @ concat pages" by auto
    with full_page [OF p _ c] False show ?thesis by (intro exI [of _ "page # pages"]) simp
  qed
qed

lemma listPages_complete:
  "pageRun c after w pages w' \<Longrightarrow> listPages c after biots w = (Inr (biots @ concat pages), w')"
proof (induction arbitrary: biots rule: pageRun.induct)
  case (last_page after w page w')
  then show ?case by (subst listPages.simps) simp
next
  case (full_page after w page w1 pages w')
  then show ?case by (subst listPages.simps) simp
qed

section \<open>Targets\<close>

definition pathByte :: "char \<Rightarrow> bool" where
  "pathByte c \<longleftrightarrow> c \<noteq> CHR ''#'' \<and> c \<noteq> CHR ''?'' \<and> \<not> controlByte c"

lemma upperHex_pathByte:
  assumes "d < 16"
  shows "pathByte (upperHex d)"
proof -
  have "list_all (\<lambda>d. pathByte (upperHex d)) [0..<16]" by code_simp
  with assms show ?thesis by (simp add: list_all_iff)
qed

lemma unescaped_pathByte:
  assumes "\<not> shouldEscape c EncodePathSegment"
  shows "pathByte c"
proof -
  have "list_all pathByte ''abcdefghijklmnopqrstuvwxyzABCDEFGHIJKLMNOPQRSTUVWXYZ0123456789-_.~$&+:=@''" by code_simp
  moreover from assms have "c \<in> set ''abcdefghijklmnopqrstuvwxyzABCDEFGHIJKLMNOPQRSTUVWXYZ0123456789-_.~'' \<or>
      (c \<in> set ''$&+,/:;=?@'' \<and> c \<notin> set ''/;,?'')"
    by (simp only: shouldEscape_def unreservedChar_def urlMode.case if_splits) blast
  ultimately show ?thesis by (simp only: list_all_iff) auto
qed

lemma pathEscape_bytes: "list_all pathByte (pathEscape s)"
proof (induction s)
  case (Cons c s)
  have "code c div 16 < 16" "code c mod 16 < 16" using code_less [of c] by linarith+
  with Cons show ?case
    using unescaped_pathByte [of c] upperHex_pathByte
    by (auto simp: pathEscape_def escapeUrl_def escapeByte_def)
      (auto simp: pathByte_def controlByte_def code_def)
qed (simp add: pathEscape_def escapeUrl_def)

lemma cutAt_absent: "c \<notin> set s \<Longrightarrow> cutAt c s = (s, [])"
  by (induction s) (auto simp: cutAt_def)

lemma parse_biots:
  assumes "list_all pathByte r"
  shows "parseUrl (''biots/'' @ r) = setPath (''biots/'' @ r) noUrl"
proof -
  let ?p = "''biots/'' @ r"
  have all: "list_all pathByte ?p" using assms by (simp add: pathByte_def controlByte_def code_def)
  then have plain: "CHR ''#'' \<notin> set ?p" "CHR ''?'' \<notin> set ?p" "\<not> list_ex controlByte ?p"
    by (auto simp: list_all_iff list_ex_iff pathByte_def)
  have scheme: "getScheme ?p = Some ([], ?p)"
    by (simp add: getScheme_def schemeRest_def letter_def)
  have q: "\<not> hasSuffix ?p ''?''"
    using plain(2) unfolding hasSuffix_iff by (metis in_set_conv_decomp)
  have "parseNoFragment ?p = parseRest noUrl ?p"
    using plain(3) scheme q cutAt_absent [OF plain(2)]
    by (simp add: parseNoFragment_def noUrl_def)
  also have "\<dots> = setPath ?p noUrl"
    by (simp add: parseRest_def noUrl_def cutAt_def)
  finally show ?thesis
    using cutAt_absent [OF plain(1)] by (auto simp: parseUrl_def split: option.split)
qed

lemma parse_secret_path:
  "\<exists>u. parseUrl (''biots/'' @ pathEscape i @ ''/secrets/'' @ pathEscape name) = Some u \<and>
     Path u = ''biots/'' @ i @ ''/secrets/'' @ name \<and> RawQuery u = []"
proof -
  let ?r = "pathEscape i @ ''/secrets/'' @ pathEscape name"
  have "list_all pathByte ?r"
    using pathEscape_bytes by (simp add: pathByte_def controlByte_def code_def)
  then have "parseUrl (''biots/'' @ ?r) = setPath (''biots/'' @ ?r) noUrl" by (rule parse_biots)
  moreover have "unescapeUrl EncodePath (''biots/'' @ ?r) = Some (''biots/'' @ i @ ''/secrets/'' @ name)"
    using unescape_pathEscape [of name "[]"] by (simp add: unescape_pathEscape)
  ultimately show ?thesis by (simp add: setPath_def noUrl_def)
qed

section \<open>Properties\<close>

text \<open>C24: A listing is complete and exact: \<open>ListBiots\<close> succeeds exactly when the server hands out a run of
  pages, each asked for with the last identifier of the one before, that are all full except the last,
  which is not; what it returns is those pages one after the other. An empty or repeated cursor, or a
  failed request, is never passed off as the end of the list.\<close>

theorem listing_complete:
  "ListBiots c w = (Inr biots, w') \<longleftrightarrow> (\<exists>pages. pageRun c [] w pages w' \<and> biots = concat pages)"
  using listPages_sound [of c "[]" "[]" w biots w'] listPages_complete [of c "[]" w _ w' "[]"]
  by (auto simp: ListBiots_def)

text \<open>C29: Where a request to remove a secret goes: below the Biot of the given identifier, with the identifier
  and the name escaped as parts of one path. A slash in either is therefore not escaped, although
  \<open>url.PathEscape\<close> was applied to them: it separates path segments again.\<close>

theorem secret_request_target:
  assumes "newClient base tok = Inr c" and "RemoveSecret c i name w = (r, w')" and "cl \<in> set (calls w')"
    and "cl \<notin> set (calls w)"
  shows "target cl = serverPart c @
      escapeUrl EncodePath (Path (baseURL c) @ ''/api/biots/'' @ i @ ''/secrets/'' @ name) @
      (if ForceQuery (baseURL c) then ''?'' else [])"
proof -
  let ?p = "''biots/'' @ pathEscape i @ ''/secrets/'' @ pathEscape name"
  from assms(2) obtain r1 where a: "apiRequest c ''DELETE'' ?p None w = (r1, w')"
    by (auto simp: RemoveSecret_def requestNothing_def succeed_def elim!: attempt_cases)
  from apiRequest_calls(1) [OF a] assms(3,4)
  obtain t where t: "requestTarget c ?p = Inr t" and cl: "target cl = t"
    by (auto simp: callFor_def)
  obtain u where u: "parseUrl ?p = Some u" "Path u = ''biots/'' @ i @ ''/secrets/'' @ name" "RawQuery u = []"
    using parse_secret_path by blast
  from requestTarget_form [OF assms(1) t] obtain v where v: "parseUrl ?p = Some v"
    "t = serverPart c @ escapeUrl EncodePath (Path (baseURL c) @ ''/api/'' @ trimLeft {CHR ''/''} (Path v)) @
      (if ForceQuery (baseURL c) \<or> RawQuery v \<noteq> [] then CHR ''?'' # RawQuery v else [])" .
  have "v = u" using v(1) u(1) by simp
  with v(2) u show ?thesis by (simp add: cl trimLeft_def)
qed

theorem secret_request_target_witness:
  "\<exists>r w' cl. RemoveSecret demoClient ''x'' ''a/b'' (demoWorld noServer) = (r, w') \<and> calls w' = [cl] \<and>
     target cl = ''https://b/api/biots/x/secrets/a/b''"
proof -
  have c: "newClient ''https://b'' ''t'' = Inr demoClient" by code_simp
  have t: "requestTarget demoClient (''biots/'' @ pathEscape ''x'' @ ''/secrets/'' @ pathEscape ''a/b'') =
      Inr ''https://b/api/biots/x/secrets/a/b''" by code_simp
  obtain r w' where run: "RemoveSecret demoClient ''x'' ''a/b'' (demoWorld noServer) = (r, w')" by fastforce
  obtain r1 where a: "apiRequest demoClient ''DELETE''
      (''biots/'' @ pathEscape ''x'' @ ''/secrets/'' @ pathEscape ''a/b'') None (demoWorld noServer) = (r1, w')"
    using run by (auto simp: RemoveSecret_def requestNothing_def succeed_def elim!: attempt_cases)
  have "headerText (''Bearer '' @ token demoClient)" by code_simp
  then have "calls w' = [callFor demoClient ''DELETE'' ''https://b/api/biots/x/secrets/a/b'' None]"
    using apiRequest_sent [OF a t, of 99] by (simp add: demo_calls)
  with secret_request_target [OF c run] show ?thesis
    using run by (auto simp: demo_calls serverPart_def demoClient_def noUrl_def escapeUrl_def escapeByte_def
        shouldEscape_def unreservedChar_def)
qed

end
