(* ===== verification/Cli_Waiting.thy ===== *)
theory Cli_Waiting
  imports Cli_Policy
begin

text \<open>
  What the polling loops of \<open>Cli_Lifecycle\<close> do: they refine a loop that has no count of its own, the wait
  for an operation gives exactly what the server shows of it, the waits stop with success only on the answer
  they wait for, and a create or restart that reports success has seen the Biot run.
\<close>

section \<open>Polling\<close>

text \<open>The loop of \<open>poll\<close> as the source has it, without a bound: check, and then either the deadline has
  passed or the ticker fires and the loop goes on.\<close>

inductive polled :: "string \<Rightarrow> 'a option cmd \<Rightarrow> world \<Rightarrow> (cliErr, 'a) result \<Rightarrow> world \<Rightarrow> bool"
  for reference check where
  poll_done: "check w = (Inr (Some a), w') \<Longrightarrow> polled reference check w (Inr a) w'"
| poll_fails: "check w = (Inl e, w') \<Longrightarrow> polled reference check w (Inl e) w'"
| poll_late: "check w = (Inr None, w') \<Longrightarrow> ticks w' = 0 \<Longrightarrow> polled reference check w (Inl (timedOut reference)) w'"
| poll_again: "check w = (Inr None, w1) \<Longrightarrow> ticks w1 \<noteq> 0 \<Longrightarrow> tick w1 = (Inr (), w2) \<Longrightarrow>
    polled reference check w2 r w' \<Longrightarrow> polled reference check w r w'"

definition same_ticks :: "world \<Rightarrow> world \<Rightarrow> bool" where
  "same_ticks w w' \<longleftrightarrow> ticks w' = ticks w"

lemma tick_run: "tick w = (Inr (), w\<lparr>ticks := ticks w - 1\<rparr>)"
  by (simp add: tick_def)

lemma pollLoop_polled:
  assumes k: "keeps same_ticks check"
  shows "ticks w = n \<Longrightarrow> pollLoop n reference check w = (r, w') \<Longrightarrow> polled reference check w r w'"
proof (induction n arbitrary: w)
  case 0
  obtain x w1 where c: "check w = (x, w1)" by fastforce
  with keepsD [OF k c] 0 have "ticks w1 = 0" by (simp add: same_ticks_def)
  with c 0 show ?case
    by (cases x) (auto simp: attempt_def result_simps split: option.splits intro: polled.intros)
next
  case (Suc n)
  obtain x w1 where c: "check w = (x, w1)" by fastforce
  with keepsD [OF k c] Suc have t: "ticks w1 = Suc n" by (simp add: same_ticks_def)
  show ?case
  proof (cases "x = Inr None")
    case True
    let ?w2 = "w1\<lparr>ticks := n\<rparr>"
    have tk: "tick w1 = (Inr (), ?w2)" using t by (simp add: tick_run)
    have "pollLoop n reference check ?w2 = (r, w')"
      using Suc.prems c True tk by (simp add: attempt_def)
    from Suc.IH [OF _ this] have "polled reference check ?w2 r w'" by simp
    with poll_again [OF _ _ tk] c True t show ?thesis by simp
  next
    case False
    with c Suc.prems show ?thesis
      by (cases x) (auto simp: attempt_def result_simps split: option.splits intro: polled.intros)
  qed
qed

lemma polled_poll:
  assumes k: "keeps same_ticks check"
  shows "polled reference check w r w' \<Longrightarrow> poll reference check w = (r, w')"
proof (induction rule: polled.induct)
  case (poll_done w a w')
  then show ?case by (cases "ticks w") (simp_all add: poll_def attempt_def result_simps)
next
  case (poll_fails w e w')
  then show ?case by (cases "ticks w") (simp_all add: poll_def attempt_def)
next
  case (poll_late w w')
  with keepsD [OF k poll_late(1)] show ?case by (simp add: poll_def attempt_def result_simps same_ticks_def)
next
  case (poll_again w w1 w2 r w')
  have "ticks w1 = ticks w" using keepsD [OF k poll_again.hyps(1)] by (simp add: same_ticks_def)
  with poll_again.hyps(2) obtain n where n: "ticks w = Suc n" "ticks w1 = Suc n"
    by (metis not0_implies_Suc)
  have "ticks w2 = n" using poll_again.hyps(3) n(2) by (auto simp: tick_run)
  then show ?case
    using poll_again.IH poll_again.hyps(1,3) n(1) by (simp add: poll_def attempt_def)
qed

lemma poll_refines:
  assumes "keeps same_ticks check"
  shows "poll reference check w = (r, w') \<longleftrightarrow> polled reference check w r w'"
proof
  assume "poll reference check w = (r, w')"
  then show "polled reference check w r w'"
    unfolding poll_def by (rule pollLoop_polled [OF assms refl])
qed (rule polled_poll [OF assms])

lemma polled_last:
  "polled reference check w r w' \<Longrightarrow> r = Inr a \<Longrightarrow> \<exists>w1. check w1 = (Inr (Some a), w')"
  by (induction rule: polled.induct) auto

section \<open>The checks\<close>

lemma same_ticks_relation: "reflp same_ticks" "transp same_ticks"
  by (auto simp: same_ticks_def reflp_def transp_def)

lemma requests_same_ticks: "keeps same_ticks (requestResult c method p body dec zero)"
  using keepsD [OF keeps_talks_result] by (fastforce simp: keeps_def talks_def same_ticks_def)

lemma checks_same_ticks:
  "keeps same_ticks (operationCheck c p i reference)" "keeps same_ticks (biotCheck c i reference ready)"
proof -
  have g: "keeps same_ticks (GetBiot c i)"
    using keepsD [OF requests_same_ticks] by (fastforce simp: keeps_def GetBiot_def decodeBiot_def)
  note rules = keeps_attempt [OF same_ticks_relation(2)] keeps_pure [OF same_ticks_relation(1)] g
    requests_same_ticks keeps_cases
  show "keeps same_ticks (operationCheck c p i reference)"
    unfolding operationCheck_def GetOperation_def by (intro rules)+
  show "keeps same_ticks (biotCheck c i reference ready)"
    unfolding biotCheck_def by (intro rules)+
qed

text \<open>What a wait has seen when it succeeds.\<close>

lemma waitOperation_ok:
  assumes "waitOperation c p i reference w = (Inr (), w')"
  shows "\<exists>w1 oper. GetOperation c p w1 = (Inr oper, w') \<and> outcomeKind (operationOutcome oper) = ''succeeded''"
proof -
  from assms have "polled reference (operationCheck c p i reference) w (Inr ()) w'"
    by (simp add: waitOperation_def poll_refines checks_same_ticks)
  from polled_last [OF this refl] obtain w1 where "operationCheck c p i reference w1 = (Inr (Some ()), w')" by blast
  then show ?thesis
    by (auto simp: operationCheck_def attempt_eq_Inr_iff Let_def result_simps split: if_splits)
qed

lemma biotCheck_ok:
  assumes "poll reference (biotCheck c i reference ready) w = (Inr b, w')"
  shows "\<exists>w1. GetBiot c i w1 = (Inr b, w') \<and> ready b \<and> waitingForFailure b reference = Inr () \<and>
    currentFailure b reference = Inr ()"
proof -
  from assms have "polled reference (biotCheck c i reference ready) w (Inr b) w'"
    by (simp add: poll_refines checks_same_ticks)
  from polled_last [OF this refl] obtain w1 where "biotCheck c i reference ready w1 = (Inr (Some b), w')" by blast
  then show ?thesis
    by (auto simp: biotCheck_def attempt_eq_Inr_iff result_simps split: if_splits)
qed

lemma waitRunning_ok:
  assumes "waitRunning c i reference w = (Inr (), w')"
  shows "\<exists>w1 b. GetBiot c i w1 = (Inr b, w') \<and> runningReady b \<and> waitingForFailure b reference = Inr () \<and>
    currentFailure b reference = Inr ()"
proof -
  from assms obtain b where "poll reference (biotCheck c i reference runningReady) w = (Inr b, w')"
    by (auto simp: waitRunning_def attempt_eq_Inr_iff result_simps)
  from biotCheck_ok [OF this] show ?thesis by blast
qed

lemma wrapErr_ok: "wrapErr f m w = (Inr a, w') \<longleftrightarrow> m w = (Inr a, w')"
  by (auto simp: wrapErr_def split: prod.splits)

text \<open>Every way through a create ends with the wait for the running Biot and the last line.\<close>

definition endsReady :: "client \<Rightarrow> createOptions \<Rightarrow> string \<Rightarrow> world \<Rightarrow> bool" where
  "endsReady c opts i w' \<longleftrightarrow>
     (\<exists>w1 w2. waitRunning c i (createName opts) w1 = (Inr (), w2) \<and> say ''biot ready'' w2 = (Inr (), w'))"

lemma createPlain_ok: "createPlain c opts i phase created w = (Inr (), w') \<Longrightarrow> endsReady c opts i w'"
  unfolding createPlain_def endsReady_def by (elim attempt_Inr_elim) auto

lemma createStart_ok: "createStart c opts i phase view w = (Inr (), w') \<Longrightarrow> endsReady c opts i w'"
  unfolding createStart_def endsReady_def by (elim attempt_Inr_elim) (auto simp: wrapErr_ok)

lemma createWithValues_ok: "createWithValues c opts i phase created w = (Inr (), w') \<Longrightarrow> endsReady c opts i w'"
  unfolding createWithValues_def by (elim attempt_Inr_elim) (blast intro: createStart_ok)

section \<open>What the server shows of an operation\<close>

text \<open>The answers a wait gets, on their own terms: the operation as the server shows it each time, and between
  two of them the look at the Biot, if one is named, which must find nothing that keeps it, and a tick of the
  deadline that has not yet passed.\<close>

definition shownKind :: "operation \<Rightarrow> string" where
  "shownKind oper = outcomeKind (operationOutcome oper)"

definition unblocked :: "client \<Rightarrow> string \<Rightarrow> string \<Rightarrow> world \<Rightarrow> world \<Rightarrow> bool" where
  "unblocked c i reference w w' \<longleftrightarrow>
     (if i = [] then w' = w else \<exists>b. GetBiot c i w = (Inr b, w') \<and> waitingForFailure b reference = Inr ())"

inductive shownRun :: "client \<Rightarrow> string \<Rightarrow> string \<Rightarrow> string \<Rightarrow> world \<Rightarrow> operation list \<Rightarrow> world \<Rightarrow> bool"
  for c p i reference where
  shown_last: "GetOperation c p w = (Inr oper, w') \<Longrightarrow> shownRun c p i reference w [oper] w'"
| shown_more: "GetOperation c p w = (Inr oper, w1) \<Longrightarrow> shownKind oper \<in> {''pending'', ''working''} \<Longrightarrow>
    unblocked c i reference w1 w2 \<Longrightarrow> ticks w2 \<noteq> 0 \<Longrightarrow>
    shownRun c p i reference (w2\<lparr>ticks := ticks w2 - 1\<rparr>) opers w' \<Longrightarrow> shownRun c p i reference w (oper # opers) w'"

lemma operationCheck_busy:
  "operationCheck c p i reference w = (Inr None, w') \<longleftrightarrow>
     (\<exists>oper w1. GetOperation c p w = (Inr oper, w1) \<and> shownKind oper \<in> {''pending'', ''working''} \<and> unblocked c i reference w1 w')"
proof (cases "GetOperation c p w")
  case (Pair x w1)
  show ?thesis
  proof (cases x)
    case (Inl e)
    with Pair show ?thesis by (simp add: operationCheck_def attempt_def)
  next
    case (Inr oper)
    have "operationCheck c p i reference w = (Inr None, w') \<longleftrightarrow>
        shownKind oper \<in> {''pending'', ''working''} \<and> unblocked c i reference w1 w'"
    proof (cases "shownKind oper \<in> {''pending'', ''working''}")
      case True
      then have "operationCheck c p i reference w =
          (if i \<noteq> [] then attempt (GetBiot c i) (\<lambda>b. attempt (lift (waitingForFailure b reference)) (\<lambda>_. succeed None))
           else succeed None) w1"
        using Pair Inr by (auto simp: operationCheck_def attempt_def shownKind_def)
      with True show ?thesis
        by (auto simp: attempt_eq_Inr_iff unblocked_def succeed_def lift_def)
    next
      case False
      then have "operationCheck c p i reference w \<noteq> (Inr None, w')"
        using Pair Inr by (auto simp: operationCheck_def attempt_def shownKind_def Let_def result_simps split: if_splits)
      with False show ?thesis by blast
    qed
    with Pair Inr show ?thesis by simp
  qed
qed

lemma shown_nonempty: "shownRun c p i reference w ops w' \<Longrightarrow> ops \<noteq> []"
  by (induction rule: shownRun.induct) simp_all

text \<open>What the loop gives from the last answer on, it gives from the start.\<close>

lemma shown_polled:
  "shownRun c p i reference w ops w' \<Longrightarrow> \<exists>w0. GetOperation c p w0 = (Inr (last ops), w') \<and>
     (\<forall>r w''. polled reference (operationCheck c p i reference) w0 r w'' \<longrightarrow>
        polled reference (operationCheck c p i reference) w r w'')"
proof (induction rule: shownRun.induct)
  case (shown_last w oper w')
  then show ?case by auto
next
  case (shown_more w oper w1 w2 opers w')
  have "operationCheck c p i reference w = (Inr None, w2)"
    unfolding operationCheck_busy using shown_more.hyps(1-3) by blast
  from poll_again [where check = "operationCheck c p i reference", OF this shown_more.hyps(4) tick_run] shown_more.IH shown_nonempty [OF shown_more.hyps(5)]
  show ?case by auto
qed

lemma shown_length: "shownRun c p i reference w ops w' \<Longrightarrow> length ops \<le> ticks w + 1"
proof (induction rule: shownRun.induct)
  case (shown_more w oper w1 w2 opers w')
  have "operationCheck c p i reference w = (Inr None, w2)"
    unfolding operationCheck_busy using shown_more.hyps(1-3) by blast
  from keepsD [OF checks_same_ticks(1) this] have "ticks w2 = ticks w" by (simp add: same_ticks_def)
  with shown_more.IH shown_more.hyps(4) show ?case by simp
qed simp

lemma shown_from:
  assumes "shownRun c p i reference w ops w'"
  obtains w0 where "GetOperation c p w0 = (Inr (last ops), w')"
    "\<And>r w''. polled reference (operationCheck c p i reference) w0 r w'' \<Longrightarrow>
      polled reference (operationCheck c p i reference) w r w''"
  using shown_polled [OF assms] by blast

lemma operationCheck_last:
  assumes "GetOperation c p w = (Inr oper, w')"
  shows "shownKind oper = ''succeeded'' \<Longrightarrow> operationCheck c p i reference w = (Inr (Some ()), w')"
    and "shownKind oper = ''failed'' \<Longrightarrow> operationCheck c p i reference w =
      (Inl (operationFailure (outcomeFailure (operationOutcome oper)) reference), w')"
    and "shownKind oper \<notin> {''pending'', ''working'', ''succeeded'', ''failed''} \<Longrightarrow>
      \<exists>e. operationCheck c p i reference w = (Inl e, w')"
  using assms
  by (simp_all add: operationCheck_def attempt_def shownKind_def succeed_def failWith_def Let_def)

lemma shown_succeeded:
  assumes "shownRun c p i reference w ops w'" and "shownKind (last ops) = ''succeeded''"
  shows "polled reference (operationCheck c p i reference) w (Inr ()) w'"
  using operationCheck_last(1) [OF _ assms(2)] poll_done by (metis shown_from [OF assms(1)])

lemma shown_failed:
  assumes "shownRun c p i reference w ops w'" and "shownKind (last ops) = ''failed''"
  shows "polled reference (operationCheck c p i reference) w
    (Inl (operationFailure (outcomeFailure (operationOutcome (last ops))) reference)) w'"
  using operationCheck_last(2) [OF _ assms(2)] poll_fails by (metis shown_from [OF assms(1)])

lemma shown_other:
  assumes "shownRun c p i reference w ops w'"
    and "shownKind (last ops) \<notin> {''pending'', ''working'', ''succeeded'', ''failed''}"
  shows "\<exists>e. polled reference (operationCheck c p i reference) w (Inl e) w'"
  using operationCheck_last(3) [OF _ assms(2)] poll_fails by (metis shown_from [OF assms(1)])

lemma shown_late:
  assumes "shownRun c p i reference w ops w'" and "shownKind (last ops) \<in> {''pending'', ''working''}"
    and "unblocked c i reference w' w2" and "ticks w2 = 0"
  shows "polled reference (operationCheck c p i reference) w (Inl (timedOut reference)) w2"
proof -
  obtain w0 where g: "GetOperation c p w0 = (Inr (last ops), w')"
    and on: "polled reference (operationCheck c p i reference) w0 r w'' \<Longrightarrow>
      polled reference (operationCheck c p i reference) w r w''" for r w''
    using shown_from [OF assms(1)] by blast
  have "operationCheck c p i reference w0 = (Inr None, w2)"
    unfolding operationCheck_busy using g assms(2,3) by blast
  from on [OF poll_late [where check = "operationCheck c p i reference", OF this assms(4)]] show ?thesis .
qed

lemma polled_shown:
  "polled reference (operationCheck c p i reference) w r w' \<Longrightarrow> r = Inr () \<Longrightarrow>
     \<exists>ops. shownRun c p i reference w ops w' \<and> shownKind (last ops) = ''succeeded''"
proof (induction rule: polled.induct)
  case (poll_done w a w')
  then obtain oper where "GetOperation c p w = (Inr oper, w')" "shownKind oper = ''succeeded''"
    by (auto simp: operationCheck_def attempt_eq_Inr_iff Let_def shownKind_def result_simps split: if_splits)
  then show ?case by (intro exI [of _ "[oper]"]) (simp add: shown_last)
next
  case (poll_again w w1 w2 r w')
  then obtain ops where ops: "shownRun c p i reference w2 ops w'" "shownKind (last ops) = ''succeeded''" by blast
  from poll_again.hyps(1) obtain oper wg where "GetOperation c p w = (Inr oper, wg)"
    "shownKind oper \<in> {''pending'', ''working''}" "unblocked c i reference wg w1" unfolding operationCheck_busy by blast
  from shown_more [OF this poll_again.hyps(2)] ops(1) poll_again.hyps(3)
  have "shownRun c p i reference w (oper # ops) w'" by (simp add: tick_run)
  with ops shown_nonempty show ?case by (intro exI [of _ "oper # ops"]) simp
qed simp_all

lemma waitOperation_polled:
  "waitOperation c p i reference w = (r, w') \<longleftrightarrow> polled reference (operationCheck c p i reference) w r w'"
  by (simp add: waitOperation_def poll_refines checks_same_ticks)

text \<open>A server that shows an operation pending once, and then succeeded.\<close>

definition operationJson :: "string \<Rightarrow> json" where
  "operationJson k = JObj [(''outcome'', JObj [(''kind'', JStr k)])]"

definition shownOperation :: "string \<Rightarrow> operation" where
  "shownOperation k = zeroOperation\<lparr>operationOutcome := \<lparr>outcomeKind = k, outcomeFailure = None\<rparr>\<rparr>"

definition slowServer :: "call list \<Rightarrow> exchange" where
  "slowServer cs = answer (operationJson (if length cs \<le> 1 then ''pending'' else ''succeeded''))"

lemma operation_json:
  assumes "k = ''pending'' \<or> k = ''succeeded''"
  shows "jsonOk (operationJson k)" "jdepth (operationJson k) \<le> maxNestingDepth" "length (jprint (operationJson k)) < 1000"
    "decOperation (operationJson k) zeroOperation = (shownOperation k, True)"
proof -
  show "jsonOk (operationJson k)" "jdepth (operationJson k) \<le> maxNestingDepth"
    using assms by (auto simp: operationJson_def maxNestingDepth_def code_def intro!: utf8Valid_text)
  have "length (jprint (operationJson ''pending'')) < 1000" "length (jprint (operationJson ''succeeded'')) < 1000" by code_simp+
  with assms show "length (jprint (operationJson k)) < 1000" by blast
  show "decOperation (operationJson k) zeroOperation = (shownOperation k, True)"
    using assms unfolding operationJson_def shownOperation_def decOperation_def decOutcome_def
    by (auto simp: fieldFor_def field_def zeroOperation_def)
qed

lemma demo_operation:
  assumes "server w = slowServer" "budget w = Suc n"
  shows "\<exists>w'. GetOperation demoClient ''p'' w = (Inr (shownOperation (if calls w = [] then ''pending'' else ''succeeded'')), w') \<and>
    server w' = slowServer \<and> budget w' = n \<and> length (calls w') = length (calls w) + 1 \<and> ticks w' = ticks w"
proof -
  let ?k = "if calls w = [] then ''pending'' else ''succeeded''"
  have t: "requestTarget demoClient (''operations/'' @ pathEscape ''p'') = Inr ''https://b/api/operations/p''" by code_simp
  have "requestResult demoClient ''GET'' (''operations/'' @ pathEscape ''p'') None decOperation zeroOperation w =
     (Inr (shownOperation ?k), w\<lparr>calls := calls w @ [callFor demoClient ''GET'' ''https://b/api/operations/p'' None], budget := n\<rparr>)"
    using assms operation_json [of ?k]
    by (intro requestResult_json [OF t demo_header, where j = "operationJson ?k"])
      (simp_all add: slowServer_def split: if_splits)
  with assms(1) show ?thesis by (simp add: GetOperation_def)
qed

section \<open>A run of create, for the examples\<close>

definition demoID :: string where "demoID = ''00000000-0000-4000-8000-000000000000''"

definition runningJson :: json where
  "runningJson = JObj [(''desired'', JObj [(''state'', JStr ''running'')]),
     (''actual'', JObj [(''container'', JObj [(''state'', JStr ''running'')])])]"

definition runningBiot :: biot where
  "runningBiot = zeroBiot\<lparr>biotDesired := zeroDesired\<lparr>desiredState := ''running''\<rparr>,
     biotActual := zeroActual\<lparr>actualContainer := zeroContainer\<lparr>containerState := ''running''\<rparr>\<rparr>\<rparr>"

text \<open>A server that accepts every change and shows every Biot running.\<close>

definition readyServer :: "call list \<Rightarrow> exchange" where
  "readyServer cs = (if verb (last cs) = ''GET'' then answer runningJson else answer (JObj []))"

lemma running_decodes: "decBiot fl runningJson zeroBiot = (runningBiot, True)"
  unfolding runningJson_def runningBiot_def decBiot_def decDesired_def decActual_def decContainer_def
  by (simp add: fieldFor_def field_def zeroBiot_def zeroActual_def zeroDesired_def zeroContainer_def)

lemma running_json: "jsonOk runningJson" "jdepth runningJson \<le> maxNestingDepth" "length (jprint runningJson) < 1000"
proof -
  show "jsonOk runningJson" "jdepth runningJson \<le> maxNestingDepth"
    by (auto simp: runningJson_def maxNestingDepth_def code_def intro!: utf8Valid_text)
  have "length (jprint runningJson) \<le> 100" by code_simp
  then show "length (jprint runningJson) < 1000" by simp
qed

lemma empty_json: "jsonOk (JObj [])" "jdepth (JObj []) \<le> maxNestingDepth" "length (jprint (JObj [])) < 1000"
  by (simp_all add: maxNestingDepth_def)

lemma demo_target: "requestTarget demoClient (''biots/'' @ pathEscape demoID) = Inr (''https://b/api/biots/'' @ demoID)"
  by code_simp

lemma runningBiot_ready: "runningReady runningBiot" "waitingForFailure runningBiot r = Inr ()" "currentFailure runningBiot r = Inr ()"
  by (simp_all add: runningBiot_def runningReady_def waitingForFailure_def currentFailure_def zeroBiot_def zeroActual_def)

lemma demo_get:
  assumes "server w = readyServer" "budget w = Suc n"
  shows "\<exists>w'. GetBiot demoClient demoID w = (Inr runningBiot, w') \<and> server w' = readyServer \<and> budget w' = n"
proof -
  have "requestResult demoClient ''GET'' (''biots/'' @ pathEscape demoID) None (decBiot (floats w)) zeroBiot w =
     (Inr runningBiot, w\<lparr>calls := calls w @ [callFor demoClient ''GET'' (''https://b/api/biots/'' @ demoID) None], budget := n\<rparr>)"
    using running_json running_decodes demo_target demo_header assms
    by (intro requestResult_json [where j = runningJson and t = "''https://b/api/biots/'' @ demoID"])
      (simp_all add: readyServer_def callFor_def)
  with assms(1) show ?thesis by (simp add: GetBiot_def decodeBiot_def)
qed

lemma demo_create:
  assumes "server w = readyServer" "budget w = Suc n"
  shows "\<exists>w'. CreateBiot demoClient demoID body w = (Inr zeroLifecycleResult, w') \<and> server w' = readyServer \<and> budget w' = n"
proof -
  have "requestResult demoClient ''PUT'' (''biots/'' @ pathEscape demoID) (Some body) decLifecycleResult zeroLifecycleResult w =
     (Inr zeroLifecycleResult, w\<lparr>calls := calls w @ [callFor demoClient ''PUT'' (''https://b/api/biots/'' @ demoID) (Some body)], budget := n\<rparr>)"
    using empty_json demo_target demo_header assms
    by (intro requestResult_json [where j = "JObj []" and t = "''https://b/api/biots/'' @ demoID"])
      (simp_all add: readyServer_def callFor_def decLifecycleResult_def)
  with assms(1) show ?thesis by (simp add: CreateBiot_def)
qed

lemma demo_phase:
  "\<exists>w'. printPhase l p w = (Inr p, w') \<and> server w' = server w \<and> budget w' = budget w"
  "\<exists>w'. say s w = (Inr (), w')"
  by (auto simp: printPhase_def say_def printOut_def put_def attempt_def result_simps)

lemma demo_wait:
  assumes "server w = readyServer" "budget w = Suc n"
  shows "\<exists>w'. waitRunning demoClient demoID r w = (Inr (), w')"
proof -
  obtain w' where "GetBiot demoClient demoID w = (Inr runningBiot, w')" using demo_get [OF assms] by blast
  then have "biotCheck demoClient demoID r runningReady w = (Inr (Some runningBiot), w')"
    by (simp add: biotCheck_def attempt_def lift_def runningBiot_ready result_simps)
  then have "polled r (biotCheck demoClient demoID r runningReady) w (Inr runningBiot) w'" by (rule poll_done)
  then show ?thesis
    by (simp add: waitRunning_def attempt_def poll_refines [symmetric] checks_same_ticks result_simps)
qed

section \<open>Properties\<close>

text \<open>C23: Waiting for an operation succeeds exactly when the server shows it succeeded. \<open>waitOperation\<close>
  returns with success if and only if the run is a series of answers about the operation in which every one
  but the last shows it pending or working, with the Biot that is named waiting for nothing that keeps it
  and a tick of the deadline left each time, and the last one shows it succeeded. An answer that
  it failed is that failure, any other last answer an error, a deadline that passes on a busy operation the
  error of a time out; and no more answers are asked for than there are ticks, and one.\<close>

theorem wait_operation_exact:
  "(waitOperation c p i reference w = (Inr (), w') \<longleftrightarrow>
      (\<exists>ops. shownRun c p i reference w ops w' \<and> shownKind (last ops) = ''succeeded'')) \<and>
   (\<forall>ops. shownRun c p i reference w ops w' \<longrightarrow> length ops \<le> ticks w + 1 \<and>
      (shownKind (last ops) = ''failed'' \<longrightarrow> waitOperation c p i reference w =
         (Inl (operationFailure (outcomeFailure (operationOutcome (last ops))) reference), w')) \<and>
      (shownKind (last ops) \<notin> {''pending'', ''working'', ''succeeded'', ''failed''} \<longrightarrow>
         (\<exists>e. waitOperation c p i reference w = (Inl e, w'))) \<and>
      (\<forall>w2. shownKind (last ops) \<in> {''pending'', ''working''} \<and> unblocked c i reference w' w2 \<and> ticks w2 = 0 \<longrightarrow>
         waitOperation c p i reference w = (Inl (timedOut reference), w2)))"
proof (intro conjI allI impI)
  show "waitOperation c p i reference w = (Inr (), w') \<longleftrightarrow>
      (\<exists>ops. shownRun c p i reference w ops w' \<and> shownKind (last ops) = ''succeeded'')"
    unfolding waitOperation_polled using polled_shown shown_succeeded by blast
next
  fix ops
  assume run: "shownRun c p i reference w ops w'"
  show "length ops \<le> ticks w + 1" using shown_length [OF run] .
  show "waitOperation c p i reference w =
      (Inl (operationFailure (outcomeFailure (operationOutcome (last ops))) reference), w')"
    if "shownKind (last ops) = ''failed''"
    unfolding waitOperation_polled by (rule shown_failed [OF run that])
  show "\<exists>e. waitOperation c p i reference w = (Inl e, w')"
    if "shownKind (last ops) \<notin> {''pending'', ''working'', ''succeeded'', ''failed''}"
    unfolding waitOperation_polled by (rule shown_other [OF run that])
  show "waitOperation c p i reference w = (Inl (timedOut reference), w2)"
    if "shownKind (last ops) \<in> {''pending'', ''working''} \<and> unblocked c i reference w' w2 \<and> ticks w2 = 0" for w2
    unfolding waitOperation_polled using shown_late [OF run] that by blast
qed

theorem wait_operation_exact_witness:
  "\<exists>w'. waitOperation demoClient ''p'' [] ''n'' (quietWorld slowServer) = (Inr (), w') \<and> length (calls w') = 2"
proof -
  let ?w = "quietWorld slowServer"
  obtain w1 where w1: "GetOperation demoClient ''p'' ?w = (Inr (shownOperation ''pending''), w1)" "server w1 = slowServer"
    "budget w1 = 99" "length (calls w1) = 1" "ticks w1 = 10"
    using demo_operation [of ?w 99] by (auto simp: quietWorld_def)
  let ?w2 = "w1\<lparr>ticks := ticks w1 - 1\<rparr>"
  have "calls w1 \<noteq> []" using w1(4) by auto
  then obtain w3 where w3: "GetOperation demoClient ''p'' ?w2 = (Inr (shownOperation ''succeeded''), w3)" "length (calls w3) = 2"
    using demo_operation [of ?w2 98] w1 by auto
  have "shownRun demoClient ''p'' [] ''n'' ?w [shownOperation ''pending'', shownOperation ''succeeded''] w3"
    by (rule shown_more [OF w1(1) _ _ _ shown_last [OF w3(1)]])
      (use w1(5) in \<open>simp_all add: unblocked_def shownOperation_def shownKind_def\<close>)
  with wait_operation_exact [of demoClient "''p''" "[]" "''n''" ?w w3] w3(2) show ?thesis
    by (fastforce simp: shownOperation_def shownKind_def)
qed

text \<open>C18: The client says that a Biot is ready only when the server has just said so. When \<open>biot create\<close>
  succeeds, the last thing it did before printing was to read the new Biot, and the answer showed it
  wanted running with a running container, waiting for nothing and without a failure of its current
  revision; and it was created under a fresh identifier with the saved login.\<close>

theorem create_reports_ready:
  assumes "runCreate args w = (Inr (), w')"
  shows "\<exists>opts c i w1 w2 b. parseCreateOptions args = Inr opts \<and> savedClient w = Inr c \<and>
    newId (random w) = Some i \<and> GetBiot c i w1 = (Inr b, w2) \<and> w' = snd (say ''biot ready'' w2) \<and>
    desiredState (biotDesired b) = ''running'' \<and> containerState (actualContainer (biotActual b)) = ''running'' \<and>
    actualWaitingFor (biotActual b) = None \<and> currentFailure b (createName opts) = Inr ()"
proof -
  from assms obtain opts i c phase created w1 w2 w3 where p: "parseCreateOptions args = Inr opts"
    and w1: "printPhase [] ''creating'' w = (Inr phase, w1)" and i: "freshBiotID w1 = (Inr i, w2)"
    and c: "loadClient w2 = (Inr c, w3)"
    and rest: "attempt (CreateBiot c i (createBody opts)) (\<lambda>created.
       if valuesRequired opts then createWithValues c opts i phase created
       else createPlain c opts i phase created) w3 = (Inr (), w')"
    by (auto simp: runCreate_def attempt_eq_Inr_iff lift_def)
  have "same_login w w1" "random w1 = random w"
    using keepsD [OF same_login_actions(2) w1] w1
    by (auto simp: printPhase_def say_def printOut_def put_def attempt_def result_simps split: if_splits)
  moreover have "w2 = w1" "newId (random w1) = Some i" using i by (auto simp: freshBiotID_def split: option.splits)
  ultimately have login: "savedClient w = Inr c" "newId (random w) = Some i"
    using c same_login_saved by (auto simp: loadClient_run)
  from rest have "endsReady c opts i w'"
    by (elim attempt_Inr_elim) (auto split: if_splits intro: createPlain_ok createWithValues_ok)
  then obtain w4 w5 where r: "waitRunning c i (createName opts) w4 = (Inr (), w5)"
    and s: "say ''biot ready'' w5 = (Inr (), w')" unfolding endsReady_def by blast
  from waitRunning_ok [OF r] obtain w6 b where "GetBiot c i w6 = (Inr b, w5)" "runningReady b"
    "waitingForFailure b (createName opts) = Inr ()" "currentFailure b (createName opts) = Inr ()" by blast
  with p login s show ?thesis
    by (fastforce simp: runningReady_def waitingForFailure_def Let_def split: option.splits if_splits)
qed

theorem create_reports_ready_witness:
  "\<exists>w' w2. runCreate [''--repo'', ''r'', ''--name'', ''n''] (demoWorld readyServer) = (Inr (), w') \<and>
     w' = snd (say ''biot ready'' w2)"
proof -
  let ?w = "demoWorld readyServer"
  let ?o = "noOptions\<lparr>repository := ''r'', createName := ''n''\<rparr>"
  have p: "parseCreateOptions [''--repo'', ''r'', ''--name'', ''n''] = Inr ?o" by code_simp
  obtain w1 where w1: "printPhase [] ''creating'' ?w = (Inr ''creating'', w1)" "same_login ?w w1"
    "server w1 = readyServer" "budget w1 = 100" "random w1 = random ?w"
    by (auto simp: printPhase_def say_def printOut_def put_def attempt_def result_simps same_login_def demo_calls)
  have "newId (random w1) = Some demoID"
    unfolding w1(5) by (simp add: demoWorld_def saved_def quietWorld_def) code_simp
  then have i: "freshBiotID w1 = (Inr demoID, w1)" by (simp add: freshBiotID_def)
  have c: "loadClient w1 = (Inr demoClient, w1)"
    using same_login_saved [OF w1(2)] by (simp add: loadClient_run demo_client)
  obtain w2 where w2: "CreateBiot demoClient demoID (createBody ?o) w1 = (Inr zeroLifecycleResult, w2)"
    "server w2 = readyServer" "budget w2 = 99" using demo_create [of w1 99] w1 by auto
  have "\<exists>w'. createPlain demoClient ?o demoID ''creating'' zeroLifecycleResult w2 = (Inr (), w')"
  proof -
    obtain w3 where w3: "printPhase ''creating'' ''preparing'' w2 = (Inr ''preparing'', w3)"
      "server w3 = readyServer" "budget w3 = 99" using demo_phase(1) [of "''creating''" "''preparing''" w2] w2 by auto
    obtain w4 where w4: "printPhase ''preparing'' ''starting'' w3 = (Inr ''starting'', w4)"
      "server w4 = readyServer" "budget w4 = Suc 98" using demo_phase(1) [of "''preparing''" "''starting''" w3] w3 by auto
    obtain w5 where "waitRunning demoClient demoID (createName ?o) w4 = (Inr (), w5)"
      using demo_wait [OF w4(2,3)] by blast
    with w3 w4 demo_phase(2) [of "''biot ready''" w5] show ?thesis
      by (simp add: createPlain_def attempt_def zeroLifecycleResult_def succeed_def)
  qed
  then obtain w' where w': "createPlain demoClient ?o demoID ''creating'' zeroLifecycleResult w2 = (Inr (), w')" by blast
  have "runCreate [''--repo'', ''r'', ''--name'', ''n''] ?w = (Inr (), w')"
    using w1(1) i c w2(1) w' by (simp add: runCreate_def attempt_def lift_def p valuesRequired_def noOptions_def)
  with create_reports_ready [OF this] show ?thesis by blast
qed

end
