(* ===== verification/Cli_Create.thy ===== *)
theory Cli_Create
  imports Cli_Waiting
begin

text \<open>
  The order of a create with values: the Biot is created stopped, every credential and secret is
  delivered and accepted, and only then is it asked to start. The order is read off the calls the client
  has sent, in a Hoare logic whose assertions say what has been delivered so far.
\<close>

section \<open>Assertions about the calls\<close>

definition accepted :: "exchange \<Rightarrow> bool" where
  "accepted x = (case x of Response slow st body broken \<Rightarrow> 200 \<le> st \<and> st < 300 | NoResponse slow e \<Rightarrow> False)"

text \<open>A call of the given kind is among the calls, and the server accepted it.\<close>

definition delivered :: "(call list \<Rightarrow> exchange) \<Rightarrow> call list \<Rightarrow> (call \<Rightarrow> bool) \<Rightarrow> bool" where
  "delivered srv cs good \<longleftrightarrow>
     (\<exists>before cl after. cs = before @ cl # after \<and> good cl \<and> accepted (srv (before @ [cl])))"

lemma delivered_more: "delivered srv cs good \<Longrightarrow> delivered srv (cs @ cs') good"
  unfolding delivered_def by (metis append_Cons append_assoc)

lemma delivered_last: "good cl \<Longrightarrow> accepted (srv (cs @ [cl])) \<Longrightarrow> delivered srv (cs @ [cl]) good"
  unfolding delivered_def by blast

definition starts :: "call \<Rightarrow> bool" where
  "starts cl \<longleftrightarrow> verb cl = ''POST''"

text \<open>Before the start: no start yet, and what has been delivered. Anywhere: a start only after all of
  it.\<close>

definition unstarted :: "(call list \<Rightarrow> exchange) \<Rightarrow> (call \<Rightarrow> bool) set \<Rightarrow> world \<Rightarrow> bool" where
  "unstarted srv goods w \<longleftrightarrow> server w = srv \<and> (\<forall>cl \<in> set (calls w). \<not> starts cl) \<and>
     (\<forall>good \<in> goods. delivered srv (calls w) good)"

definition ordered :: "(call list \<Rightarrow> exchange) \<Rightarrow> (call \<Rightarrow> bool) set \<Rightarrow> world \<Rightarrow> bool" where
  "ordered srv goods w \<longleftrightarrow> server w = srv \<and>
     (\<forall>before cl after. calls w = before @ cl # after \<longrightarrow> starts cl \<longrightarrow> (\<forall>good \<in> goods. delivered srv before good))"

lemma unstarted_ordered: "unstarted srv goods w \<Longrightarrow> ordered srv all w"
  by (auto simp: unstarted_def ordered_def)

definition noStart :: "client \<Rightarrow> call \<Rightarrow> bool" where
  "noStart c cl \<longleftrightarrow> \<not> starts cl"

interpretation no_start: request_policy noStart "{''GET'', ''PUT'', ''DELETE''}"
  by unfold_locales (auto simp: noStart_def starts_def callFor_def)

lemma sends_unstarted: "sends (noStart c) w w' \<Longrightarrow> unstarted srv goods w \<Longrightarrow> unstarted srv goods w'"
  unfolding sends_def unstarted_def noStart_def using delivered_more by fastforce

lemma ordered_append:
  assumes "ordered srv goods w" and "calls w' = calls w @ cs" and "server w' = server w" and "\<forall>cl \<in> set cs. \<not> starts cl"
  shows "ordered srv goods w'"
  unfolding ordered_def
proof (intro conjI allI impI ballI)
  show "server w' = srv" using assms(1,3) by (simp add: ordered_def)
  fix before cl after good
  assume split: "calls w' = before @ cl # after" and "starts cl" and "good \<in> goods"
  then have "cl \<notin> set cs" using assms(4) by auto
  with split assms(2) have "\<exists>rest. calls w = before @ cl # rest"
    by (auto simp: append_eq_append_conv2 append_eq_Cons_conv Cons_eq_append_conv)
  with assms(1) \<open>starts cl\<close> \<open>good \<in> goods\<close> show "delivered srv before good" by (auto simp: ordered_def)
qed

lemma quiet_unstarted:
  assumes "keeps (sends (noStart c)) m"
  shows "leads (unstarted srv goods) m (\<lambda>_. unstarted srv goods) (ordered srv all)"
  by (rule leadsI) (use keepsD [OF assms] sends_unstarted unstarted_ordered in blast)+

lemma quiet_ordered:
  assumes "keeps (sends (noStart c)) m"
  shows "leads (ordered srv goods) m (\<lambda>_. ordered srv goods) (ordered srv goods)"
  by (rule leadsI) (use keepsD [OF assms] ordered_append in \<open>fastforce simp: sends_def noStart_def\<close>)+

section \<open>The steps of a create\<close>

definition createCall :: "client \<Rightarrow> string \<Rightarrow> createOptions \<Rightarrow> call \<Rightarrow> bool" where
  "createCall c i opts cl \<longleftrightarrow> verb cl = ''PUT'' \<and> requestTarget c (''biots/'' @ pathEscape i) = Inr (target cl) \<and>
     requestBody cl = Some (jprint (createBody opts))"

definition secretCall :: "client \<Rightarrow> string \<Rightarrow> string \<Rightarrow> call \<Rightarrow> bool" where
  "secretCall c i name cl \<longleftrightarrow> verb cl = ''PUT'' \<and>
     requestTarget c (''biots/'' @ pathEscape i @ ''/secrets/'' @ pathEscape name) = Inr (target cl) \<and>
     (\<exists>v. utf8Valid v \<and> requestBody cl = Some (jprint (jsonMap [(''value'', JStr v)])))"

definition fetchCall :: "client \<Rightarrow> string \<Rightarrow> string \<Rightarrow> call \<Rightarrow> bool" where
  "fetchCall c i source cl \<longleftrightarrow> verb cl = ''PUT'' \<and>
     requestTarget c (''biots/'' @ pathEscape i @ ''/fetch-credentials'') = Inr (target cl) \<and>
     (\<exists>v. utf8Valid v \<and> requestBody cl = Some (jprint (jsonMap [(''source'', JStr source), (''value'', JStr v)])))"

text \<open>A \<open>PUT\<close> that succeeds was delivered.\<close>

lemma put_delivers:
  assumes "\<And>t. requestTarget c p = Inr t \<Longrightarrow> good (callFor c ''PUT'' t body)"
  shows "leads (unstarted srv goods) (apiRequest c ''PUT'' p body) (\<lambda>_. unstarted srv (insert good goods)) (ordered srv all)"
proof (rule leadsI)
  fix w e w'
  assume u: "unstarted srv goods w" and a: "apiRequest c ''PUT'' p body w = (Inl e, w')"
  have "sends (noStart c) w w'" using keepsD [OF no_start.request a] by simp
  with u show "ordered srv all w'" by (blast intro: sends_unstarted unstarted_ordered)
next
  fix w answered w'
  assume u: "unstarted srv goods w" and a: "apiRequest c ''PUT'' p body w = (Inr answered, w')"
  have "unstarted srv goods w'"
    using keepsD [OF no_start.request a] u by (auto intro: sends_unstarted)
  moreover from a obtain t slow st broken where "requestTarget c p = Inr t"
    "calls w' = calls w @ [callFor c ''PUT'' t body]" "server w (calls w') = Response slow st answered broken"
    "200 \<le> st" "st < 300"
    by (rule apiRequest_ok)
  ultimately show "unstarted srv (insert good goods) w'"
    using assms u by (auto simp: unstarted_def accepted_def intro!: delivered_last)
qed

lemma result_delivers:
  assumes "leads P (apiRequest c method p body) (\<lambda>_. post) E" and "\<And>w. post w \<Longrightarrow> E w"
  shows "leads P (requestResult c method p body dec zero) (\<lambda>_. post) E"
  unfolding requestResult_def
  by (rule leads_attempt [OF assms(1)])
    (auto intro!: leadsI assms(2) simp: result_simps split: if_splits prod.splits)

lemma plain_delivers:
  assumes "leads P (apiRequest c method p body) (\<lambda>_. post) E"
  shows "leads P (requestNothing c method p body) (\<lambda>_. post) E"
  unfolding requestNothing_def by (rule leads_attempt [OF assms]) (rule leads_pure(1))

lemma create_delivers:
  "leads (unstarted srv goods) (CreateBiot c i (createBody opts)) (\<lambda>_. unstarted srv (insert (createCall c i opts) goods))
     (ordered srv all)"
  unfolding CreateBiot_def
  by (intro result_delivers put_delivers unstarted_ordered) (simp add: createCall_def callFor_def)

lemma secret_delivers:
  "leads (unstarted srv goods) (DeliverSecret c i name v) (\<lambda>_. unstarted srv (insert (secretCall c i name) goods))
     (ordered srv all)"
  unfolding DeliverSecret_def
proof (rule leads_attempt)
  show "leads (unstarted srv goods) (lift (secretJSONValue v))
      (\<lambda>enc w. unstarted srv goods w \<and> utf8Valid enc) (ordered srv all)"
    by (rule leads_pure(3)) (auto simp: secretJSONValue_def intro: unstarted_ordered split: if_splits)
  fix enc
  have d: "leads (unstarted srv goods) (requestNothing c ''PUT'' (''biots/'' @ pathEscape i @ ''/secrets/'' @ pathEscape name)
      (Some (jsonMap [(''value'', JStr enc)]))) (\<lambda>_. unstarted srv (insert (secretCall c i name) goods)) (ordered srv all)"
    if "utf8Valid enc"
    using that by (intro plain_delivers put_delivers) (auto simp: secretCall_def callFor_def intro!: exI [of _ enc])
  show "leads (\<lambda>w. unstarted srv goods w \<and> utf8Valid enc) (requestNothing c ''PUT''
      (''biots/'' @ pathEscape i @ ''/secrets/'' @ pathEscape name) (Some (jsonMap [(''value'', JStr enc)])))
      (\<lambda>_. unstarted srv (insert (secretCall c i name) goods)) (ordered srv all)"
  proof (cases "utf8Valid enc")
    case True
    show ?thesis by (rule leads_conseq [OF d [OF True]]) simp_all
  qed (simp add: leads_def)
qed

lemma fetch_delivers:
  "leads (unstarted srv goods) (DeliverFetchCredential c i source v) (\<lambda>_. unstarted srv (insert (fetchCall c i source) goods))
     (ordered srv all)"
  unfolding DeliverFetchCredential_def
proof (rule leads_attempt)
  show "leads (unstarted srv goods) (lift (secretJSONValue v))
      (\<lambda>enc w. unstarted srv goods w \<and> utf8Valid enc) (ordered srv all)"
    by (rule leads_pure(3)) (auto simp: secretJSONValue_def intro: unstarted_ordered split: if_splits)
  fix enc
  have d: "leads (unstarted srv goods) (requestNothing c ''PUT'' (''biots/'' @ pathEscape i @ ''/fetch-credentials'')
      (Some (jsonMap [(''source'', JStr source), (''value'', JStr enc)])))
      (\<lambda>_. unstarted srv (insert (fetchCall c i source) goods)) (ordered srv all)"
    if "utf8Valid enc"
    using that by (intro plain_delivers put_delivers) (auto simp: fetchCall_def callFor_def intro!: exI [of _ enc])
  show "leads (\<lambda>w. unstarted srv goods w \<and> utf8Valid enc) (requestNothing c ''PUT''
      (''biots/'' @ pathEscape i @ ''/fetch-credentials'') (Some (jsonMap [(''source'', JStr source), (''value'', JStr enc)])))
      (\<lambda>_. unstarted srv (insert (fetchCall c i source) goods)) (ordered srv all)"
  proof (cases "utf8Valid enc")
    case True
    show ?thesis by (rule leads_conseq [OF d [OF True]]) simp_all
  qed (simp add: leads_def)
qed

lemma silent_unstarted:
  "keeps silent m \<Longrightarrow> leads (unstarted srv goods) m (\<lambda>_. unstarted srv goods) (ordered srv all)"
  by (rule quiet_unstarted, rule keeps_silent)

lemma deliver_one:
  "leads (unstarted srv goods) (deliverSecret c opts i name) (\<lambda>_. unstarted srv (insert (secretCall c i name) goods))
     (ordered srv all)"
  "leads (unstarted srv goods) (deliverCredential c opts i name) (\<lambda>_. unstarted srv (insert (fetchCall c i name) goods))
     (ordered srv all)"
  unfolding deliverSecret_def deliverCredential_def Let_def
  by (rule leads_attempt, rule silent_unstarted, intro silent_intros,
      intro leads_wrapErr secret_delivers fetch_delivers)+

lemma deliver_all:
  assumes "\<And>x goods. leads (unstarted srv goods) (f x) (\<lambda>_. unstarted srv (insert (good x) goods)) (ordered srv all)"
  shows "leads (unstarted srv goods) (eachDo f xs) (\<lambda>_. unstarted srv (good ` set xs \<union> goods)) (ordered srv all)"
proof (induction xs arbitrary: goods)
  case (Cons x xs)
  show ?case
    unfolding eachDo.simps using Cons.IH [of "insert (good x) goods"]
    by (intro leads_attempt [OF assms]) (simp add: insert_commute)
qed (auto intro!: leadsI simp: result_simps)

lemma quiet_steps:
  "keeps (sends (noStart c)) (waitAllocation c i reference)" "keeps (sends (noStart c)) (waitPrepared c i reference)"
  "keeps (sends (noStart c)) (waitRunning c i reference)" "keeps (sends (noStart c)) (createPrepared c opts i phase created)"
  unfolding waitAllocation_def waitPrepared_def waitRunning_def createPrepared_def
  by (intro sends_intros no_start.waiting | rule keeps_silent, intro silent_intros)+

lemma start_ordered:
  "leads (unstarted srv goods) (StartBiot c i n) (\<lambda>_. ordered srv goods) (ordered srv goods)"
proof -
  have "ordered srv goods w'" if u: "unstarted srv goods w" and a: "StartBiot c i n w = (r, w')" for w r w'
  proof -
    obtain r1 where q: "apiRequest c ''POST'' (''biots/'' @ pathEscape i @ ''/start'')
        (Some (jsonMap [(''expected_revision'', jint n)])) w = (r1, w')"
      using a by (auto simp: StartBiot_def lifecycle_def requestResult_def result_simps elim!: attempt_cases
          split: if_splits prod.splits)
    from apiRequest_calls [OF q] consider "calls w' = calls w" | cl where "calls w' = calls w @ [cl]" by blast
    then show ?thesis
    proof cases
      case 1
      with u apiRequest_calls(2) [OF q] have "unstarted srv goods w'" by (simp add: unstarted_def)
      then show ?thesis by (rule unstarted_ordered)
    next
      case 2
      have "delivered srv before good" if "calls w' = before @ x # after" "starts x" "good \<in> goods" for before x after good
      proof -
        have "x \<notin> set (calls w)" using u that(2) by (auto simp: unstarted_def)
        with that(1) 2 have "before = calls w" by (auto simp: append_eq_append_conv2 append_eq_Cons_conv Cons_eq_append_conv)
        with u that(3) show ?thesis by (simp add: unstarted_def)
      qed
      with u apiRequest_calls(2) [OF q] show ?thesis by (auto simp: ordered_def unstarted_def)
    qed
  qed
  then show ?thesis by (intro leadsI) blast+
qed

lemma createStart_ordered:
  "leads (unstarted srv goods) (createStart c opts i phase view) (\<lambda>_. ordered srv goods) (ordered srv goods)"
  unfolding createStart_def
proof (rule leads_attempt [OF leads_wrapErr [OF start_ordered]], rule quiet_ordered)
  fix started
  show "keeps (sends (noStart c)) (attempt (printPhase phase ''starting'') (\<lambda>_.
     attempt (if resultOperationID started \<noteq> []
              then wrapErr (startFailure opts i) (waitOperation c (resultOperationID started) i (createName opts))
              else succeed ()) (\<lambda>_.
     attempt (wrapErr (startFailure opts i) (waitRunning c i (createName opts))) (\<lambda>_. say ''biot ready''))))"
    by (intro sends_intros no_start.waiting quiet_steps | rule keeps_silent, intro silent_intros)+
qed

definition createGoods :: "client \<Rightarrow> string \<Rightarrow> createOptions \<Rightarrow> (call \<Rightarrow> bool) set" where
  "createGoods c i opts = insert (createCall c i opts)
     (fetchCall c i ` set (fetchCredentials opts) \<union> secretCall c i ` set (secretNames opts))"

lemma createWithValues_ordered:
  "leads (unstarted srv {createCall c i opts}) (createWithValues c opts i phase created)
     (\<lambda>_. ordered srv (createGoods c i opts)) (ordered srv (createGoods c i opts))"
proof -
  let ?C = "{createCall c i opts}"
  let ?F = "fetchCall c i ` set (fetchCredentials opts) \<union> ?C"
  let ?S = "secretCall c i ` set (secretNames opts) \<union> ?F"
  have goods: "?S = createGoods c i opts" by (auto simp: createGoods_def)
  note quiet = quiet_unstarted [where c = c]
  show ?thesis
    unfolding createWithValues_def goods [symmetric]
    by (rule leads_attempt [OF silent_unstarted], intro silent_intros,
        rule leads_attempt [OF leads_wrapErr [OF quiet [OF quiet_steps(1)]]],
        rule leads_attempt [OF silent_unstarted], intro silent_intros,
        rule leads_attempt [OF deliver_all [OF deliver_one(2)]],
        rule leads_attempt [OF quiet [OF quiet_steps(4)]],
        rule leads_attempt [OF leads_wrapErr [OF quiet [OF no_start.reading(2)]]],
        rule leads_attempt [OF silent_unstarted], intro silent_intros,
        rule leads_attempt [OF deliver_all [OF deliver_one(1)]],
        rule createStart_ordered)
qed

lemma createPlain_quiet: "keeps (sends (noStart c)) (createPlain c opts i phase created)"
  unfolding createPlain_def
  by (intro sends_intros no_start.waiting quiet_steps | rule keeps_silent, intro silent_intros)+

lemma create_ordered:
  "leads (unstarted srv {}) (attempt (CreateBiot c i (createBody opts)) (\<lambda>created.
       if valuesRequired opts then createWithValues c opts i phase created else createPlain c opts i phase created))
     (\<lambda>_. ordered srv (createGoods c i opts)) (ordered srv (createGoods c i opts))"
  by (rule leads_attempt [OF create_delivers], rule leads_If, rule createWithValues_ordered)
    (rule leads_conseq [OF quiet_unstarted [OF createPlain_quiet]], auto intro: unstarted_ordered)

section \<open>A run with a secret, for the examples\<close>

text \<open>A server that accepts what it is given, shows a Biot with its data in place, and does not answer the
  request to start.\<close>

definition presentJson :: json where
  "presentJson = JObj [(''actual'', JObj [(''data'', JStr ''present'')])]"

definition presentBiot :: biot where
  "presentBiot = zeroBiot\<lparr>biotActual := zeroActual\<lparr>actualData := ''present''\<rparr>\<rparr>"

definition slowServer :: "call list \<Rightarrow> exchange" where
  "slowServer cs = (if verb (last cs) = ''GET'' then answer presentJson
     else if verb (last cs) = ''PUT'' then answer (JObj []) else NoResponse False deadlinePassed)"

definition waitsAt :: "nat \<Rightarrow> world \<Rightarrow> bool" where
  "waitsAt n w \<longleftrightarrow> server w = slowServer \<and> budget w = n \<and> stdin w = \<lparr>unread = [], ends = EOF\<rparr>"

lemma present_json: "jsonOk presentJson" "jdepth presentJson \<le> maxNestingDepth" "length (jprint presentJson) < 1000"
  "decBiot fl presentJson zeroBiot = (presentBiot, True)"
proof -
  show "jsonOk presentJson" "jdepth presentJson \<le> maxNestingDepth"
    by (auto simp: presentJson_def maxNestingDepth_def code_def intro!: utf8Valid_text)
  have "length (jprint presentJson) \<le> 100" by code_simp
  then show "length (jprint presentJson) < 1000" by simp
  show "decBiot fl presentJson zeroBiot = (presentBiot, True)"
    unfolding presentJson_def presentBiot_def decBiot_def decActual_def
    by (simp add: fieldFor_def field_def zeroBiot_def zeroActual_def)
qed

lemma slow_get:
  assumes "waitsAt (Suc n) w"
  shows "\<exists>w'. GetBiot demoClient demoID w = (Inr presentBiot, w') \<and> waitsAt n w'"
proof -
  have "requestResult demoClient ''GET'' (''biots/'' @ pathEscape demoID) None (decBiot (floats w)) zeroBiot w =
     (Inr presentBiot, w\<lparr>calls := calls w @ [callFor demoClient ''GET'' (''https://b/api/biots/'' @ demoID) None], budget := n\<rparr>)"
    using present_json demo_target demo_header assms
    by (intro requestResult_json [where j = presentJson and t = "''https://b/api/biots/'' @ demoID"])
      (simp_all add: slowServer_def callFor_def waitsAt_def)
  with assms show ?thesis by (simp add: GetBiot_def decodeBiot_def waitsAt_def)
qed

lemma slow_create:
  assumes "waitsAt (Suc n) w"
  shows "\<exists>w'. CreateBiot demoClient demoID body w = (Inr zeroLifecycleResult, w') \<and> waitsAt n w'"
proof -
  have "requestResult demoClient ''PUT'' (''biots/'' @ pathEscape demoID) (Some body) decLifecycleResult zeroLifecycleResult w =
     (Inr zeroLifecycleResult, w\<lparr>calls := calls w @ [callFor demoClient ''PUT'' (''https://b/api/biots/'' @ demoID) (Some body)], budget := n\<rparr>)"
    using empty_json demo_target demo_header assms
    by (intro requestResult_json [where j = "JObj []" and t = "''https://b/api/biots/'' @ demoID"])
      (simp_all add: slowServer_def callFor_def decLifecycleResult_def waitsAt_def)
  with assms show ?thesis by (simp add: CreateBiot_def waitsAt_def)
qed

lemma slow_deliver:
  assumes "waitsAt (Suc n) w"
  shows "\<exists>w'. DeliverSecret demoClient demoID ''s'' [] w = (Inr (), w') \<and> waitsAt n w'"
proof -
  let ?t = "''https://b/api/biots/'' @ demoID @ ''/secrets/s''" and ?b = "Some (jsonMap [(''value'', JStr [])])"
  have t: "requestTarget demoClient (''biots/'' @ pathEscape demoID @ ''/secrets/'' @ pathEscape ''s'') = Inr ?t"
    by code_simp
  have e: "secretJSONValue [] = Inr []" by (simp add: secretJSONValue_def bytesString_def)
  have "requestNothing demoClient ''PUT'' (''biots/'' @ pathEscape demoID @ ''/secrets/'' @ pathEscape ''s'') ?b w =
     (Inr (), w\<lparr>calls := calls w @ [callFor demoClient ''PUT'' ?t ?b], budget := n\<rparr>)"
    using assms empty_json
    by (intro requestNothing_answered [OF t demo_header, where st = 200 and ans = "jprint (JObj []) @ [CHR 0x0A]"])
      (simp_all add: waitsAt_def slowServer_def callFor_def answer_def maxResponseBytes_def)
  with assms show ?thesis
    unfolding DeliverSecret_def attempt_def lift_def e by (simp add: waitsAt_def)
qed

lemma slow_start:
  assumes "waitsAt (Suc n) w" and "StartBiot demoClient demoID m w = (r, w')"
  shows "\<exists>cl. calls w' = calls w @ [cl] \<and> verb cl = ''POST''" and "\<not> isOk r"
proof -
  let ?t = "''https://b/api/biots/'' @ demoID @ ''/start''" and ?b = "Some (jsonMap [(''expected_revision'', jint m)])"
  have t: "requestTarget demoClient (''biots/'' @ pathEscape demoID @ ''/start'') = Inr ?t" by code_simp
  obtain r1 w1 where a: "apiRequest demoClient ''POST'' (''biots/'' @ pathEscape demoID @ ''/start'') ?b w = (r1, w1)"
    by fastforce
  have s: "calls w1 = calls w @ [callFor demoClient ''POST'' ?t ?b]"
    using apiRequest_sent [OF a t demo_header] assms(1) by (simp add: waitsAt_def)
  have "\<not> isOk r1"
  proof
    assume "isOk r1"
    then obtain ans where "r1 = Inr ans" by (cases r1) auto
    from apiRequest_ok [OF a [unfolded this]] obtain slow st broken where
      "server w (calls w1) = Response slow st ans broken" by metis
    with s assms(1) show False by (simp add: waitsAt_def slowServer_def callFor_def)
  qed
  then obtain e where "r1 = Inl e" by (cases r1) auto
  with a have "StartBiot demoClient demoID m w = (Inl e, w1)"
    unfolding StartBiot_def lifecycle_def requestResult_def by (rule_tac attempt_Inl) simp
  with assms(2) s show "\<exists>cl. calls w' = calls w @ [cl] \<and> verb cl = ''POST''" "\<not> isOk r"
    by (auto simp: callFor_def)
qed

lemma slow_local:
  assumes "waitsAt n w"
  shows "\<exists>w'. printPhase l p w = (Inr p, w') \<and> waitsAt n w'" "\<exists>w'. readSensitiveValue True s w = (Inr [], w') \<and> waitsAt n w'"
proof -
  show "\<exists>w'. printPhase l p w = (Inr p, w') \<and> waitsAt n w'"
    using assms by (simp add: printPhase_def say_def printOut_def put_def attempt_def result_simps waitsAt_def)
  show "\<exists>w'. readSensitiveValue True s w = (Inr [], w') \<and> waitsAt n w'"
    using assms by (simp add: readSensitiveValue_def StdinSecret_def onStdin_def stdinSecretFrom_def attempt_def
        wrapErr_def readAllLimited_def result_simps waitsAt_def)
qed

lemma slow_allocation:
  assumes "waitsAt (Suc n) w"
  shows "\<exists>w'. waitAllocation demoClient demoID r w = (Inr presentBiot, w') \<and> waitsAt n w'"
proof -
  obtain w' where g: "GetBiot demoClient demoID w = (Inr presentBiot, w')" and n: "waitsAt n w'"
    using slow_get [OF assms] by blast
  have b: "waitingForFailure presentBiot r = Inr ()" "currentFailure presentBiot r = Inr ()"
    by (simp_all add: presentBiot_def waitingForFailure_def currentFailure_def zeroBiot_def zeroActual_def)
  let ?check = "biotCheck demoClient demoID r
    (\<lambda>b. actualData (biotActual b) = ''uninitialized'' \<or> actualData (biotActual b) = ''present'')"
  have "?check w = (Inr (Some presentBiot), w')"
    using g by (simp add: biotCheck_def attempt_def lift_def b result_simps) (simp add: presentBiot_def)
  then have "polled r ?check w (Inr presentBiot) w'" by (rule poll_done)
  with n show ?thesis by (simp add: waitAllocation_def poll_refines [symmetric] checks_same_ticks)
qed

lemma slow_values:
  assumes w2: "waitsAt 99 w2" and o: "fetchCredentials opts = []" "secretNames opts = [''s'']" "createStdin opts" "createName opts = ''n''"
  shows "\<exists>e before w9 cl. createWithValues demoClient opts demoID ''creating'' zeroLifecycleResult w2 = (Inl (startFailure opts demoID e), w9) \<and>
     calls w9 = before @ [cl] \<and> verb cl = ''POST''"
proof -
  obtain w3 where w3: "printPhase ''creating'' ''preparing'' w2 = (Inr ''preparing'', w3)" "waitsAt (Suc 98) w3"
    using slow_local(1) [OF w2] by auto
  obtain w4 where w4: "waitAllocation demoClient demoID ''n'' w3 = (Inr presentBiot, w4)" "waitsAt (Suc 97) w4"
    using slow_allocation [OF w3(2)] by auto
  obtain w5 where w5: "GetBiot demoClient demoID w4 = (Inr presentBiot, w5)" "waitsAt 97 w5"
    using slow_get [OF w4(2)] by blast
  obtain w6 where w6: "printPhase ''preparing'' ''delivering runtime secrets'' w5 = (Inr ''delivering runtime secrets'', w6)"
    "waitsAt 97 w6" using slow_local(1) [OF w5(2)] by blast
  obtain w7 where w7: "readSensitiveValue True ''Runtime secret s: '' w6 = (Inr [], w7)" "waitsAt (Suc 96) w7"
    using slow_local(2) [OF w6(2)] by auto
  obtain w8 where w8: "DeliverSecret demoClient demoID ''s'' [] w7 = (Inr (), w8)" "waitsAt (Suc 95) w8"
    using slow_deliver [OF w7(2)] by auto
  obtain r9 w9 where w9: "StartBiot demoClient demoID (revision (biotDesired presentBiot)) w8 = (r9, w9)" by fastforce
  from slow_start [OF w8(2) w9] obtain cl e where e: "calls w9 = calls w8 @ [cl]" "verb cl = ''POST''" "r9 = Inl e"
    by (cases r9) auto
  have s: "createStart demoClient opts demoID ''delivering runtime secrets'' presentBiot w8 = (Inl (startFailure opts demoID e), w9)"
    using w9 e(3) by (simp add: createStart_def attempt_def wrapErr_def)
  have d: "eachDo (deliverSecret demoClient opts demoID) [''s''] w6 = (Inr (), w8)"
    using w7(1) w8(1) by (simp add: deliverSecret_def Let_def attempt_def wrapErr_def o succeed_def)
  have q: "createPrepared demoClient opts demoID ''preparing'' zeroLifecycleResult w4 = (Inr ''preparing'', w4)"
    by (simp add: createPrepared_def o succeed_def zeroLifecycleResult_def)
  have "createWithValues demoClient opts demoID ''creating'' zeroLifecycleResult w2 = (Inl (startFailure opts demoID e), w9)"
    unfolding createWithValues_def o
    using w3(1) w4(1) q w5(1) w6(1) d s by (simp add: attempt_def wrapErr_def succeed_def)
  with e(1,2) show ?thesis by blast
qed

section \<open>Properties\<close>

text \<open>C6: No Biot starts before its values are there. In a run of \<open>biot create\<close>, whatever the server
  answers and wherever it stops, a request to start comes only after the server has accepted the
  creation with the body built from the options (which asks for a stopped Biot when there are values),
  every source-fetch credential and every runtime secret of the command line.\<close>

theorem create_starts_last:
  assumes "runCreate args w = (r, w')" and "parseCreateOptions args = Inr opts"
    and "newId (random w) = Some i" and "savedClient w = Inr c" and "calls w = []"
    and "calls w' = before @ cl # after" and "verb cl = ''POST''"
  shows "delivered (server w) before (createCall c i opts) \<and>
    (\<forall>s \<in> set (fetchCredentials opts). delivered (server w) before (fetchCall c i s)) \<and>
    (\<forall>n \<in> set (secretNames opts). delivered (server w) before (secretCall c i n))"
proof -
  obtain w1 where w1: "printPhase [] ''creating'' w = (Inr ''creating'', w1)" "calls w1 = []" "server w1 = server w"
    "random w1 = random w"
    using assms(5) by (auto simp: printPhase_def say_def printOut_def put_def attempt_def result_simps)
  have "loadClient w1 = (Inr c, w1)"
    using same_login_saved [OF keepsD [OF same_login_actions(2) w1(1)]] assms(4) by (simp add: loadClient_run)
  moreover have "freshBiotID w1 = (Inr i, w1)" using w1(4) assms(3) by (simp add: freshBiotID_def)
  ultimately have "attempt (CreateBiot c i (createBody opts)) (\<lambda>created.
       if valuesRequired opts then createWithValues c opts i ''creating'' created
       else createPlain c opts i ''creating'' created) w1 = (r, w')"
    using assms(1,2) w1(1) by (simp add: runCreate_def attempt_def lift_def)
  moreover have "unstarted (server w) {} w1" using w1 by (simp add: unstarted_def)
  ultimately have "ordered (server w) (createGoods c i opts) w'"
    using leadsD [OF create_ordered] by (cases r) blast+
  with assms(6,7) show ?thesis
    unfolding ordered_def starts_def createGoods_def by blast
qed

theorem create_starts_last_witness:
  "\<exists>r w' before cl. runCreate [''--repo'', ''r'', ''--name'', ''n'', ''--secret'', ''s'', ''--stdin''] (demoWorld slowServer) = (r, w')
     \<and> calls w' = before @ [cl] \<and> verb cl = ''POST'' \<and>
     delivered slowServer before (secretCall demoClient demoID ''s'')"
proof -
  let ?args = "[''--repo'', ''r'', ''--name'', ''n'', ''--secret'', ''s'', ''--stdin'']"
  let ?o = "noOptions\<lparr>repository := ''r'', createName := ''n'', secretNames := [''s''], createStdin := True\<rparr>"
  let ?w = "demoWorld slowServer"
  have p: "parseCreateOptions ?args = Inr ?o" by code_simp
  have i: "newId (random ?w) = Some demoID"
    by (simp add: demoWorld_def saved_def quietWorld_def) code_simp
  have w0: "waitsAt 100 ?w" by (simp add: waitsAt_def demo_calls) (simp add: demoWorld_def saved_def quietWorld_def)
  obtain w1 where w1: "printPhase [] ''creating'' ?w = (Inr ''creating'', w1)" "waitsAt (Suc 99) w1"
    using slow_local(1) [OF w0] by auto
  have rnd: "random w1 = random ?w"
    using w1(1) by (auto simp: printPhase_def say_def printOut_def put_def attempt_def succeed_def split: if_splits)
  have c: "loadClient w1 = (Inr demoClient, w1)"
    using same_login_saved [OF keepsD [OF same_login_actions(2) w1(1)]] by (simp add: loadClient_run demo_client)
  have f: "freshBiotID w1 = (Inr demoID, w1)" using rnd i by (simp add: freshBiotID_def)
  obtain w2 where w2: "CreateBiot demoClient demoID (createBody ?o) w1 = (Inr zeroLifecycleResult, w2)" "waitsAt 99 w2"
    using slow_create [OF w1(2)] by blast
  define opts where "opts = ?o"
  have o: "fetchCredentials opts = []" "secretNames opts = [''s'']" "createStdin opts" "createName opts = ''n''"
    by (simp_all add: opts_def noOptions_def)
  obtain e before w9 cl where v: "createWithValues demoClient opts demoID ''creating'' zeroLifecycleResult w2 = (Inl (startFailure opts demoID e), w9)"
    and e: "calls w9 = before @ [cl]" "verb cl = ''POST''"
    using slow_values [OF w2(2) o] by blast
  have "runCreate ?args ?w = (Inl (startFailure opts demoID e), w9)"
    unfolding runCreate_def p opts_def [symmetric]
    using w1(1) f c v w2(1) [folded opts_def] by (simp add: attempt_def lift_def valuesRequired_def o)
  with create_starts_last [OF this p i demo_client _ e(1,2)] e show ?thesis
    by (auto simp: demo_calls)
qed

end
