(* ===== verification/Cli_Output.thy ===== *)
theory Cli_Output
  imports Cli_Operations
begin

text \<open>
  What \<open>biot logs\<close> and \<open>biot diagnose\<close> show of an answer: a bounded front of it that never ends inside
  a character, and a notice exactly when something is missing.
\<close>

section \<open>Truncation\<close>

lemma validEnd_le: "validEnd s n \<le> n"
  by (induction s n rule: validEnd.induct) auto

lemma validEnd_valid: "utf8Valid (take (validEnd s n) s)"
  by (induction s n rule: validEnd.induct) auto

lemma validEnd_greatest: "k \<le> n \<Longrightarrow> utf8Valid (take k s) \<Longrightarrow> k \<le> validEnd s n"
  by (induction s n rule: validEnd.induct) (auto simp: le_Suc_eq)

lemma truncateUTF8_front: "\<exists>rest. s = truncateUTF8 s n @ rest \<and> (rest = [] \<longleftrightarrow> length s \<le> n)"
proof (cases "length s \<le> n")
  case False
  then have "drop (validEnd s n) s \<noteq> []" using validEnd_le [of s n] by simp
  with False show ?thesis
    by (intro exI [of _ "drop (validEnd s n) s"]) (simp add: truncateUTF8_def)
qed (simp add: truncateUTF8_def)

lemma truncateUTF8_length: "length (truncateUTF8 s n) \<le> n"
  using validEnd_le [of s n] by (auto simp: truncateUTF8_def)

lemma truncateUTF8_valid:
  assumes "utf8Valid s"
  shows "utf8Valid (truncateUTF8 s n)" and "n < length s \<Longrightarrow> n \<le> length (truncateUTF8 s n) + 3"
proof -
  show "utf8Valid (truncateUTF8 s n)" using assms by (simp add: truncateUTF8_def validEnd_valid)
  assume l: "n < length s"
  then obtain k where "k \<le> n" "n \<le> k + 3" "utf8Valid (take k s)"
    using utf8Valid_boundary [OF assms, of n] by auto
  with validEnd_greatest [OF this(1,3)] validEnd_le [of s n] l
  show "n \<le> length (truncateUTF8 s n) + 3" by (simp add: truncateUTF8_def)
qed

section \<open>Printing\<close>

definition truncationNotice :: "string \<Rightarrow> string" where
  "truncationNotice label = ''['' @ label @ '' truncated; showing at most '' @ showNat maxDisplayedOutputBytes @ '' bytes.]'' @
     [CHR 0x0A]"

text \<open>A text as it is printed: with a line end of its own, if it is not empty.\<close>

definition ended :: "string \<Rightarrow> string" where
  "ended s = (if s = [] \<or> hasSuffix s [CHR 0x0A] then s else s @ [CHR 0x0A])"

definition printed :: "piece list \<Rightarrow> string" where
  "printed ps = concat (map (\<lambda>p. case p of T s \<Rightarrow> s | _ \<Rightarrow> []) ps)"

text \<open>What is written for an answer.\<close>

definition boundedText :: "string \<Rightarrow> bool \<Rightarrow> string \<Rightarrow> string" where
  "boundedText content truncated label =
     (if content = [] \<and> \<not> truncated then ''No '' @ label @ ''.'' @ [CHR 0x0A]
      else ended (truncateUTF8 content maxDisplayedOutputBytes) @
        (if truncated \<or> maxDisplayedOutputBytes < length content then truncationNotice label else []))"

lemma printOut_run: "\<not> stdoutFails w \<Longrightarrow> printOut ps w = (Inr (), w\<lparr>stdout := stdout w @ ps\<rparr>)"
  by (simp add: printOut_def put_def)

lemma printBoundedOutput_run:
  assumes "\<not> stdoutFails w"
  shows "\<exists>ps. printBoundedOutput content truncated label w = (Inr (), w\<lparr>stdout := stdout w @ ps\<rparr>) \<and>
    printed ps = boundedText content truncated label"
proof -
  let ?s = "truncateUTF8 content maxDisplayedOutputBytes"
  have s: "(if length content > maxDisplayedOutputBytes then ?s else content) = ?s"
    by (simp add: truncateUTF8_def)
  have e: "(?s = [] \<and> \<not> (truncated \<or> maxDisplayedOutputBytes < length content)) = (content = [] \<and> \<not> truncated)"
    by (auto simp: truncateUTF8_def)
  have n: "?s \<noteq> []" if "content \<noteq> []" "length content \<le> maxDisplayedOutputBytes"
    using that by (simp add: truncateUTF8_def)
  show ?thesis
    using assms n
    unfolding printBoundedOutput_def Let_def s e
    by (auto simp: boundedText_def truncationNotice_def ended_def printed_def attempt_def succeed_def say_def
        printOut_run)
qed

section \<open>Properties\<close>

text \<open>C32: What \<open>biot logs\<close> and \<open>biot diagnose\<close> print of an answer is bounded and never misleading: it is a
  front of the content of at most 65536 bytes, all of it when it is not longer, that ends at a character
  boundary and loses at most three bytes to that; a line end follows when the front has none, and a
  notice follows exactly when the server or the client left something out.\<close>

theorem bounded_output:
  assumes "printBoundedOutput content truncated label w = (r, w')" and "utf8Valid content" and "\<not> stdoutFails w"
  shows "\<exists>shown rest ps. content = shown @ rest \<and> length shown \<le> 65536 \<and> utf8Valid shown \<and>
    (rest \<noteq> [] \<longrightarrow> 65536 \<le> length shown + 3) \<and> (rest = [] \<longleftrightarrow> length content \<le> 65536) \<and>
    r = Inr () \<and> w' = w\<lparr>stdout := stdout w @ ps\<rparr> \<and>
    printed ps = (if content = [] \<and> \<not> truncated then ''No '' @ label @ ''.'' @ [CHR 0x0A]
      else ended shown @ (if truncated \<or> rest \<noteq> [] then truncationNotice label else []))"
proof -
  have m: "maxDisplayedOutputBytes = 65536" by (simp add: maxDisplayedOutputBytes_def)
  let ?s = "truncateUTF8 content 65536"
  obtain rest where rest: "content = ?s @ rest" "rest = [] \<longleftrightarrow> length content \<le> 65536"
    using truncateUTF8_front by blast
  obtain ps where "r = Inr ()" "w' = w\<lparr>stdout := stdout w @ ps\<rparr>" "printed ps = boundedText content truncated label"
    using printBoundedOutput_run [OF assms(3), of content truncated label] assms(1) by auto
  moreover have "length ?s \<le> 65536" by (rule truncateUTF8_length)
  moreover have "rest \<noteq> [] \<longrightarrow> 65536 \<le> length ?s + 3" "utf8Valid ?s"
    using truncateUTF8_valid [OF assms(2), of 65536] rest(2) by auto
  ultimately show ?thesis
    using rest by (intro exI [of _ ?s] exI [of _ rest] exI [of _ ps]) (auto simp: boundedText_def m)
qed

theorem bounded_output_witness:
  "\<exists>shown rest ps. replicate 65535 CHR ''a'' @ [CHR 0xC3, CHR 0xA9] = shown @ rest \<and> length shown \<le> 65536 \<and>
     rest \<noteq> [] \<and> printed ps = ended shown @ truncationNotice ''runtime logs'' \<and>
     printBoundedOutput (replicate 65535 CHR ''a'' @ [CHR 0xC3, CHR 0xA9]) False ''runtime logs'' (quietWorld noServer) =
       (Inr (), (quietWorld noServer)\<lparr>stdout := stdout (quietWorld noServer) @ ps\<rparr>)"
proof -
  let ?c = "replicate 65535 CHR ''a'' @ [CHR 0xC3, CHR 0xA9]"
  have a: "utf8Valid (replicate n CHR ''a'')" for n by (induction n) (simp_all add: code_def)
  have v: "utf8Valid ?c"
    by (simp only: utf8Valid_append [OF a]) code_simp
  have q: "\<not> stdoutFails (quietWorld noServer)" by (simp add: quietWorld_def)
  obtain r w' where run: "printBoundedOutput ?c False ''runtime logs'' (quietWorld noServer) = (r, w')" by fastforce
  from bounded_output [OF run v q] obtain shown rest ps where
    "?c = shown @ rest" "length shown \<le> 65536" "rest = [] \<longleftrightarrow> length ?c \<le> 65536" "r = Inr ()"
    "w' = (quietWorld noServer)\<lparr>stdout := stdout (quietWorld noServer) @ ps\<rparr>"
    "printed ps = (if ?c = [] \<and> \<not> False then ''No '' @ ''runtime logs'' @ ''.'' @ [CHR 0x0A]
      else ended shown @ (if False \<or> rest \<noteq> [] then truncationNotice ''runtime logs'' else []))" by blast
  moreover have "length ?c = 65537" by simp
  ultimately show ?thesis
    using run by (intro exI [of _ shown] exI [of _ rest] exI [of _ ps]) simp
qed

end
