(* ===== verification/Cli_Ssh.thy ===== *)
theory Cli_Ssh
  imports Cli_Waiting
begin

text \<open>
  What \<open>biot ssh\<close> hands to the SSH client: a run with strict checking against a private file that holds
  exactly the host keys the server gave, and that is gone afterwards.
\<close>

section \<open>The known hosts file\<close>

lemma setFile_simps [simp]:
  "setFile p f (setFile p g w) = setFile p f w" "files (setFile p f w) p = f" "fault (setFile p f w) = fault w"
  "files w p = g \<Longrightarrow> setFile p g w = w" "sshRuns (setFile p f w) = sshRuns w" "ssh (setFile p f w) = ssh w"
  by (auto simp: setFile_def)

definition usableKey :: "hostKey \<Rightarrow> bool" where
  "usableKey k \<longleftrightarrow> hostKeyType k \<noteq> [] \<and> hostFingerprint k \<noteq> [] \<and> hasPrefix (hostPublicKey k) (hostKeyType k @ '' '')"

text \<open>One line for each key, under the address the SSH client will look it up by.\<close>

definition knownHostsText :: "string \<Rightarrow> int \<Rightarrow> hostKey list \<Rightarrow> string" where
  "knownHostsText host port keys =
     concat (map (\<lambda>k. knownHostsAddress host port @ '' '' @ trimSpace (hostPublicKey k) @ [CHR 0x0A]) keys)"

lemma append_hosts:
  assumes "eachDo (\<lambda>k. attempt (lift (hostKeyLine (knownHostsAddress host port) k)) (appendKnownHost p)) keys w = (r, w')"
    and "files w p = Some f"
  shows "\<exists>g. w' = setFile p (Some g) w \<and> (r = Inr () \<longrightarrow>
    g = f\<lparr>contents := contents f @ knownHostsText host port keys\<rparr> \<and> list_all usableKey keys)"
  using assms
proof (induction keys arbitrary: w f)
  case Nil
  then show ?case by (auto simp: succeed_def knownHostsText_def intro!: exI [of _ f])
next
  case (Cons k keys)
  let ?f = "f\<lparr>contents := contents f @ knownHostsText host port [k]\<rparr>"
  from Cons.prems(1) show ?case unfolding eachDo.simps
  proof (cases rule: attempt_cases)
    case fails
    then show ?thesis
      using Cons.prems(2)
      by (auto simp: attempt_def lift_def appendKnownHost_def split: sum.splits if_splits intro!: exI [of _ f])
  next
    case (goes a w1)
    then have w1: "w1 = setFile p (Some ?f) w" and k: "usableKey k"
      using Cons.prems(2)
      by (auto simp: attempt_def lift_def hostKeyLine_def appendKnownHost_def usableKey_def knownHostsText_def
          split: if_splits)
    from Cons.IH [OF goes(2), of ?f] w1 obtain g where "w' = setFile p (Some g) w1"
      "r = Inr () \<longrightarrow> g = ?f\<lparr>contents := contents ?f @ knownHostsText host port keys\<rparr> \<and> list_all usableKey keys"
      by auto
    with w1 k show ?thesis by (intro exI [of _ g]) (simp add: knownHostsText_def)
  qed
qed

lemma writeKnownHosts_run:
  assumes "writeKnownHosts host port keys w = (r, w')" and "files w (knownHostsPath w) = None" and "\<not> fault w FsRemoveTemp"
  obtains (failed) e where "r = Inl e" "w' = w"
  | (made) "r = Inr (knownHostsPath w)" "list_all usableKey keys"
      "w' = setFile (knownHostsPath w) (Some \<lparr>contents = knownHostsText host port keys, mode = 384\<rparr>) w"
proof -
  let ?p = "knownHostsPath w" and ?f = "\<lparr>contents = [], mode = 384\<rparr>"
  let ?each = "eachDo (\<lambda>k. attempt (lift (hostKeyLine (knownHostsAddress host port) k)) (appendKnownHost ?p)) keys"
  let ?rest = "attempt ?each (\<lambda>_. attempt closeKnownHosts (\<lambda>_. succeed ?p))"
  show thesis
  proof (cases "fault w FsKnownHosts")
    case True
    with assms(1) show thesis by (intro failed) (auto simp: writeKnownHosts_def attempt_def createKnownHosts_def)
  next
    case False
    let ?w = "setFile ?p (Some ?f) w"
    obtain q w2 where q: "?rest ?w = (q, w2)" by fastforce
    obtain x w1 where x: "?each ?w = (x, w1)" by fastforce
    then obtain g where g: "w1 = setFile ?p (Some g) w"
      "x = Inr () \<longrightarrow> g = ?f\<lparr>contents := knownHostsText host port keys\<rparr> \<and> list_all usableKey keys"
      using append_hosts [OF x, of ?f] by auto
    have w2: "w2 = w1" "\<And>p. q = Inr p \<Longrightarrow> p = ?p \<and> x = Inr ()"
      using q x by (auto simp: attempt_def closeKnownHosts_def succeed_def split: sum.splits if_splits)
    have r: "unlessDone (removeKnownHosts ?p) ?rest ?w = (r, w')"
      using assms(1) False by (simp add: writeKnownHosts_def attempt_def createKnownHosts_def)
    show thesis
    proof (cases q)
      case (Inl e)
      with r q g w2(1) assms(2,3) show thesis by (intro failed) (auto simp: unlessDone_def removeKnownHosts_def)
    next
      case (Inr p)
      with r q g w2 show thesis by (intro made) (auto simp: unlessDone_def)
    qed
  qed
qed

section \<open>The run\<close>

lemma sshOutcome_files: "sshOutcome p w = (r, w') \<Longrightarrow> files w' = files w \<and> sshRuns w' = sshRuns w \<and> fault w' = fault w"
  by (auto simp: sshOutcome_def attempt_def succeed_def failWith_def complain_def putErr_def
      split: prod.splits sshResult.splits if_splits)

lemma ssh_run:
  assumes "attempt (execSSH as) sshOutcome w = (r, w')"
  shows "files w' = files w" and "fault w' = fault w" and "sshRuns w' = sshRuns w \<or> sshRuns w' = sshRuns w @ [(as, files w)]"
proof -
  obtain res err where "ssh w as = (res, err)" by fastforce
  then have "\<exists>x. execSSH as w = (Inr x, snd (execSSH as w))" and w1: "files (snd (execSSH as w)) = files w"
    "fault (snd (execSSH as w)) = fault w"
    "sshRuns (snd (execSSH as w)) = sshRuns w \<or> sshRuns (snd (execSSH as w)) = sshRuns w @ [(as, files w)]"
    by (cases res; auto simp: execSSH_def complain_def putErr_def Let_def)+
  then obtain x w1 where x: "execSSH as w = (Inr x, w1)" and "files w1 = files w" "fault w1 = fault w"
    "sshRuns w1 = sshRuns w \<or> sshRuns w1 = sshRuns w @ [(as, files w)]" by (metis snd_conv)
  moreover from x assms have "sshOutcome x w1 = (r, w')" by (simp add: attempt_def)
  ultimately show "files w' = files w" "fault w' = fault w"
    "sshRuns w' = sshRuns w \<or> sshRuns w' = sshRuns w @ [(as, files w)]"
    using sshOutcome_files by fastforce+
qed

lemma keeps_talks_deployment: "keeps (talks c) (GetDeployment c)"
  by (simp add: GetDeployment_def keeps_talks_result)

lemma runSSH_cases:
  assumes "runSSH args w = (r, w')"
  obtains (early) c where "talks c w w'"
  | (connects) reference identity remote c b d w1 w2 where "parseSSH args = Inr (reference, identity, remote)"
      "savedClient w = Inr c" "resolveBiot c reference w = (Inr b, w1)" "GetDeployment c w1 = (Inr d, w2)"
      "talks c w w2" "usableSSH d = Inr ()"
      "attempt (writeKnownHosts (sshHost (deploymentSSH d)) (sshPort (deploymentSSH d)) (hostKeys (deploymentSSH d)))
        (\<lambda>knownHosts. deferred (removeKnownHosts knownHosts)
          (attempt (execSSH (sshArguments knownHosts identity (sshPort (deploymentSSH d)) (biotID b)
             (sshHost (deploymentSSH d)) remote)) sshOutcome)) w2 = (r, w')"
proof (cases "parseSSH args")
  case (Inl e)
  with assms show thesis by (intro early [of undefined]) (auto simp: runSSH_def attempt_def lift_def)
next
  case (Inr p)
  then obtain reference identity remote where p: "parseSSH args = Inr (reference, identity, remote)" by (cases p) auto
  let ?body = "\<lambda>c b. attempt (GetDeployment c) (\<lambda>d. attempt (lift (usableSSH d)) (\<lambda>_.
     let s = deploymentSSH d in attempt (writeKnownHosts (sshHost s) (sshPort s) (hostKeys s)) (\<lambda>knownHosts.
       deferred (removeKnownHosts knownHosts)
         (attempt (execSSH (sshArguments knownHosts identity (sshPort s) (biotID b) (sshHost s) remote)) sshOutcome))))"
  have "onBiot (Inr ()) reference ?body w = (r, w')"
    using assms p by (simp add: runSSH_def attempt_def lift_def)
  then show thesis
  proof (cases rule: onBiot_cases)
    case (resolved c b w1)
    from resolved(5) show thesis
    proof (cases rule: attempt_cases)
      case fails
      from talks_trans [OF resolved(4) keepsD [OF keeps_talks_deployment fails(1)]] show thesis by (rule early)
    next
      case (goes d w2)
      note t = talks_trans [OF resolved(4) keepsD [OF keeps_talks_deployment goes(1)]]
      show thesis
      proof (cases "usableSSH d")
        case Inl
        with goes t show thesis by (intro early) (auto simp: attempt_def lift_def)
      next
        case (Inr u)
        with goes t p resolved show thesis by (intro connects) (auto simp: attempt_def lift_def Let_def)
      qed
    qed
  qed (auto intro: early)
qed

section \<open>A run\<close>

definition demoKey :: hostKey where
  "demoKey = \<lparr>hostKeyType = ''k'', hostPublicKey = ''k AAAA'', hostFingerprint = ''f''\<rparr>"

definition deploymentJson :: json where
  "deploymentJson = JObj [(''ssh'', JObj [(''host'', JStr ''h''), (''port'', jint 22), (''host_keys'',
     JArr [JObj [(''type'', JStr ''k''), (''public_key'', JStr ''k AAAA''), (''fingerprint'', JStr ''f'')]])])]"

definition demoDeployment :: deployment where
  "demoDeployment = zeroDeployment\<lparr>deploymentSSH := \<lparr>sshHost = ''h'', sshPort = 22, hostKeys = [demoKey]\<rparr>\<rparr>"

definition sshServer :: "call list \<Rightarrow> exchange" where
  "sshServer cs = (if target (last cs) = ''https://b/api/deployment'' then answer deploymentJson else answer runningJson)"

lemma deployment_decodes: "decDeployment deploymentJson zeroDeployment = (demoDeployment, True)"
  unfolding deploymentJson_def demoDeployment_def demoKey_def decDeployment_def decHostKey_def
  by (simp add: fieldFor_def field_def zeroDeployment_def zeroHostKey_def) code_simp

lemma deployment_json: "jsonOk deploymentJson" "jdepth deploymentJson \<le> maxNestingDepth" "length (jprint deploymentJson) < 1000"
proof -
  show "jsonOk deploymentJson" "jdepth deploymentJson \<le> maxNestingDepth"
    by (auto simp: deploymentJson_def maxNestingDepth_def code_def jint_def intLit_itoa intro!: utf8Valid_text)
  have "length (jprint deploymentJson) \<le> 200" by code_simp
  then show "length (jprint deploymentJson) < 1000" by simp
qed

lemma ssh_demo_get:
  assumes "server w = sshServer" "budget w = Suc n"
  shows "GetBiot demoClient demoID w = (Inr runningBiot,
    w\<lparr>calls := calls w @ [callFor demoClient ''GET'' (''https://b/api/biots/'' @ demoID) None], budget := n\<rparr>)"
  using running_json running_decodes demo_target demo_header assms
  unfolding GetBiot_def decodeBiot_def
  by (intro requestResult_json [where j = runningJson and t = "''https://b/api/biots/'' @ demoID"])
    (simp_all add: sshServer_def callFor_def)

lemma ssh_demo_deployment:
  assumes "server w = sshServer" "budget w = Suc n"
  shows "GetDeployment demoClient w = (Inr demoDeployment,
    w\<lparr>calls := calls w @ [callFor demoClient ''GET'' ''https://b/api/deployment'' None], budget := n\<rparr>)"
proof -
  have "requestTarget demoClient ''deployment'' = Inr ''https://b/api/deployment''" by code_simp
  then show ?thesis
    using deployment_json deployment_decodes demo_header assms
    unfolding GetDeployment_def
    by (intro requestResult_json [where j = deploymentJson and t = "''https://b/api/deployment''"])
      (simp_all add: sshServer_def callFor_def)
qed

section \<open>Properties\<close>

text \<open>C10: \<open>biot ssh\<close> never connects to a host it cannot verify. The SSH client is run at most once, after the
  Biot was resolved and the server then asked for its deployment, and with strict checking against one private
  file only, which at that moment holds exactly the host keys of that answer, at least one and each of a
  stated type; the port is in range, and the rest of the command line is that of the caller. Afterwards the
  file system is what it was.\<close>

theorem ssh_strict_host_keys:
  assumes "runSSH args w = (r, w')" and "files w (knownHostsPath w) = None" and "\<not> fault w FsRemoveTemp"
  shows "files w' = files w \<and> (sshRuns w' = sshRuns w \<or>
    (\<exists>reference identity remote c b w1 d w2 fs. parseSSH args = Inr (reference, identity, remote) \<and>
       savedClient w = Inr c \<and> resolveBiot c reference w = (Inr b, w1) \<and> GetDeployment c w1 = (Inr d, w2) \<and>
       sshRuns w' = sshRuns w @ [([''-o'', ''StrictHostKeyChecking=yes'', ''-o'', ''UserKnownHostsFile='' @ knownHostsPath w,
         ''-o'', ''GlobalKnownHostsFile=/dev/null''] @ (if identity \<noteq> [] then [''-i'', identity] else []) @
         [''-p'', itoa (sshPort (deploymentSSH d)), biotID b @ ''@'' @ sshHost (deploymentSSH d)] @ remote, fs)] \<and>
       fs (knownHostsPath w) = Some \<lparr>contents = knownHostsText (sshHost (deploymentSSH d)) (sshPort (deploymentSSH d))
         (hostKeys (deploymentSSH d)), mode = 384\<rparr> \<and>
       hostKeys (deploymentSSH d) \<noteq> [] \<and> list_all usableKey (hostKeys (deploymentSSH d)) \<and>
       1 \<le> sshPort (deploymentSSH d) \<and> sshPort (deploymentSSH d) \<le> 65535))"
  using assms(1)
proof (cases rule: runSSH_cases)
  case (early c)
  then show ?thesis by (auto simp: talks_def)
next
  case (connects reference identity remote c b d w1 w2)
  let ?s = "deploymentSSH d" and ?p = "knownHostsPath w"
  have w2: "knownHostsPath w2 = ?p" "files w2 = files w" "fault w2 = fault w" "sshRuns w2 = sshRuns w"
    using connects(5) by (auto simp: talks_def knownHostsPath_def)
  have u: "hostKeys ?s \<noteq> []" "1 \<le> sshPort ?s" "sshPort ?s \<le> 65535"
    using connects(6) by (auto simp: usableSSH_def split: if_splits)
  obtain r1 w3 where k: "writeKnownHosts (sshHost ?s) (sshPort ?s) (hostKeys ?s) w2 = (r1, w3)" by fastforce
  have "files w2 (knownHostsPath w2) = None" "\<not> fault w2 FsRemoveTemp" using assms(2,3) w2 by simp_all
  with k show ?thesis
  proof (cases rule: writeKnownHosts_run)
    case made
    let ?as = "sshArguments ?p identity (sshPort ?s) (biotID b) (sshHost ?s) remote"
    obtain x w4 where x: "attempt (execSSH ?as) sshOutcome w3 = (x, w4)" by fastforce
    have w': "w' = setFile ?p None w4"
      using connects(7) k made x w2 assms(3) ssh_run(2) [OF x] by (simp add: attempt_def deferred_def removeKnownHosts_def)
    then have "files w' = files w" using ssh_run(1) [OF x] made(3) w2 assms(2) by (auto simp: setFile_def)
    moreover have "sshRuns w' = sshRuns w \<or> sshRuns w' = sshRuns w @ [(?as, files w3)]"
      using ssh_run(3) [OF x] w' made(3) w2 by simp
    moreover have "files w3 ?p = Some \<lparr>contents = knownHostsText (sshHost ?s) (sshPort ?s) (hostKeys ?s), mode = 384\<rparr>"
      using made(3) w2 by simp
    moreover have "?as = [''-o'', ''StrictHostKeyChecking=yes'', ''-o'', ''UserKnownHostsFile='' @ ?p,
        ''-o'', ''GlobalKnownHostsFile=/dev/null''] @ (if identity \<noteq> [] then [''-i'', identity] else []) @
        [''-p'', itoa (sshPort ?s), biotID b @ ''@'' @ sshHost ?s] @ remote"
      by (simp add: sshArguments_def)
    ultimately show ?thesis using u made(2) connects(1-4) by metis
  qed (use connects(7) k w2 assms in \<open>auto simp: attempt_def\<close>)
qed

theorem ssh_strict_host_keys_witness:
  "\<exists>r w' rest fs. runSSH [demoID] (demoWorld sshServer) = (r, w') \<and> files w' = files (demoWorld sshServer) \<and>
     sshRuns w' = [([''-o'', ''StrictHostKeyChecking=yes'', ''-o'', ''UserKnownHostsFile=/tmp/biot-known-hosts-1'',
       ''-o'', ''GlobalKnownHostsFile=/dev/null''] @ rest, fs)] \<and>
     (\<exists>f. fs ''/tmp/biot-known-hosts-1'' = Some f \<and> mode f = 384)"
proof -
  let ?w = "demoWorld sshServer" and ?p = "''/tmp/biot-known-hosts-1''"
  have p: "parseSSH [demoID] = Inr (demoID, [], [])" "canonicalUUID demoID" by code_simp+
  have w: "server ?w = sshServer" "budget ?w = Suc 99" "knownHostsPath ?w = ?p" "files ?w ?p = None"
    "\<not> fault ?w FsRemoveTemp" "sshRuns ?w = []" "fault ?w = (\<lambda>_. False)" "ssh ?w = (\<lambda>_. (SshOk, []))"
    by (simp_all add: demo_calls knownHostsPath_def)
      (simp_all add: demoWorld_def saved_def quietWorld_def configFile_def tempFile_def)
  obtain w1 where w1: "GetBiot demoClient demoID ?w = (Inr runningBiot, w1)" "server w1 = sshServer" "budget w1 = Suc 98"
    "talks demoClient ?w w1"
    using ssh_demo_get [OF w(1,2)] keepsD [OF keeps_talks_get] w(1) by auto
  obtain w2 where w2: "GetDeployment demoClient w1 = (Inr demoDeployment, w2)" "talks demoClient w1 w2"
    using ssh_demo_deployment [OF w1(2,3)] keepsD [OF keeps_talks_deployment] by auto
  have t: "knownHostsPath w2 = ?p" "sshRuns w2 = []" "fault w2 = (\<lambda>_. False)" "ssh w2 = (\<lambda>_. (SshOk, []))"
    using talks_trans [OF w1(4) w2(2)] w by (auto simp: talks_def knownHostsPath_def)
  obtain r w' where run: "runSSH [demoID] ?w = (r, w')" by fastforce
  have l: "loadClient ?w = (Inr demoClient, ?w)" by (simp add: loadClient_run demo_client)
  have "sshRuns w' \<noteq> []"
  proof -
    have "hostKeyLine a demoKey = Inr (a @ '' '' @ trimSpace ''k AAAA'' @ [CHR 0x0A])" for a
      by (simp add: hostKeyLine_def demoKey_def)
    then obtain w3 where k: "writeKnownHosts ''h'' 22 [demoKey] w2 = (Inr ?p, w3)" "sshRuns w3 = []"
      "ssh w3 = (\<lambda>_. (SshOk, []))"
      using t by (auto simp: writeKnownHosts_def attempt_def createKnownHosts_def unlessDone_def lift_def
          appendKnownHost_def closeKnownHosts_def succeed_def)
    have u: "usableSSH demoDeployment = Inr ()" by (simp add: usableSSH_def demoDeployment_def)
    show ?thesis
      using run l w1(1) w2(1) k u
      by (auto simp: runSSH_def onBiot_def resolveBiot_def p attempt_def lift_def demoDeployment_def deferred_def
          execSSH_def Let_def sshOutcome_def succeed_def removeKnownHosts_def complain_def putErr_def setFile_def split: if_splits)
  qed
  with ssh_strict_host_keys [OF run] w show ?thesis
    using run by auto
qed

end
