(* ===== verification/Cli_Options.thy ===== *)
theory Cli_Options
  imports Cli_Access Cli_Lifecycle
begin

text \<open>
  The command lines of \<open>biot share\<close>, \<open>biot unshare\<close> and \<open>biot create\<close>: which of them are accepted, what
  they mean, and that every accepted set of options has a command line that says it.
\<close>

section \<open>Sharing\<close>

text \<open>One turn of the loop.\<close>

lemma shareLoop_step:
  assumes "shareLoop action s as = Inr opts"
  obtains (ready) "as = []" "opts = s"
  | (email) v rest where "as = ''--to'' # v # rest" "v \<noteq> []" "shareEmail s = []"
      "shareLoop action (s\<lparr>shareEmail := v\<rparr>) rest = Inr opts"
  | (port) v n rest where "as = ''--port'' # v # rest" "sharePort s = 0" "atoi v = Some n" "1 \<le> n" "n \<le> 65535"
      "shareLoop action (s\<lparr>sharePort := n\<rparr>) rest = Inr opts"
  | (shell) rest where "as = ''--shell'' # rest" "\<not> shareShell s"
      "shareLoop action (s\<lparr>shareShell := True\<rparr>) rest = Inr opts"
proof (cases as)
  case Nil
  with assms ready show thesis by simp
next
  case (Cons a rest)
  consider "a = ''--to''" | "a = ''--port''" | "a = ''--shell''"
    using assms Cons by (auto split: if_splits)
  then show thesis
  proof cases
    case 1
    with assms Cons email show thesis by (auto split: list.splits if_splits)
  next
    case 2
    with assms Cons port show thesis by (auto simp: parsePortArg_ok split: list.splits if_splits sum.splits)
  next
    case 3
    with assms Cons shell show thesis by (auto split: if_splits)
  qed
qed

lemma shareLoop_keeps:
  assumes "shareLoop action s as = Inr opts"
  shows "shareBiot opts = shareBiot s" and "shareShell s \<Longrightarrow> shareShell opts"
    and "sharePort s \<noteq> 0 \<Longrightarrow> sharePort opts \<noteq> 0" and "shareEmail s \<noteq> [] \<Longrightarrow> shareEmail opts \<noteq> []"
proof -
  have "shareBiot opts = shareBiot s \<and> (shareShell s \<longrightarrow> shareShell opts) \<and>
      (sharePort s \<noteq> 0 \<longrightarrow> sharePort opts \<noteq> 0) \<and> (shareEmail s \<noteq> [] \<longrightarrow> shareEmail opts \<noteq> [])"
    using assms
  proof (induction "length as" arbitrary: as s rule: less_induct)
    case less
    from less.prems show ?case
      by (cases rule: shareLoop_step) (auto dest!: less.hyps [rotated])
  qed
  then show "shareBiot opts = shareBiot s" "shareShell s \<Longrightarrow> shareShell opts"
    "sharePort s \<noteq> 0 \<Longrightarrow> sharePort opts \<noteq> 0" "shareEmail s \<noteq> [] \<Longrightarrow> shareEmail opts \<noteq> []" by auto
qed

text \<open>Once there is an address and a choice nothing can follow.\<close>

lemma shareLoop_full:
  assumes "shareLoop action s as = Inr opts" and "shareChecks action opts = Inr opts"
    and "shareEmail s \<noteq> []" and "shareShell s \<noteq> (sharePort s \<noteq> 0)"
  shows "as = []" and "opts = s"
  using assms(1)
proof (atomize (full), cases rule: shareLoop_step)
  case (port v n rest)
  then show "as = [] \<and> opts = s"
    using shareLoop_keeps(2,3) [OF port(6)] assms(2,4) by (auto simp: shareChecks_def split: if_splits)
next
  case (shell rest)
  then show "as = [] \<and> opts = s"
    using shareLoop_keeps(2,3) [OF shell(3)] assms(2,4) by (auto simp: shareChecks_def split: if_splits)
qed (use assms(3) in auto)

text \<open>What a choice is and what it means.\<close>

definition shareChoice :: "string list \<Rightarrow> string \<Rightarrow> string \<Rightarrow> shareOptions \<Rightarrow> bool" where
  "shareChoice choice b e opts \<longleftrightarrow>
     choice = [''--shell''] \<and> opts = \<lparr>shareBiot = b, shareEmail = e, sharePort = 0, shareShell = True\<rparr> \<or>
     (\<exists>v n. choice = [''--port'', v] \<and> atoi v = Some n \<and> 1 \<le> n \<and> n \<le> 65535 \<and>
        opts = \<lparr>shareBiot = b, shareEmail = e, sharePort = n, shareShell = False\<rparr>)"

lemma shareLoop_choice:
  assumes "shareLoop action s as = Inr opts" and "shareChecks action opts = Inr opts"
    and "shareEmail s \<noteq> []" and "\<not> shareShell s" and "sharePort s = 0"
  shows "shareChoice as (shareBiot s) (shareEmail s) opts"
  using assms(1)
proof (cases rule: shareLoop_step)
  case ready
  with assms(2-) show ?thesis by (auto simp: shareChecks_def split: if_splits)
next
  case (port v n rest)
  with shareLoop_full [OF port(6) assms(2)] assms show ?thesis by (auto simp: shareChoice_def)
next
  case (shell rest)
  with shareLoop_full [OF shell(3) assms(2)] assms show ?thesis by (auto simp: shareChoice_def)
qed (use assms(3) in auto)

lemma shareLoop_email:
  assumes "shareLoop action s as = Inr opts" and "shareChecks action opts = Inr opts"
    and "shareEmail s = []" and "shareShell s \<noteq> (sharePort s \<noteq> 0)"
  shows "\<exists>e. e \<noteq> [] \<and> as = [''--to'', e] \<and> opts = s\<lparr>shareEmail := e\<rparr>"
  using assms(1)
proof (cases rule: shareLoop_step)
  case ready
  with assms(2-) show ?thesis by (auto simp: shareChecks_def split: if_splits)
next
  case (email v rest)
  with shareLoop_full [OF email(4) assms(2)] assms show ?thesis by auto
next
  case (port v n rest)
  then show ?thesis
    using shareLoop_keeps(2,3) [OF port(6)] assms(2,4) by (auto simp: shareChecks_def split: if_splits)
next
  case (shell rest)
  then show ?thesis
    using shareLoop_keeps(2,3) [OF shell(3)] assms(2,4) by (auto simp: shareChecks_def split: if_splits)
qed

lemma shareChecks_same: "shareChecks action opts = Inr opts' \<Longrightarrow> opts' = opts"
  by (auto simp: shareChecks_def split: if_splits)

lemma shareLoop_lines:
  assumes "shareLoop action \<lparr>shareBiot = b, shareEmail = [], sharePort = 0, shareShell = False\<rparr> as = Inr opts"
    and "shareChecks action opts = Inr opts"
  shows "\<exists>e choice. e \<noteq> [] \<and> shareChoice choice b e opts \<and> (as = [''--to'', e] @ choice \<or> as = choice @ [''--to'', e])"
  using assms(1)
proof (cases rule: shareLoop_step)
  case ready
  with assms(2) show ?thesis by (simp add: shareChecks_def)
next
  case (email v rest)
  with shareLoop_choice [OF email(4) assms(2)] show ?thesis
    by (intro exI [of _ v] exI [of _ rest]) simp
next
  case (port v n rest)
  with shareLoop_email [OF port(6) assms(2)] show ?thesis
    by (auto simp: shareChoice_def)
next
  case (shell rest)
  with shareLoop_email [OF shell(3) assms(2)] show ?thesis
    by (auto simp: shareChoice_def)
qed

section \<open>Creating\<close>

text \<open>The command line that says what a set of options says.\<close>

definition renderCreate :: "createOptions \<Rightarrow> string list" where
  "renderCreate opts =
     [''--repo'', repository opts, ''--name'', createName opts] @
     (if createNode opts \<noteq> [] then [''--node'', createNode opts] else []) @
     concat (map (\<lambda>v. [''--layer'', v]) (layers opts)) @
     concat (map (\<lambda>v. [''--secret'', v]) (secretNames opts)) @
     concat (map (\<lambda>v. [''--fetch-credential'', v]) (fetchCredentials opts)) @
     (if createStdin opts then [''--stdin''] else [])"

text \<open>The values of a set of options, none of which is an unknown flag.\<close>

definition optionValues :: "createOptions \<Rightarrow> string set" where
  "optionValues opts = {repository opts, createName opts, createNode opts} \<union> set (layers opts) \<union>
     set (secretNames opts) \<union> set (fetchCredentials opts)"

lemma optionValues_stdin [simp]: "optionValues (opts\<lparr>createStdin := b\<rparr>) = optionValues opts"
  by (simp add: optionValues_def)

lemma createLoop_values:
  "createLoop opts args = Inr opts' \<Longrightarrow> optionValues opts' \<subseteq> optionValues opts \<union> set args"
proof (induction opts args rule: createLoop.induct)
  case (3 opts a v as)
  show ?case
  proof (cases "a = ''--stdin''")
    case True
    from "3.prems" have "createLoop (opts\<lparr>createStdin := True\<rparr>) (v # as) = Inr opts'" unfolding createLoop.simps True by simp
    from "3.IH"(1) [OF True this] show ?thesis by auto
  next
    case False
    with "3.prems" obtain o1 where o1: "createOption a v opts = Some o1" "hasPrefix a ''--''" "createLoop o1 as = Inr opts'"
      by (auto split: if_splits option.splits)
    then have "optionValues o1 \<subseteq> insert v (optionValues opts)"
      by (auto simp: createOption_def optionValues_def split: if_splits)
    with "3.IH"(2) [OF False _ o1(1,3)] o1(2) show ?thesis by auto
  qed
qed (auto split: if_splits)

lemma createLoop_flags:
  "createLoop opts (''--layer'' # v # as) = createLoop (opts\<lparr>layers := layers opts @ [v]\<rparr>) as"
  "createLoop opts (''--secret'' # v # as) = createLoop (opts\<lparr>secretNames := secretNames opts @ [v]\<rparr>) as"
  "createLoop opts (''--fetch-credential'' # v # as) =
     createLoop (opts\<lparr>fetchCredentials := fetchCredentials opts @ [v]\<rparr>) as"
  "createLoop opts (''--repo'' # v # as) = createLoop (opts\<lparr>repository := v\<rparr>) as"
  "createLoop opts (''--name'' # v # as) = createLoop (opts\<lparr>createName := v\<rparr>) as"
  "createLoop opts (''--node'' # v # as) = createLoop (opts\<lparr>createNode := v\<rparr>) as"
  by (simp_all add: createOption_def)

lemma createLoop_lists:
  "createLoop opts (concat (map (\<lambda>v. [''--layer'', v]) vs) @ as) = createLoop (opts\<lparr>layers := layers opts @ vs\<rparr>) as"
  "createLoop opts (concat (map (\<lambda>v. [''--secret'', v]) vs) @ as) =
     createLoop (opts\<lparr>secretNames := secretNames opts @ vs\<rparr>) as"
  "createLoop opts (concat (map (\<lambda>v. [''--fetch-credential'', v]) vs) @ as) =
     createLoop (opts\<lparr>fetchCredentials := fetchCredentials opts @ vs\<rparr>) as"
  by (induction vs arbitrary: opts) (simp_all only: concat.simps list.map append_Cons append_Nil append_assoc
      createLoop_flags, simp_all)

lemma createLoop_render: "createLoop noOptions (renderCreate opts) = Inr opts"
proof -
  have finish: "createLoop o1 (if createStdin opts then [''--stdin''] else []) =
      Inr (if createStdin opts then o1\<lparr>createStdin := True\<rparr> else o1)" for o1 by simp
  have node: "createLoop o1 ((if createNode opts \<noteq> [] then [''--node'', createNode opts] else []) @ as) =
      createLoop (if createNode opts \<noteq> [] then o1\<lparr>createNode := createNode opts\<rparr> else o1) as" for o1 as
    by (cases "createNode opts = []") (simp_all only: if_True if_False append_Nil append_Cons createLoop_flags simp_thms)
  show ?thesis
    unfolding renderCreate_def append_Cons append_Nil createLoop_flags node createLoop_lists finish
    by (simp add: noOptions_def)
qed

lemma renderCreate_values: "set (renderCreate opts) \<subseteq> set createFlags \<union> optionValues opts"
  by (auto simp: renderCreate_def createFlags_def optionValues_def)

section \<open>Properties\<close>

text \<open>C33: Sharing takes exactly the lines it should: a Biot, one address and one choice of shell or port,
  in either order, with a port from 1 to 65535 and no unknown flag. Everything else is refused, and the
  options are what the line says.\<close>

theorem share_options_exact:
  "parseShareOptions action args = Inr opts \<longleftrightarrow>
     (\<exists>b e choice. e \<noteq> [] \<and> shareChoice choice b e opts \<and>
        (args = b # [''--to'', e] @ choice \<or> args = b # choice @ [''--to'', e])) \<and>
     (\<forall>a \<in> set args. hasPrefix a ''-'' \<longrightarrow> a \<in> {''--to'', ''--port'', ''--shell''})"
  (is "?l \<longleftrightarrow> ?lines \<and> ?known")
proof -
  have known: "rejectUnknown action args shareFlags = Inr () \<longleftrightarrow> ?known" by (simp add: rejectUnknown_ok shareFlags_def)
  show ?thesis
  proof
    assume ?l
    then obtain b as opts1 where "rejectUnknown action args shareFlags = Inr ()" "args = b # as"
      "shareLoop action \<lparr>shareBiot = b, shareEmail = [], sharePort = 0, shareShell = False\<rparr> as = Inr opts1"
      "shareChecks action opts1 = Inr opts"
      unfolding parseShareOptions_def by (auto simp: andThen_eq_Inr_iff split: list.splits)
    with shareLoop_lines [of action b as opts] shareChecks_same known show "?lines \<and> ?known" by blast
  next
    assume r: "?lines \<and> ?known"
    then obtain b e choice where l: "e \<noteq> []" "shareChoice choice b e opts"
      "args = b # [''--to'', e] @ choice \<or> args = b # choice @ [''--to'', e]" by blast
    from l(2) have "shareChecks action opts = Inr opts" using l(1) by (auto simp: shareChoice_def shareChecks_def)
    moreover obtain as where as: "args = b # as"
      "shareLoop action \<lparr>shareBiot = b, shareEmail = [], sharePort = 0, shareShell = False\<rparr> as = Inr opts"
      using l by (auto simp: shareChoice_def parsePortArg_def)
    ultimately show ?l
      using r known unfolding parseShareOptions_def by (simp add: andThen_eq_Inr_iff)
  qed
qed

theorem share_options_exact_witness:
  "parseShareOptions ''share'' [''b'', ''--port'', ''80'', ''--to'', ''e''] =
     Inr \<lparr>shareBiot = ''b'', shareEmail = ''e'', sharePort = 80, shareShell = False\<rparr>"
proof -
  let ?o = "\<lparr>shareBiot = ''b'', shareEmail = ''e'', sharePort = 80, shareShell = False\<rparr>"
  have "atoi ''80'' = Some 80" by code_simp
  then have "shareChoice [''--port'', ''80''] ''b'' ''e'' ?o" by (simp add: shareChoice_def)
  then show ?thesis
    by (intro share_options_exact [THEN iffD2] conjI exI [of _ "''b''"] exI [of _ "''e''"] exI [of _ "[''--port'', ''80'']"]) simp_all
qed

text \<open>C34: The options of \<open>biot create\<close> mean what they say: an accepted line names a repository and a name,
  has at most the one value that \<open>--stdin\<close> can carry, and the line printed from its options is accepted
  with the same options, lists in the same order.\<close>

theorem create_options_roundtrip:
  assumes "parseCreateOptions args = Inr opts"
  shows "parseCreateOptions (renderCreate opts) = Inr opts \<and> repository opts \<noteq> [] \<and> createName opts \<noteq> [] \<and>
    (createStdin opts \<longrightarrow> length (secretNames opts @ fetchCredentials opts) = 1)"
proof -
  have ok: "rejectUnknown ''create'' args createFlags = Inr ()" "createLoop noOptions args = Inr opts"
    and checks: "repository opts \<noteq> []" "createName opts \<noteq> []"
      "createStdin opts \<longrightarrow> length (secretNames opts) + length (fetchCredentials opts) = 1"
    using assms unfolding parseCreateOptions_def by (auto simp: andThen_eq_Inr_iff split: if_splits)
  have "optionValues opts \<subseteq> insert [] (set args)"
    using createLoop_values [OF ok(2)] by (auto simp: optionValues_def noOptions_def)
  with renderCreate_values [of opts] ok(1)
  have "\<forall>a \<in> set (renderCreate opts). hasPrefix a ''-'' \<longrightarrow> a \<in> set createFlags"
    by (fastforce simp: rejectUnknown_ok)
  then have "rejectUnknown ''create'' (renderCreate opts) createFlags = Inr ()" by (simp only: rejectUnknown_ok)
  with checks show ?thesis
    unfolding parseCreateOptions_def by (auto simp: createLoop_render andThen_eq_Inr_iff)
qed

theorem create_options_roundtrip_witness:
  "parseCreateOptions [''--stdin'', ''--secret'', ''s'', ''--name'', ''n'', ''--repo'', ''r''] =
     Inr (noOptions\<lparr>repository := ''r'', createName := ''n'', secretNames := [''s''], createStdin := True\<rparr>) \<and>
   parseCreateOptions (renderCreate (noOptions\<lparr>repository := ''r'', createName := ''n'', secretNames := [''s''],
       createStdin := True\<rparr>)) =
     Inr (noOptions\<lparr>repository := ''r'', createName := ''n'', secretNames := [''s''], createStdin := True\<rparr>)"
proof -
  have p: "parseCreateOptions [''--stdin'', ''--secret'', ''s'', ''--name'', ''n'', ''--repo'', ''r''] =
     Inr (noOptions\<lparr>repository := ''r'', createName := ''n'', secretNames := [''s''], createStdin := True\<rparr>)"
    by code_simp
  from create_options_roundtrip [OF p] p show ?thesis by simp
qed

end
