(* ===== verification/Cli_Login.thy ===== *)
theory Cli_Login
  imports Cli_Scope
begin

text \<open>
  Logging in: the login that is saved is one the server of this run has just accepted, and a login that fails
  leaves the one before it.
\<close>

section \<open>Before the login is saved\<close>

definition sameFiles :: "world \<Rightarrow> world \<Rightarrow> bool" where
  "sameFiles w w' \<longleftrightarrow> files w' = files w \<and> fault w' = fault w \<and> configDir w' = configDir w"

lemma sameFiles_relation: "reflp sameFiles" "transp sameFiles"
  by (auto simp: sameFiles_def reflp_def transp_def)

lemma sameFiles_talks: "talks c w w' \<Longrightarrow> sameFiles w w'"
  by (auto simp: talks_def sameFiles_def)

lemma sameFiles_input:
  "keeps sameFiles (loginURL args)" "keeps sameFiles (openAccountPage c)" "keeps sameFiles loginToken"
proof -
  have p: "keeps sameFiles (putErr ps)" "keeps sameFiles (printOut ps)" "keeps sameFiles getWorld"
    "keeps sameFiles (onStdin rd)" "keeps sameFiles (onTty rd)" "keeps sameFiles (tryOpenBrowser u)"
    "keeps sameFiles (secretInput s)"
    for ps u s and rd :: "(reader, cliErr, 'a) action"
    by (auto simp: keeps_def sameFiles_def putErr_def printOut_def put_def getWorld_def onStdin_def onTty_def
        tryOpenBrowser_def complain_def secretInput_def attempt_def result_simps
        split: prod.splits if_splits list.splits option.splits)
  note i = p keeps_attempt keeps_wrapErr sameFiles_relation keeps_pure
  show "keeps sameFiles (loginURL args)"
    unfolding loginURL_def inputLine_def by (auto intro!: i split: list.split)
  show "keeps sameFiles (openAccountPage c)" unfolding openAccountPage_def by (intro i)
  show "keeps sameFiles loginToken"
    unfolding loginToken_def StdinToken_def StdinSecret_def by (auto intro!: i)
qed

abbreviation (input) loginKept :: "world \<Rightarrow> world \<Rightarrow> bool" where
  "loginKept w w' \<equiv> files w' (configFile w) = files w (configFile w)"

text \<open>Nor does anything before the token is checked ask the server.\<close>

definition untouched :: "world \<Rightarrow> world \<Rightarrow> bool" where
  "untouched w w' \<longleftrightarrow> sameFiles w w' \<and> silent w w'"

lemma untouched_trans: "untouched w w1 \<Longrightarrow> untouched w1 w2 \<Longrightarrow> untouched w w2"
  by (simp add: untouched_def sameFiles_def silent_def)

lemma silent_input: "keeps silent (loginURL args)" "keeps silent loginToken"
  unfolding loginURL_def inputLine_def loginToken_def StdinToken_def by (intro silent_intros)+

lemma leads_untouched:
  assumes "keeps sameFiles m" and "keeps silent m"
  shows "leads (untouched w) m (\<lambda>_. untouched w) (loginKept w)"
proof (rule leadsI)
  fix w1 r w2
  assume "untouched w w1" and "m w1 = (r, w2)"
  with assms have "untouched w w2" by (metis keepsD untouched_def untouched_trans)
  then show "loginKept w w2" "untouched w w2" for e by (simp_all add: untouched_def sameFiles_def)
qed

text \<open>The server has accepted a client's token: the next request of the run is the one for the user, with that
  token, and the server has answered it with success and a user.\<close>

definition answered :: "client \<Rightarrow> world \<Rightarrow> world \<Rightarrow> bool" where
  "answered c w w' \<longleftrightarrow> (\<exists>t slow st body broken. requestTarget c ''me'' = Inr t \<and>
     calls w' = calls w @ [callFor c ''GET'' t None] \<and> server w (calls w') = Response slow st body broken \<and>
     200 \<le> st \<and> st < 300 \<and> (body = [] \<or> snd (unmarshal decPrincipal body zeroPrincipal)))"

lemma Me_answered:
  assumes "Me c w = (Inr who, w')"
  shows "answered c w w'"
proof -
  from assms obtain body where a: "apiRequest c ''GET'' ''me'' None w = (Inr body, w')"
    and d: "body = [] \<or> snd (unmarshal decPrincipal body zeroPrincipal)"
    unfolding Me_def requestResult_def
    by (auto simp: attempt_eq_Inr_iff succeed_def failWith_def split: if_splits prod.splits)
  from apiRequest_ok [OF a] obtain t slow st broken where "requestTarget c ''me'' = Inr t"
    "calls w' = calls w @ [callFor c ''GET'' t None]" "server w (calls w') = Response slow st body broken"
    "200 \<le> st" "st < 300" by metis
  with d show ?thesis unfolding answered_def by blast
qed

lemma answered_untouched: "untouched w w1 \<Longrightarrow> answered c w1 w' \<Longrightarrow> answered c w w'"
  by (simp add: untouched_def silent_def answered_def)

lemma answered_silent: "answered c w w1 \<Longrightarrow> silent w1 w' \<Longrightarrow> answered c w w'"
  by (simp add: silent_def answered_def)

lemma verify_leads:
  "leads (untouched w) (verifyToken c) (\<lambda>who w'. sameFiles w w' \<and> answered c w w') (loginKept w)"
  unfolding verifyToken_def
proof (rule leads_wrapErr, rule leadsI)
  fix w1 r w'
  assume u: "untouched w w1"
  have "keeps (talks c) (Me c)" by (simp add: Me_def keeps_talks_result)
  with u have same: "sameFiles w w'" if "Me c w1 = (x, w')" for x w'
    using that sameFiles_talks transpD [OF sameFiles_relation(2)] keepsD untouched_def by metis
  show "Me c w1 = (Inl r, w') \<Longrightarrow> loginKept w w'" using same by (simp add: sameFiles_def)
  show "Me c w1 = (Inr x, w') \<Longrightarrow> sameFiles w w' \<and> answered c w w'" for x
    using same Me_answered answered_untouched [OF u] by blast
qed

section \<open>Saving it\<close>

lemma saveConfig_silent: "keeps silent (saveConfig v)"
  by (auto simp: keeps_def silent_def saveConfig_run leftover_def saved_def split: if_splits)

lemma save_leads:
  "leads (sameFiles w) (saveConfig v)
     (\<lambda>_ w'. files w' (configFile w) = Some (savedFile v) \<and> configDir w' = configDir w \<and> fault w' = fault w \<and>
        ServerURL v \<noteq> [] \<and> config.Token v \<noteq> [] \<and> configDir w \<noteq> None)
     (loginKept w)"
  by (rule leadsI)
    (auto simp: sameFiles_def saveConfig_run leftover_def saved_def configFile_def tempFile_def split: if_splits)

definition savedLogin :: "world \<Rightarrow> config \<Rightarrow> world \<Rightarrow> bool" where
  "savedLogin w v w' \<longleftrightarrow> files w' (configFile w) = Some (savedFile v) \<and> (configText v \<and> readable w \<longrightarrow> loadedConfig w' = Some v)"

lemma savedLogin_read:
  assumes "files w' (configFile w) = Some (savedFile v)" "configDir w' = configDir w" "fault w' = fault w"
    "ServerURL v \<noteq> []" "config.Token v \<noteq> []"
  shows "savedLogin w v w'"
  using assms load_saved [of v w'] by (auto simp: savedLogin_def loadedConfig_def readable_def configFile_def)

definition loggedIn :: "string list \<Rightarrow> world \<Rightarrow> world \<Rightarrow> bool" where
  "loggedIn args w w' \<longleftrightarrow>
     (\<exists>url tok c. (\<forall>u. args = [u] \<longrightarrow> url = u) \<and> newClient url tok = Inr c \<and> answered c w w' \<and>
        savedLogin w \<lparr>ServerURL = clientServerURL c, Token = tok\<rparr> w')"

lemma save_login:
  assumes "newClient url tok = Inr c" and "\<forall>u. args = [u] \<longrightarrow> url = u"
  shows "leads (\<lambda>w'. sameFiles w w' \<and> answered c w w')
    (attempt (saveConfig \<lparr>ServerURL = clientServerURL c, Token = tok\<rparr>) (\<lambda>_. say s)) (\<lambda>_. loggedIn args w) (loginKept w)"
proof (rule leads_attempt)
  let ?v = "\<lparr>ServerURL = clientServerURL c, Token = tok\<rparr>"
  let ?saved = "\<lambda>w'. answered c w w' \<and> files w' (configFile w) = Some (savedFile ?v) \<and> configDir w' = configDir w \<and>
        fault w' = fault w \<and> ServerURL ?v \<noteq> [] \<and> config.Token ?v \<noteq> []"
  show "leads (\<lambda>w'. sameFiles w w' \<and> answered c w w') (saveConfig ?v) (\<lambda>_. ?saved) (loginKept w)"
    using leadsD [OF save_leads [of w ?v]] keepsD [OF saveConfig_silent [of ?v]] answered_silent
    by (intro leadsI) blast+
  show "leads ?saved (say s) (\<lambda>_. loggedIn args w) (loginKept w)" for a
  proof (rule leadsI)
    fix w1 u w'
    assume a: "?saved w1" and said: "say s w1 = (Inr u, w')"
    then have "files w' = files w1" "configDir w' = configDir w1" "fault w' = fault w1" "silent w1 w'"
      by (auto simp: say_def printOut_def put_def silent_def split: if_splits)
    with a savedLogin_read [of w' w ?v] answered_silent assms show "loggedIn args w w'"
      unfolding loggedIn_def by (metis config.select_convs)
  qed (simp add: say_def printOut_def)
qed

lemma loginURL_leads:
  "leads (untouched w) (loginURL args) (\<lambda>url w'. untouched w w' \<and> (\<forall>u. args = [u] \<longrightarrow> url = u)) (loginKept w)"
proof (cases "\<exists>u. args = [u]")
  case True
  then show ?thesis by (auto intro!: leadsI simp: loginURL_def succeed_def)
next
  case False
  then show ?thesis by (intro leads_conseq [OF leads_untouched [OF sameFiles_input(1) silent_input(1)]]) auto
qed

lemma login_leads: "leads (untouched w) (runLogin args) (\<lambda>_. loggedIn args w) (loginKept w)"
proof -
  have kept: "untouched w w' \<Longrightarrow> loginKept w w'" for w'
    by (simp add: untouched_def sameFiles_def)
  have made: "leads (untouched w) (lift x) (\<lambda>c w'. untouched w w' \<and> x = Inr c) (loginKept w)" for x :: "(cliErr, 'a) result"
    by (rule leads_pure) (auto dest: kept)
  show ?thesis
    unfolding runLogin_def
    by (rule leads_attempt [OF made], rule leads_given, rule leads_attempt [OF made], rule leads_given,
        rule leads_attempt [OF loginURL_leads], rule leads_given, rule leads_attempt [OF made], rule leads_given,
        rule leads_attempt [OF leads_untouched [OF sameFiles_input(2) page_silent(1)]],
        rule leads_attempt [OF leads_untouched [OF sameFiles_input(3) silent_input(2)]],
        rule leads_attempt [OF made], rule leads_given, rule leads_attempt [OF verify_leads], rule save_login)
qed

section \<open>Properties\<close>

text \<open>C19: Logging in saves what the server has accepted, and nothing else. After a successful \<open>biot login\<close> the
  run has made exactly one request, for the user, of the client of a server URL and a token, and the server
  of that world answered it with a success and a user; the configuration file holds that URL and that token,
  for the server named on the command line if there is one, and a later command reads exactly that. After a
  failed login the file is what it was.\<close>

theorem login_saves_verified:
  assumes "runLogin args w = (r, w')"
  shows "if isOk r then
      \<exists>url tok c t slow st body broken. (\<forall>u. args = [u] \<longrightarrow> url = u) \<and> newClient url tok = Inr c \<and>
        requestTarget c ''me'' = Inr t \<and> calls w' = calls w @ [callFor c ''GET'' t None] \<and>
        server w (calls w') = Response slow st body broken \<and> 200 \<le> st \<and> st < 300 \<and>
        (body = [] \<or> snd (unmarshal decPrincipal body zeroPrincipal)) \<and>
        files w' (configFile w) = Some (savedFile \<lparr>ServerURL = clientServerURL c, Token = tok\<rparr>) \<and>
        (utf8Valid (clientServerURL c) \<and> utf8Valid tok \<and> readable w \<longrightarrow>
           loadedConfig w' = Some \<lparr>ServerURL = clientServerURL c, Token = tok\<rparr>)
    else files w' (configFile w) = files w (configFile w)"
proof -
  have "untouched w w" by (simp add: untouched_def sameFiles_def silent_def)
  note leads = leadsD [OF login_leads this]
  show ?thesis
  proof (cases r)
    case (Inl e)
    with leads(1) assms show ?thesis by simp
  next
    case (Inr u)
    with leads(2) assms have "loggedIn args w w'" by simp
    with Inr show ?thesis unfolding loggedIn_def answered_def savedLogin_def configText_def
      by (simp only: isOk.simps if_True config.select_convs) blast
  qed
qed

theorem login_saves_verified_witness:
  "\<exists>w' c tok. runLogin [''https://b''] ((quietWorld (\<lambda>_. answer (JObj [])))\<lparr>hidden := [Some ''t'']\<rparr>) = (Inr (), w') \<and>
     newClient ''https://b'' tok = Inr c \<and>
     files w' (configFile (quietWorld noServer)) = Some (savedFile \<lparr>ServerURL = clientServerURL c, Token = tok\<rparr>)"
proof -
  let ?s = "\<lambda>_. answer (JObj [])"
  let ?w = "(quietWorld ?s)\<lparr>hidden := [Some ''t'']\<rparr>"
  have c: "newClient ''https://b'' ''t'' = Inr demoClient" "newClient ''https://b'' [] = Inr (demoClient\<lparr>token := []\<rparr>)"
    by code_simp+
  have a: "rejectUnknown ''login'' [''https://b''] [] = Inr ()" "RequireAtMostArguments ''login'' [''https://b''] 1 = Inr ()"
    by code_simp+
  have u: "clientServerURL demoClient \<noteq> []" by code_simp
  obtain w1 where w1: "openAccountPage (demoClient\<lparr>token := []\<rparr>) ?w = (Inr (), w1)" "hidden w1 = [Some ''t'']"
    "server w1 = ?s" "budget w1 = Suc 99" "hasTty w1" "stdinIsTerminal w1" "\<not> terminalStateFails w1" "\<not> stderrFails w1"
    "fault w1 = (\<lambda>_. False)" "configDir w1 \<noteq> None"
    by (simp add: openAccountPage_def attempt_def printOut_def put_def tryOpenBrowser_def quietWorld_def)
  obtain w2 where w2: "loginToken w1 = (Inr (stringBytes ''t''), w2)" "server w2 = ?s" "budget w2 = Suc 99"
    "fault w2 = (\<lambda>_. False)" "configDir w2 \<noteq> None"
    using w1 by (simp add: loginToken_def attempt_def getWorld_def secretInput_def putErr_def maxSecretBytes_value succeed_def)
  have t: "requestTarget demoClient ''me'' = Inr ''https://b/api/me''" by code_simp
  obtain w3 where w3: "Me demoClient w2 = (Inr zeroPrincipal, w3)" "fault w3 = (\<lambda>_. False)" "configDir w3 \<noteq> None"
  proof -
    have "requestResult demoClient ''GET'' ''me'' None decPrincipal zeroPrincipal w2 =
       (Inr zeroPrincipal, w2\<lparr>calls := calls w2 @ [callFor demoClient ''GET'' ''https://b/api/me'' None], budget := 99\<rparr>)"
      using w2 by (intro requestResult_json [OF t demo_header, where j = "JObj []"])
        (simp_all add: decPrincipal_def maxNestingDepth_def)
    with that w2 show thesis by (simp add: Me_def)
  qed
  obtain w4 where "saveConfig \<lparr>ServerURL = clientServerURL demoClient, Token = ''t''\<rparr> w3 = (Inr (), w4)"
    using w3 u by (simp add: saveConfig_run)
  with a c w1(1) w2(1) w3(1) obtain w' where run: "runLogin [''https://b''] ?w = (Inr (), w')"
    by (simp add: runLogin_def attempt_def lift_def loginURL_def succeed_def verifyToken_def wrapErr_def say_def printOut_def
        bytesString_stringBytes)
  have "configFile ?w = configFile (quietWorld noServer)" by (simp add: configFile_def quietWorld_def)
  with login_saves_verified [OF run] run show ?thesis by auto
qed

end
