(* ===== verification/Cli_Delivery.thy ===== *)
theory Cli_Delivery
  imports Cli_Waiting Cli_Scope
begin

text \<open>
  What becomes of a secret that is piped into \<open>biot secret set\<close>: from standard input through the limits
  of the input package, the UTF-8 check and the JSON encoder of the API client into one request.
\<close>

section \<open>Delivering one value\<close>

lemma piped_value:
  assumes "readSensitiveValue True prompt w = (Inr value, w')" and "ends (stdin w) = EOF"
  shows "value = unread (stdin w)" and "length value \<le> 65536" and "w' = w\<lparr>stdin := (stdin w)\<lparr>unread := []\<rparr>\<rparr>"
  using assms
  by (auto simp: readSensitiveValue_def StdinSecret_def onStdin_def stdinSecretFrom_def attempt_def wrapErr_def
      readAllLimited_def maxSecretBytes_value succeed_def failWith_def split: if_splits)

lemma jsonMap_value: "utf8Valid s \<Longrightarrow> parseJson (jprint (jsonMap [(''value'', JStr s)])) = Some (JObj [(''value'', JStr s)])"
  by (subst parse_jprint) (auto simp: jsonMap_def sortMembers_def maxNestingDepth_def code_def intro!: utf8Valid_text)

lemma DeliverSecret_ok:
  assumes "DeliverSecret c i name value w = (Inr (), w')"
  obtains cl body slow st ans broken where "calls w' = calls w @ [cl]" "verb cl = ''PUT''" "requestBody cl = Some body"
    "parseJson body = Some (JObj [(''value'', JStr (bytesString value))])"
    "server w (calls w') = Response slow st ans broken" "200 \<le> st" "st < 300"
proof -
  let ?p = "''biots/'' @ pathEscape i @ ''/secrets/'' @ pathEscape name"
  let ?b = "jsonMap [(''value'', JStr (bytesString value))]"
  from assms obtain ans where v: "utf8Valid (bytesString value)" and a: "apiRequest c ''PUT'' ?p (Some ?b) w = (Inr ans, w')"
    by (auto simp: DeliverSecret_def requestNothing_def attempt_eq_Inr_iff lift_def secretJSONValue_def succeed_def
        split: if_splits)
  from apiRequest_ok [OF a] obtain t slow st broken where
    "calls w' = calls w @ [callFor c ''PUT'' t (Some ?b)]" "server w (calls w') = Response slow st ans broken"
    "200 \<le> st" "st < 300" by metis
  with that jsonMap_value [OF v] show thesis by (auto simp: callFor_def)
qed

section \<open>Properties\<close>

text \<open>C12: A piped secret arrives whole and is shown nowhere. When \<open>biot secret set --stdin\<close> succeeds, its last
  request, the only one that is not a \<open>GET\<close>, put a JSON object whose value is exactly the bytes of standard
  input, at most 65536 of them, and the server accepted it; standard output got one line that does not
  depend on the value, and standard error at most the transport notices.\<close>

theorem piped_secret_delivered:
  assumes "runSecretSet args w = (Inr (), w')" and "parseValueCommand ''secret set'' args = Inr (reference, name, True)"
    and "ends (stdin w) = EOF" and "savedClient w = Inr c" and "\<not> stdoutFails w"
  shows "\<exists>cs cl body slow st ans broken k. calls w' = calls w @ cs @ [cl] \<and>
    (\<forall>x \<in> set cs. verb x = ''GET'') \<and> verb cl = ''PUT'' \<and> requestBody cl = Some body \<and>
    parseJson body = Some (JObj [(''value'', JStr (bytesString (unread (stdin w))))]) \<and> length (unread (stdin w)) \<le> 65536 \<and>
    server w (calls w') = Response slow st ans broken \<and> 200 \<le> st \<and> st < 300 \<and>
    stdout w' = stdout w @ [T (''Runtime secret '' @ name @ '' delivered.'' @ [CHR 0x0A])] \<and>
    stderr w' = stderr w @ concat (replicate k (notice c))"
proof -
  define setIt where "setIt = (\<lambda>c (b :: biot). attempt (readSensitiveValue True ''Runtime secret value: '') (\<lambda>value.
     attempt (wrapErr (\<lambda>e. Errorf [T ''runtime secret delivery failed: '', W e]) (DeliverSecret c (biotID b) name value)) (\<lambda>_.
       say (''Runtime secret '' @ name @ '' delivered.''))))"
  have "onBiot (Inr ()) reference setIt w = (Inr (), w')"
    using assms(1,2) by (simp add: runSecretSet_def attempt_def lift_def setIt_def)
  then obtain b w1 where t: "talks c w w1" and res: "resolveBiot c reference w = (Inr b, w1)" and "setIt c b w1 = (Inr (), w')"
    using assms(4) by (cases rule: onBiot_cases) auto
  then obtain val w2 w3 where v: "readSensitiveValue True ''Runtime secret value: '' w1 = (Inr val, w2)"
    and "wrapErr (\<lambda>e. Errorf [T ''runtime secret delivery failed: '', W e]) (DeliverSecret c (biotID b) name val) w2 = (Inr (), w3)"
    and s: "say (''Runtime secret '' @ name @ '' delivered.'') w3 = (Inr (), w')"
    unfolding setIt_def by (elim attempt_Inr_elim) simp
  from this(2) have d: "DeliverSecret c (biotID b) name val w2 = (Inr (), w3)" by (simp only: wrapErr_ok)
  have "stdin w1 = stdin w" "server w1 = server w" "\<not> stdoutFails w1" "stdout w1 = stdout w"
    using t assms(5) by (auto simp: talks_def)
  note w1 = this and p = piped_value [OF v, unfolded this(1), OF assms(3)]
  have "keeps (talks c) (DeliverSecret c (biotID b) name val)"
    unfolding DeliverSecret_def requestNothing_def
    by (intro keeps_attempt talks_relation keeps_talks_request) (simp_all add: talks_relation)
  from keepsD [OF this d] p w1 have t3: "talks c w2 w3" "\<not> stdoutFails w3" "stdout w3 = stdout w"
    by (auto simp: talks_def)
  obtain j k where "stderr w1 = stderr w @ concat (replicate j (notice c))" "stderr w3 = stderr w2 @ concat (replicate k (notice c))"
    using t t3(1) by (auto simp: talks_def)
  then have e: "stderr w3 = stderr w @ concat (replicate (j + k) (notice c))" using p(3) by (simp add: replicate_add)
  obtain cs where "calls w2 = calls w @ cs" "\<forall>cl \<in> set cs. verb cl = ''GET''"
    using keepsD [OF read_only.resolving res] p(3) by (auto simp: sends_def readOnly_def)
  moreover from d obtain cl body slow st ans broken where "calls w3 = calls w2 @ [cl]" "verb cl = ''PUT''" "requestBody cl = Some body"
    "parseJson body = Some (JObj [(''value'', JStr (bytesString val))])"
    "server w2 (calls w3) = Response slow st ans broken" "200 \<le> st" "st < 300" by (rule DeliverSecret_ok)
  moreover have "w' = w3\<lparr>stdout := stdout w @ [T (''Runtime secret '' @ name @ '' delivered.'' @ [CHR 0x0A])]\<rparr>"
    using s t3 by (simp add: say_def printOut_def put_def)
  ultimately show ?thesis
    using p w1 e
    by (intro exI [of _ cs] exI [of _ cl] exI [of _ body] exI [of _ slow] exI [of _ st] exI [of _ ans] exI [of _ broken]
        exI [of _ "j + k"]) simp
qed

theorem piped_secret_delivered_witness:
  "\<exists>w' cl cs body. runSecretSet [demoID, ''s'', ''--stdin'']
       ((demoWorld readyServer)\<lparr>stdin := \<lparr>unread = [115, 60, 10], ends = EOF\<rparr>\<rparr>) = (Inr (), w') \<and>
     calls w' = cs @ [cl] \<and> verb cl = ''PUT'' \<and> requestBody cl = Some body \<and>
     parseJson body = Some (JObj [(''value'', JStr [CHR ''s'', CHR ''<'', CHR 0x0A])])"
proof -
  let ?args = "[demoID, ''s'', ''--stdin'']"
  let ?w = "(demoWorld readyServer)\<lparr>stdin := \<lparr>unread = [115, 60, 10], ends = EOF\<rparr>\<rparr>"
  have a: "parseValueCommand ''secret set'' ?args = Inr (demoID, ''s'', True)" "canonicalUUID demoID" by code_simp+
  have c: "savedClient ?w = Inr demoClient"
    using same_login_saved [of "demoWorld readyServer" ?w] demo_client [of readyServer] by (simp add: same_login_def)
  have w: "server ?w = readyServer" "budget ?w = Suc 99" "calls ?w = []" by (simp_all add: demo_calls)
  have f: "\<not> stdoutFails ?w" by (simp add: demoWorld_def saved_def quietWorld_def)
  obtain w1 where w1: "GetBiot demoClient demoID ?w = (Inr runningBiot, w1)" "server w1 = readyServer" "budget w1 = Suc 98"
    using demo_get [OF w(1,2)] by auto
  have s1: "stdin w1 = stdin ?w" using keepsD [OF keeps_talks_get w1(1)] by (auto simp: talks_def)
  obtain w2 where w2: "readSensitiveValue True ''Runtime secret value: '' w1 = (Inr [115, 60, 10], w2)"
    "server w2 = readyServer" "budget w2 = Suc 98"
    using s1 w1(2,3) by (simp add: readSensitiveValue_def StdinSecret_def onStdin_def stdinSecretFrom_def attempt_def wrapErr_def
        readAllLimited_def maxSecretBytes_value succeed_def)
  have b: "bytesString [115, 60, 10] = [CHR ''s'', CHR ''<'', CHR 0x0A]" "biotID runningBiot = []"
    "secretJSONValue [115, 60, 10] = Inr [CHR ''s'', CHR ''<'', CHR 0x0A]" by code_simp+
  let ?p = "''biots/'' @ pathEscape [] @ ''/secrets/'' @ pathEscape ''s''"
  have t: "requestTarget demoClient ?p = Inr ''https://b/api/biots//secrets/s''" by code_simp
  obtain w3 where w3: "DeliverSecret demoClient (biotID runningBiot) ''s'' [115, 60, 10] w2 = (Inr (), w3)"
  proof -
    let ?b = "Some (jsonMap [(''value'', JStr [CHR ''s'', CHR ''<'', CHR 0x0A])])"
    have "requestNothing demoClient ''PUT'' ?p ?b w2 =
       (Inr (), w2\<lparr>calls := calls w2 @ [callFor demoClient ''PUT'' ''https://b/api/biots//secrets/s'' ?b], budget := 98\<rparr>)"
      using w2 by (intro requestNothing_answered [OF t demo_header, where st = 200 and ans = "jprint (JObj []) @ [CHR 0x0A]"])
        (simp_all add: readyServer_def callFor_def answer_def maxResponseBytes_def)
    then show thesis using that unfolding DeliverSecret_def attempt_def lift_def b by simp
  qed
  obtain w' where run: "runSecretSet ?args ?w = (Inr (), w')"
    using a c w1(1) w2(1) w3
    by (simp add: runSecretSet_def onBiot_def attempt_def lift_def loadClient_run resolveBiot_def wrapErr_def say_def printOut_def)
  have "ends (stdin ?w) = EOF" "unread (stdin ?w) = [115, 60, 10]" by simp_all
  with piped_secret_delivered [OF run a(1) _ c f] run b(1) w(3) show ?thesis by auto
qed

end
