(* ===== verification/Cli_Restart.thy ===== *)
theory Cli_Restart
  imports Cli_Scope Cli_Waiting
begin

text \<open>
  The one command that changes a Biot twice: \<open>biot restart\<close> stops it, waits, reads it again and starts it
  with the revision it has just read.
\<close>

section \<open>The changes a run asks for\<close>

definition posted :: "world \<Rightarrow> world \<Rightarrow> call list \<Rightarrow> bool" where
  "posted w w' ps \<longleftrightarrow> (\<exists>cs. calls w' = calls w @ cs \<and> filter (\<lambda>cl. verb cl \<noteq> ''GET'') cs = ps)"

lemma posted_trans: "posted w w1 ps \<Longrightarrow> posted w1 w2 qs \<Longrightarrow> posted w w2 (ps @ qs)"
  unfolding posted_def by (metis append_assoc filter_append)

lemma posted_read: "sends (readOnly c) w w' \<Longrightarrow> posted w w' []"
  by (force simp: posted_def sends_def readOnly_def filter_empty_conv)

text \<open>The request that changes the state of a Biot if it still has a revision.\<close>

definition lifecycleCall :: "client \<Rightarrow> string \<Rightarrow> string \<Rightarrow> int \<Rightarrow> call" where
  "lifecycleCall c i step revn =
     callFor c ''POST'' (case requestTarget c (''biots/'' @ pathEscape i @ step) of Inr t \<Rightarrow> t | Inl _ \<Rightarrow> [])
       (Some (jsonMap [(''expected_revision'', jint revn)]))"

lemma lifecycle_posts:
  assumes "lifecycle c ''POST'' (pathEscape i @ step) revn w = (r, w')"
  shows "posted w w' [] \<and> \<not> isOk r \<or> posted w w' [lifecycleCall c i step revn]"
proof -
  let ?p = "''biots/'' @ pathEscape i @ step" and ?b = "Some (jsonMap [(''expected_revision'', jint revn)])"
  from assms obtain r1 where a: "apiRequest c ''POST'' ?p ?b w = (r1, w')" and r: "isOk r \<Longrightarrow> isOk r1"
    unfolding lifecycle_def requestResult_def
    by (elim attempt_cases) (auto simp: succeed_def failWith_def split: if_splits prod.splits)
  have p: "posted w w' [lifecycleCall c i step revn]"
    if "calls w' = calls w @ [callFor c ''POST'' t ?b]" "requestTarget c ?p = Inr t" for t
    using that by (auto simp: posted_def lifecycleCall_def callFor_def)
  show ?thesis
  proof (cases "isOk r1")
    case True
    then obtain ans where "r1 = Inr ans" by (cases r1) auto
    with apiRequest_ok [OF a [unfolded this]] p show ?thesis by metis
  next
    case False
    from apiRequest_calls(1) [OF a] p have "posted w w' [] \<or> posted w w' [lifecycleCall c i step revn]"
      by (auto simp: posted_def)
    with False r show ?thesis by blast
  qed
qed

lemma start_stop_posts:
  "StartBiot c i revn w = (r, w') \<Longrightarrow> posted w w' [] \<and> \<not> isOk r \<or> posted w w' [lifecycleCall c i ''/start'' revn]"
  "StopBiot c i revn w = (r, w') \<Longrightarrow> posted w w' [] \<and> \<not> isOk r \<or> posted w w' [lifecycleCall c i ''/stop'' revn]"
  unfolding StartBiot_def StopBiot_def by (fact lifecycle_posts)+

lemma restart_reads:
  "keeps (sends (readOnly c)) (waitIfAny c res i reference)" "keeps (sends (readOnly c)) (GetBiot c i)"
  "keeps (sends (readOnly c)) (attempt (waitIfAny c res i reference) (\<lambda>_. attempt (waitRunning c i reference) (\<lambda>_. say s)))"
  unfolding waitIfAny_def waitRunning_def
  by (intro sends_intros read_only.reading read_only.waiting | rule keeps_silent, intro silent_intros)+

lemmas reads_post = posted_read [OF keepsD [OF restart_reads(1)]] posted_read [OF keepsD [OF restart_reads(2)]]
  posted_read [OF keepsD [OF restart_reads(3)]] posted_read [OF keepsD [OF read_only.resolving]]

lemma restart_start:
  assumes "attempt (GetBiot c i) (\<lambda>view. attempt (StartBiot c i (revision (biotDesired view))) (\<lambda>started.
     attempt (waitIfAny c started i reference) (\<lambda>_. attempt (waitRunning c i reference) (\<lambda>_. say s)))) w = (r, w')"
  shows "posted w w' [] \<and> \<not> isOk r \<or> (\<exists>view w1. GetBiot c i w = (Inr view, w1) \<and>
    posted w w' [lifecycleCall c i ''/start'' (revision (biotDesired view))])"
  using assms
proof (cases rule: attempt_cases)
  case fails
  with reads_post(2) [OF fails(1)] show ?thesis by simp
next
  case (goes view w1)
  let ?start = "lifecycleCall c i ''/start'' (revision (biotDesired view))"
  have p: "posted w w1 []" using goes(1) by (rule reads_post)
  from goes(2) have "posted w w' [] \<and> \<not> isOk r \<or> posted w w' [?start]"
  proof (cases rule: attempt_cases)
    case fails
    with start_stop_posts(1) [OF fails(1)] posted_trans [OF p] show ?thesis by fastforce
  next
    case (goes res w2)
    from start_stop_posts(1) [OF goes(1)] posted_trans [OF p] have "posted w w2 [?start]" by fastforce
    from posted_trans [OF this reads_post(3) [OF goes(2)]] show ?thesis by simp
  qed
  with goes(1) show ?thesis by blast
qed

section \<open>A run\<close>

text \<open>A server whose one Biot is at revision 7 until something changes it, and at 8 then.\<close>

definition revisedJson :: "int \<Rightarrow> json" where
  "revisedJson n = JObj [(''id'', JStr demoID), (''desired'', JObj [(''state'', JStr ''running''), (''revision'', jint n)]),
     (''actual'', JObj [(''container'', JObj [(''state'', JStr ''running'')])])]"

definition revisedBiot :: "int \<Rightarrow> biot" where
  "revisedBiot n = runningBiot\<lparr>biotID := demoID, biotDesired := zeroDesired\<lparr>desiredState := ''running'', revision := n\<rparr>\<rparr>"

definition revisingServer :: "call list \<Rightarrow> exchange" where
  "revisingServer cs =
     (if verb (last cs) = ''GET'' then answer (revisedJson (if filter (\<lambda>cl. verb cl \<noteq> ''GET'') cs = [] then 7 else 8))
      else answer (JObj []))"

lemma revised_json:
  assumes "n = 7 \<or> n = 8"
  shows "jsonOk (revisedJson n)" "jdepth (revisedJson n) \<le> maxNestingDepth" "length (jprint (revisedJson n)) < 1000"
    "decBiot fl (revisedJson n) zeroBiot = (revisedBiot n, True)"
proof -
  show "jsonOk (revisedJson n)" "jdepth (revisedJson n) \<le> maxNestingDepth"
    by (auto simp: revisedJson_def maxNestingDepth_def code_def jint_def intLit_itoa demoID_def intro!: utf8Valid_text)
  have "length (jprint (revisedJson 7)) \<le> 200" "length (jprint (revisedJson 8)) \<le> 200" by code_simp+
  with assms show "length (jprint (revisedJson n)) < 1000" by auto
  have "decInt (jint 7) 0 = (7, True)" "decInt (jint 8) 0 = (8, True)" by code_simp+
  with assms have "decInt (jint n) 0 = (n, True)" by auto
  then show "decBiot fl (revisedJson n) zeroBiot = (revisedBiot n, True)"
    unfolding revisedJson_def revisedBiot_def runningBiot_def decBiot_def decDesired_def decActual_def decContainer_def
    by (simp add: fieldFor_def field_def zeroBiot_def zeroActual_def zeroDesired_def zeroContainer_def)
qed

definition revising :: "nat \<Rightarrow> nat \<Rightarrow> world \<Rightarrow> bool" where
  "revising k n w \<longleftrightarrow> server w = revisingServer \<and> budget w = n \<and> length (filter (\<lambda>cl. verb cl \<noteq> ''GET'') (calls w)) = k"

lemma revising_get:
  assumes "revising k (Suc n) w"
  shows "\<exists>w'. GetBiot demoClient demoID w = (Inr (revisedBiot (if k = 0 then 7 else 8)), w') \<and> revising k n w'"
proof -
  let ?t = "''https://b/api/biots/'' @ demoID" and ?n = "if k = 0 then 7 else 8 :: int"
  note j = revised_json [of ?n]
  have "requestResult demoClient ''GET'' (''biots/'' @ pathEscape demoID) None (decBiot (floats w)) zeroBiot w =
     (Inr (revisedBiot ?n), w\<lparr>calls := calls w @ [callFor demoClient ''GET'' ?t None], budget := n\<rparr>)"
    using assms
    by (intro requestResult_json [OF demo_target demo_header _ _ j(1-3)] j(4))
      (auto simp: revisingServer_def callFor_def revising_def)
  with assms show ?thesis by (simp add: GetBiot_def decodeBiot_def revising_def callFor_def)
qed

lemma revising_post:
  assumes "revising k (Suc n) w" and "requestTarget demoClient (''biots/'' @ pathEscape demoID @ step) = Inr t"
  shows "\<exists>w'. lifecycle demoClient ''POST'' (pathEscape demoID @ step) m w = (Inr zeroLifecycleResult, w') \<and> revising (Suc k) n w'"
proof -
  let ?b = "Some (jsonMap [(''expected_revision'', jint m)])"
  have "requestResult demoClient ''POST'' (''biots/'' @ pathEscape demoID @ step) ?b decLifecycleResult zeroLifecycleResult w =
     (Inr zeroLifecycleResult, w\<lparr>calls := calls w @ [callFor demoClient ''POST'' t ?b], budget := n\<rparr>)"
    using assms(1) empty_json
    by (intro requestResult_json [OF assms(2) demo_header, where j = "JObj []"])
      (simp_all add: revisingServer_def callFor_def decLifecycleResult_def revising_def)
  with assms(1) show ?thesis by (simp add: lifecycle_def revising_def callFor_def)
qed

lemma restart_run:
  "\<exists>w'. runRestart [demoID] (demoWorld revisingServer) = (Inr (), w')"
proof -
  let ?w = "demoWorld revisingServer"
  have w: "revising 0 (Suc 99) ?w" by (simp add: revising_def demo_calls)
  have a: "validateArguments ''restart'' [demoID] 1 [] = Inr ()" "canonicalUUID demoID" by code_simp+
  have t: "requestTarget demoClient (''biots/'' @ pathEscape demoID @ ''/stop'') = Inr (''https://b/api/biots/'' @ demoID @ ''/stop'')"
    "requestTarget demoClient (''biots/'' @ pathEscape demoID @ ''/start'') = Inr (''https://b/api/biots/'' @ demoID @ ''/start'')"
    by code_simp+
  have b: "biotID (revisedBiot n) = demoID" "revision (biotDesired (revisedBiot n)) = n" "runningReady (revisedBiot n)"
    "waitingForFailure (revisedBiot n) r = Inr ()" "currentFailure (revisedBiot n) r = Inr ()" for n r
    by (simp_all add: revisedBiot_def runningBiot_def runningReady_def waitingForFailure_def currentFailure_def zeroBiot_def zeroActual_def)
  obtain w1 where w1: "GetBiot demoClient demoID ?w = (Inr (revisedBiot 7), w1)" "revising 0 (Suc 98) w1"
    using revising_get [OF w] by auto
  obtain w2 where w2: "StopBiot demoClient demoID 7 w1 = (Inr zeroLifecycleResult, w2)" "revising 1 (Suc 97) w2"
    using revising_post [OF w1(2) t(1)] by (auto simp: StopBiot_def)
  obtain w3 where w3: "GetBiot demoClient demoID w2 = (Inr (revisedBiot 8), w3)" "revising 1 (Suc 96) w3"
    using revising_get [OF w2(2)] by auto
  obtain w4 where w4: "StartBiot demoClient demoID 8 w3 = (Inr zeroLifecycleResult, w4)" "revising 2 (Suc 95) w4"
    using revising_post [OF w3(2) t(2)] by (auto simp: StartBiot_def numeral_2_eq_2)
  obtain w5 where "GetBiot demoClient demoID w4 = (Inr (revisedBiot 8), w5)" using revising_get [OF w4(2)] by auto
  then have "biotCheck demoClient demoID demoID runningReady w4 = (Inr (Some (revisedBiot 8)), w5)"
    by (simp add: biotCheck_def attempt_def lift_def b result_simps)
  then have "polled demoID (biotCheck demoClient demoID demoID runningReady) w4 (Inr (revisedBiot 8)) w5" by (rule poll_done)
  then have w5: "waitRunning demoClient demoID demoID w4 = (Inr (), w5)"
    by (simp add: waitRunning_def attempt_def poll_refines [symmetric] checks_same_ticks result_simps)
  have n: "waitIfAny demoClient zeroLifecycleResult demoID demoID = succeed ()" by (simp add: waitIfAny_def zeroLifecycleResult_def)
  show ?thesis
    using a w1(1) w2(1) w3(1) w4(1) w5
    by (simp add: runRestart_def onBiot_def attempt_def lift_def loadClient_run demo_client resolveBiot_def b n succeed_def
        say_def printOut_def)
qed

section \<open>Properties\<close>

text \<open>C20: A restart is a stop and then a start, each guarded by the revision just read. Whatever the server
  answers, the requests of \<open>biot restart\<close> that are not reads are none, or the stop of the Biot it resolved at
  that Biot's revision, or this stop and then the start at the revision that a new read of the Biot showed,
  after the stop was accepted and its operation waited for; and if it succeeds it has sent both.\<close>

theorem restart_sequence:
  assumes "runRestart args w = (r, w')"
  shows "posted w w' [] \<and> \<not> isOk r \<or>
    (\<exists>c b w1. savedClient w = Inr c \<and> resolveBiot c (args ! 0) w = (Inr b, w1) \<and>
      (let stop = lifecycleCall c (biotID b) ''/stop'' (revision (biotDesired b)) in
       posted w w' [stop] \<and> \<not> isOk r \<or>
       (\<exists>stopped w2 w3 view w4. StopBiot c (biotID b) (revision (biotDesired b)) w1 = (Inr stopped, w2) \<and>
          waitIfAny c stopped (biotID b) (args ! 0) w2 = (Inr (), w3) \<and> GetBiot c (biotID b) w3 = (Inr view, w4) \<and>
          posted w w' [stop, lifecycleCall c (biotID b) ''/start'' (revision (biotDesired view))])))"
  using assms unfolding runRestart_def
proof (cases rule: onBiot_cases)
  case (unresolved c e)
  with reads_post(4) [OF unresolved(4)] show ?thesis by simp
next
  case (resolved c b w1)
  let ?stop = "lifecycleCall c (biotID b) ''/stop'' (revision (biotDesired b))"
  have p1: "posted w w1 []" using resolved(3) by (rule reads_post)
  from resolved(5) show ?thesis
  proof (cases rule: attempt_cases)
    case fails
    with start_stop_posts(2) [OF fails(1)] posted_trans [OF p1] resolved show ?thesis by (auto simp: Let_def)
  next
    case (goes stopped w2)
    note stopped = goes(1)
    from start_stop_posts(2) [OF goes(1)] posted_trans [OF p1] have p2: "posted w w2 [?stop]" by fastforce
    from goes(2) show ?thesis
    proof (cases rule: attempt_cases)
      case fails
      with posted_trans [OF p2 reads_post(1) [OF fails(1)]] resolved show ?thesis by (auto simp: Let_def)
    next
      case (goes u w3)
      from posted_trans [OF p2 reads_post(1) [OF goes(1)]] have p3: "posted w w3 [?stop]" by simp
      from restart_start [OF goes(2)] posted_trans [OF p3] stopped goes(1) resolved show ?thesis
        by (fastforce simp: Let_def)
    qed
  qed
qed (simp add: posted_def)

theorem restart_sequence_witness:
  "\<exists>w' stop start. runRestart [demoID] (demoWorld revisingServer) = (Inr (), w') \<and>
     posted (demoWorld revisingServer) w' [stop, start] \<and> requestBody stop = Some ''{\"expected_revision\":7}''"
proof -
  let ?w = "demoWorld revisingServer"
  have a: "canonicalUUID demoID" by code_simp
  have b: "biotID (revisedBiot 7) = demoID" "revision (biotDesired (revisedBiot 7)) = 7" by (simp_all add: revisedBiot_def)
  obtain w1 where w1: "GetBiot demoClient demoID ?w = (Inr (revisedBiot 7), w1)"
    using revising_get [of 0 99 ?w] by (auto simp: revising_def demo_calls)
  obtain w' where run: "runRestart [demoID] ?w = (Inr (), w')" using restart_run by blast
  have body: "requestBody (lifecycleCall c i step 7) = Some ''{\"expected_revision\":7}''" for c i step
    by (simp add: lifecycleCall_def callFor_def) code_simp
  from restart_sequence [OF run] w1 a b show ?thesis
    using run body by (auto simp: demo_client resolveBiot_def Let_def)
qed

end
