(* ===== verification/Cli_Changes.thy ===== *)
theory Cli_Changes
  imports Cli_Restart
begin

text \<open>
  How often a command asks the server to change something. An action is graded by the number of its
  requests that are not reads: at most so many in every run, and exactly so many in a run that succeeds.
  Grades add up along \<open>attempt\<close>, so the grade of a command is read off its definition; nothing is sent
  twice, and no success is reported for a change that was not asked for.
\<close>

section \<open>Graded actions\<close>

definition changeCount :: "call list \<Rightarrow> nat" where
  "changeCount cs = length (filter (\<lambda>cl. verb cl \<noteq> ''GET'') cs)"

definition changes :: "nat \<Rightarrow> 'a cmd \<Rightarrow> bool" where
  "changes k m \<longleftrightarrow> (\<forall>w r w'. m w = (r, w') \<longrightarrow>
     (\<exists>cs. calls w' = calls w @ cs \<and> changeCount cs \<le> k \<and> (isOk r \<longrightarrow> changeCount cs = k)))"

named_theorems changes_intros \<open>the grade of an action from the grades of its parts\<close>

lemma changesI:
  "(\<And>w r w'. m w = (r, w') \<Longrightarrow>
     \<exists>cs. calls w' = calls w @ cs \<and> changeCount cs \<le> k \<and> (isOk r \<longrightarrow> changeCount cs = k)) \<Longrightarrow> changes k m"
  by (simp add: changes_def)

lemma changesD:
  assumes "changes k m" and "m w = (r, w')"
  obtains cs where "calls w' = calls w @ cs" "changeCount cs \<le> k" "isOk r \<Longrightarrow> changeCount cs = k"
  using assms unfolding changes_def by blast

lemma changes_grade: "changes a m \<Longrightarrow> a = k \<Longrightarrow> changes k m"
  by simp

lemma changeCount_append [simp]: "changeCount (cs @ ds) = changeCount cs + changeCount ds" "changeCount [] = 0"
  by (simp_all add: changeCount_def)

lemma changes_reads: "keeps (sends (readOnly c)) m \<Longrightarrow> changes 0 m"
  by (rule changesI) (force simp: keeps_def sends_def readOnly_def changeCount_def filter_empty_conv)

lemma changes_silent: "keeps silent m \<Longrightarrow> changes 0 m"
  by (rule changes_reads [OF keeps_silent])

lemma changes_fail [changes_intros]: "changes k (failWith e)"
  by (rule changesI) (auto simp: failWith_def)

lemma changes_attempt [changes_intros]:
  assumes "changes a m" and "\<And>x. changes b (f x)"
  shows "changes (a + b) (attempt m f)"
proof (rule changesI)
  fix w r w'
  assume "attempt m f w = (r, w')"
  then show "\<exists>cs. calls w' = calls w @ cs \<and> changeCount cs \<le> a + b \<and> (isOk r \<longrightarrow> changeCount cs = a + b)"
  proof (cases rule: attempt_cases)
    case (fails e)
    from changesD [OF assms(1) fails(1)] obtain cs where "calls w' = calls w @ cs" "changeCount cs \<le> a" by metis
    with fails show ?thesis by auto
  next
    case (goes x w1)
    from changesD [OF assms(1) goes(1)] obtain cs where 1: "calls w1 = calls w @ cs" "changeCount cs = a" by auto
    from changesD [OF assms(2) goes(2)] obtain ds where
      "calls w' = calls w1 @ ds" "changeCount ds \<le> b" "isOk r \<longrightarrow> changeCount ds = b" by metis
    with 1 show ?thesis by (intro exI [of _ "cs @ ds"]) simp
  qed
qed

lemma changes_wrapErr [changes_intros]: "changes k m \<Longrightarrow> changes k (wrapErr f m)"
proof (rule changesI)
  fix w r w'
  assume "changes k m" and "wrapErr f m w = (r, w')"
  moreover from this(2) obtain r1 where "m w = (r1, w')" "r = mapErr f r1" by (auto simp: wrapErr_def split: prod.splits)
  ultimately show "\<exists>cs. calls w' = calls w @ cs \<and> changeCount cs \<le> k \<and> (isOk r \<longrightarrow> changeCount cs = k)"
    by (cases r1) (auto elim!: changesD)
qed

lemma changes_cases [changes_intros]:
  "changes k m \<Longrightarrow> changes k n \<Longrightarrow> changes k (if b then m else n)"
  "changes k none \<Longrightarrow> (\<And>a. changes k (some a)) \<Longrightarrow> changes k (case x of None \<Rightarrow> none | Some a \<Rightarrow> some a)"
  "(\<And>a b. changes k (g a b)) \<Longrightarrow> changes k (case p of (a, b) \<Rightarrow> g a b)"
  by (auto split: option.split prod.split)

lemma changes_eachDo [changes_intros]: "(\<And>x. changes k (f x)) \<Longrightarrow> changes (length xs * k) (eachDo f xs)"
proof (induction xs)
  case (Cons x xs)
  from changes_attempt [OF Cons.prems Cons.IH [OF Cons.prems]] show ?case by (simp add: add.commute)
qed (simp add: changes_silent silent_pure)

subsection \<open>Requests\<close>

lemma changes_request:
  assumes "method \<noteq> ''GET''"
  shows "changes 1 (apiRequest c method p body)"
proof (rule changesI)
  fix w r w'
  assume a: "apiRequest c method p body w = (r, w')"
  have one: "changeCount [callFor c method t body] = 1" for t using assms by (simp add: changeCount_def callFor_def)
  show "\<exists>cs. calls w' = calls w @ cs \<and> changeCount cs \<le> 1 \<and> (isOk r \<longrightarrow> changeCount cs = 1)"
  proof (cases r)
    case (Inl e)
    with apiRequest_calls(1) [OF a] one show ?thesis by auto
  next
    case (Inr ans)
    obtain t where "calls w' = calls w @ [callFor c method t body]"
      using apiRequest_ok [OF a [unfolded Inr]] by metis
    with one show ?thesis by simp
  qed
qed

lemma changes_result: "method \<noteq> ''GET'' \<Longrightarrow> changes 1 (requestResult c method p body dec zero)"
  unfolding requestResult_def
  by (rule changes_grade, (rule changes_attempt changes_request changes_cases changes_fail | assumption
      | rule changes_silent, rule silent_pure)+) simp

lemma changes_nothing: "method \<noteq> ''GET'' \<Longrightarrow> changes 1 (requestNothing c method p body)"
  unfolding requestNothing_def
  by (rule changes_grade, (rule changes_attempt changes_request | assumption
      | rule changes_silent, rule silent_pure)+) simp

lemma changes_decoded: "method \<noteq> ''GET'' \<Longrightarrow> changes 1 (decodeBiot c method p body)"
  using changes_result by (fastforce simp: changes_def decodeBiot_def)

lemma changes_endpoints [changes_intros]:
  "changes 1 (CreateBiot c i body)" "changes 1 (StartBiot c i n)" "changes 1 (StopBiot c i n)"
  "changes 1 (RebuildBiot c i n env)" "changes 1 (DestroyBiot c i)" "changes 1 (DeliverSecret c i s v)"
  "changes 1 (RemoveSecret c i s)" "changes 1 (DeliverFetchCredential c i s v)"
  "changes 1 (RemoveFetchCredential c i s)" "changes 1 (AddSSHKey c s l)" "changes 1 (RemoveSSHKey c i)"
  "changes 1 (RevokeCredential c i)" "changes 1 (Publish c i port)" "changes 1 (Unpublish c i port)"
  "changes 1 (shareRequest c give opts i who)"
  unfolding endpoint_defs shareRequest_def
  by (rule changes_grade, (rule changes_intros changes_result changes_nothing changes_silent silent_pure | simp; fail)+)+

lemma changes_waits [changes_intros]:
  "changes 0 (waitIfAny c res i reference)" "changes 0 (waitOperation c p i reference)" "changes 0 (waitRunning c i reference)"
  "changes 0 (waitAllocation c i reference)" "changes 0 (waitPrepared c i reference)" "changes 0 (GetBiot c i)"
  "changes 0 (resolveBiot c reference)" "changes 0 (ResolvePrincipal c email)"
  unfolding waitIfAny_def waitRunning_def waitAllocation_def waitPrepared_def
  by (rule changes_reads [of c], (intro sends_intros read_only.reading read_only.waiting read_only.resolving
      | rule keeps_silent, intro silent_intros)+)+

lemma loadClient_silent: "keeps silent loadClient"
  by (auto simp: keeps_def silent_def loadClient_run)

lemma changes_quiet [changes_intros]:
  "changes 0 (succeed a)" "changes 0 (lift x)" "changes 0 (say s)" "changes 0 (printPhase l p)" "changes 0 freshBiotID"
  "changes 0 (readKeyFile f)" "changes 0 (guardThat b e)" "changes 0 loadClient"
  "changes 0 (readSensitiveValue fromStdin prompt)" "changes 0 (reportAccepted res already)"
  "changes 0 (printShareResult answered opts give)"
  by (rule changes_silent, intro silent_intros loadClient_silent)+

lemma changes_onBiot [changes_intros]:
  assumes "\<And>c b. changes k (body c b)"
  shows "changes k (onBiot checked reference body)"
  unfolding onBiot_def by (rule changes_grade, (rule changes_intros assms)+) simp

section \<open>Commands\<close>

lemma single_changes:
  "changes 1 (runLifecycle args action)" "changes 1 (runRebuild args)" "changes 1 (runDestroy args)"
  "changes 1 (runSecretSet args)" "changes 1 (runSecretRemove args)" "changes 1 (runFetchCredentialSet args)"
  "changes 1 (runFetchCredentialRemove args)" "changes 1 (runPublicationChange args publish)"
  "changes 1 (runShareChange args give)" "changes 1 (runSSHKeyAdd args)" "changes 1 (runSSHKeyRemove args)"
  "changes 1 (runTokenRevoke args)"
  unfolding runLifecycle_def runRebuild_def runDestroy_def runSecretSet_def runSecretRemove_def
    runFetchCredentialSet_def runFetchCredentialRemove_def runPublicationChange_def runShareChange_def
    runSSHKeyAdd_def runSSHKeyRemove_def runTokenRevoke_def Let_def
  by (rule changes_grade, ((rule changes_intros)+)[1], simp)+

lemma restart_changes: "changes 2 (runRestart args)"
  unfolding runRestart_def by (rule changes_grade, (rule changes_intros)+) simp

text \<open>A creation without values asks once; one with values also delivers each of them and starts the Biot.\<close>

definition createChanges :: "createOptions \<Rightarrow> nat" where
  "createChanges opts =
     (if valuesRequired opts then length (fetchCredentials opts) + length (secretNames opts) + 2 else 1)"

lemma create_waits_change:
  "changes 0 (createPlain c opts i phase created)" "changes 0 (createPrepared c opts i phase created)"
  unfolding createPlain_def createPrepared_def waitRunning_def waitPrepared_def
  by (rule changes_reads [of c], (intro sends_intros read_only.waiting | rule keeps_silent, intro silent_intros)+)+

lemma create_parts_change:
  "changes 1 (createStart c opts i phase view)" "changes 1 (deliverCredential c opts i source)"
  "changes 1 (deliverSecret c opts i name)"
  unfolding createStart_def deliverCredential_def deliverSecret_def Let_def
  by (rule changes_grade, ((rule changes_intros)+)[1], simp)+

lemma create_values_change:
  "changes (length (fetchCredentials opts) + length (secretNames opts) + 1) (createWithValues c opts i phase created)"
  unfolding createWithValues_def by (rule changes_grade, (rule changes_intros create_waits_change create_parts_change)+) simp

lemma create_changes:
  assumes "parseCreateOptions args = Inr opts"
  shows "changes (createChanges opts) (runCreate args)"
proof -
  let ?creating = "attempt (printPhase [] ''creating'') (\<lambda>phase. attempt freshBiotID (\<lambda>i. attempt loadClient (\<lambda>c.
      attempt (CreateBiot c i (createBody opts)) (\<lambda>created.
        if valuesRequired opts then createWithValues c opts i phase created else createPlain c opts i phase created))))"
  have run: "runCreate args = ?creating"
    using assms by (simp add: runCreate_def attempt_def lift_def fun_eq_iff)
  have "changes (createChanges opts) ?creating"
  proof (cases "valuesRequired opts")
    case True
    show ?thesis
      unfolding createChanges_def if_P [OF True]
      by (rule changes_grade, (rule changes_intros create_values_change)+) simp
  next
    case False
    show ?thesis
      unfolding createChanges_def if_not_P [OF False]
      by (rule changes_grade, (rule changes_intros create_waits_change)+) simp
  qed
  then show ?thesis unfolding run .
qed

section \<open>Properties\<close>

text \<open>The commands that change one thing.\<close>

definition changingRuns :: "(string list \<Rightarrow> unit cmd) list" where
  "changingRuns = [runStart, runStop, runRebuild, runDestroy, runSecretSet, runSecretRemove, runFetchCredentialSet,
     runFetchCredentialRemove, runPublish, runUnpublish, runShare, runUnshare, runSSHKeyAdd, runSSHKeyRemove, runTokenRevoke]"

text \<open>What a command line asks to be changed: the options of a creation say how much it needs.\<close>

definition changesAsked :: "string list \<Rightarrow> ((string list \<Rightarrow> unit cmd) \<times> nat) list" where
  "changesAsked args = map (\<lambda>run. (run, 1)) changingRuns @
     (runRestart, 2) # (case parseCreateOptions args of Inr opts \<Rightarrow> [(runCreate, createChanges opts)] | Inl _ \<Rightarrow> [])"

text \<open>C21: Nothing is asked for twice, and no success is reported for what was not asked for. However the server
  answers, the requests of a command that are not reads are at most as many as its command line calls for (one
  for most, two for a restart, and for a creation one, its values and the start), and exactly as many when it
  succeeds.\<close>

theorem changes_asked_once:
  assumes "(run, k) \<in> set (changesAsked args)" and "run args w = (r, w')"
  shows "\<exists>cs. calls w' = calls w @ cs \<and> changeCount cs \<le> k \<and> (isOk r \<longrightarrow> changeCount cs = k)"
proof -
  have "changes k (run args)"
    using assms(1) single_changes restart_changes create_changes
    by (auto simp: changesAsked_def changingRuns_def runStart_def runStop_def runPublish_def runUnpublish_def
        runShare_def runUnshare_def split: sum.splits)
  with assms(2) show ?thesis unfolding changes_def by blast
qed

theorem changes_asked_once_witness:
  "\<exists>w' cs. runRestart [demoID] (demoWorld revisingServer) = (Inr (), w') \<and> calls w' = cs \<and> changeCount cs = 2"
proof -
  obtain w' where run: "runRestart [demoID] (demoWorld revisingServer) = (Inr (), w')" using restart_run by blast
  have "(runRestart, 2) \<in> set (changesAsked [demoID])" by (simp add: changesAsked_def)
  from changes_asked_once [OF this run] run show ?thesis by (auto simp: demo_calls)
qed

end
