(* ===== verification/Cli_Typed.thy ===== *)
theory Cli_Typed
  imports Cli_Waiting
begin

text \<open>
  The types of decoded values. The model gives a Go int as an integer and a Go string as bytes; here every
  value the JSON decoder can build has its integers within 64 bits and its strings valid UTF-8, which the
  decoder enforces by refusing the one and repairing the other.
\<close>

section \<open>The text of a document\<close>

fun textOk :: "json \<Rightarrow> bool" where
  "textOk (JStr s) = utf8Valid s"
| "textOk (JArr js) = list_all textOk js"
| "textOk (JObj kvs) = list_all (\<lambda>(k, j). utf8Valid k \<and> textOk j) kvs"
| "textOk _ = True"








text \<open>The pushdown machine keeps what it has read.\<close>

fun frameOk :: "jframe \<Rightarrow> bool" where
  "frameOk (FArr vs) = list_all textOk vs"
| "frameOk (FObj kvs k) = (list_all (\<lambda>(k, j). utf8Valid k \<and> textOk j) kvs \<and> utf8Valid k)"

fun modeOk :: "jmode \<Rightarrow> bool" where
  "modeOk (Finished v) = textOk v"
| "modeOk _ = True"

definition machineOk :: "jmode \<times> jframe list \<Rightarrow> bool" where
  "machineOk c \<longleftrightarrow> modeOk (fst c) \<and> list_all frameOk (snd c)"

lemma machineOk_pair [simp]: "machineOk (m, st) \<longleftrightarrow> modeOk m \<and> list_all frameOk st"
  by (simp add: machineOk_def)






section \<open>Decoders that keep a type\<close>












section \<open>The types of a Biot\<close>

































section \<open>Properties\<close>



end
