(* ===== verification/Cli_Prompt.thy ===== *)
theory Cli_Prompt
  imports Cli_Input
begin

text \<open>
  The hidden prompt of \<open>cli/internal/input/input.go\<close> with the goroutine that watches for an interrupt.
  \<open>secretInput\<close> is what \<open>Secret\<close> computes; here its steps, those of the signal handler and the signals
  interleave, so that the mode the terminal is left in can be followed. \<open>term.ReadPassword\<close> is the
  vendored package: as documented it turns the echo off, reads a line and puts back the mode it found.
\<close>

section \<open>The code\<close>

text \<open>What the modes of a terminal are, as far as \<open>ReadPassword\<close> changes them.\<close>

record termMode =
  echoes :: bool
  canonical :: bool
  signalKeys :: bool
  mapsReturn :: bool

definition hiddenMode :: "termMode \<Rightarrow> termMode" where
  "hiddenMode m = m\<lparr>echoes := False, canonical := True, signalKeys := True, mapsReturn := True\<rparr>"

text \<open>The main goroutine is before one of its calls, inside \<open>ReadPassword\<close> (hidden, or with its result and
  the mode not yet put back), before one of the two calls of the deferred function, or done.\<close>

datatype secretPc =
    CheckTerminal
  | WritePrompt
  | SaveMode
  | WatchSignals
  | TurnEchoOff
  | ReadHidden
  | TurnEchoOn "string option"
  | EndLine string
  | StopWatching "(cliErr, byte list) result"
  | StopSignals "(cliErr, byte list) result"
  | SecretDone "(cliErr, byte list) result"

datatype watcherPc = NotStarted | Watching | Leaving | WatcherDone

datatype lifeOf = Alive | ExitedWith int | KilledBySignal

record prompt =
  terminal :: termMode
  oldState :: termMode
  foundMode :: termMode
  secretAt :: secretPc
  watcherAt :: watcherPc
  interrupts :: bool
  notified :: bool
  finishedClosed :: bool
  life :: lifeOf

datatype promptMove = MainTurn | WatcherInterrupt | WatcherFinished | WatcherExits | InterruptKey

text \<open>The next call of \<open>Secret\<close>. What the calls answer is taken from the world the prompt is shown in.\<close>

definition lastLine :: "world \<Rightarrow> string \<Rightarrow> (cliErr, byte list) result" where
  "lastLine w v =
     (if stderrFails w then Inl (msg ''write standard error'')
      else if length v > maxSecretBytes then Inl secretTooLarge else Inr (stringBytes v))"

definition mainTurn :: "world \<Rightarrow> prompt \<Rightarrow> prompt option" where
  "mainTurn w s =
     (case secretAt s of
        CheckTerminal \<Rightarrow>
          Some (if \<not> hasTty w \<and> \<not> stdinIsTerminal w
            then s\<lparr>secretAt := SecretDone (Inl (msg ''hidden input needs a terminal; use --stdin''))\<rparr>
            else s\<lparr>secretAt := WritePrompt\<rparr>)
      | WritePrompt \<Rightarrow>
          Some (s\<lparr>secretAt := (if stderrFails w then SecretDone (Inl (msg ''write standard error'')) else SaveMode)\<rparr>)
      | SaveMode \<Rightarrow>
          Some (if terminalStateFails w
            then s\<lparr>secretAt := SecretDone (Inl (ioFailure ''read terminal state''))\<rparr>
            else s\<lparr>oldState := terminal s, secretAt := WatchSignals\<rparr>)
      | WatchSignals \<Rightarrow> Some (s\<lparr>notified := True, watcherAt := Watching, secretAt := TurnEchoOff\<rparr>)
      | TurnEchoOff \<Rightarrow>
          Some (s\<lparr>foundMode := terminal s, terminal := hiddenMode (terminal s), secretAt := ReadHidden\<rparr>)
      | ReadHidden \<Rightarrow>
          Some (s\<lparr>secretAt := TurnEchoOn (case hidden w of [] \<Rightarrow> None | v # _ \<Rightarrow> v)\<rparr>)
      | TurnEchoOn None \<Rightarrow>
          Some (s\<lparr>terminal := foundMode s, secretAt := StopWatching (Inl (ioFailure ''read hidden input''))\<rparr>)
      | TurnEchoOn (Some v) \<Rightarrow> Some (s\<lparr>terminal := foundMode s, secretAt := EndLine v\<rparr>)
      | EndLine v \<Rightarrow> Some (s\<lparr>secretAt := StopWatching (lastLine w v)\<rparr>)
      | StopWatching r \<Rightarrow> Some (s\<lparr>finishedClosed := True, secretAt := StopSignals r\<rparr>)
      | StopSignals r \<Rightarrow> Some (s\<lparr>notified := False, secretAt := SecretDone r\<rparr>)
      | SecretDone _ \<Rightarrow> None)"

text \<open>An interrupt kills the process unless \<open>signal.Notify\<close> has asked for it; then it waits in the channel,
  which holds one.\<close>

fun promptMoveTo :: "world \<Rightarrow> promptMove \<Rightarrow> prompt \<Rightarrow> prompt option" where
  "promptMoveTo w m s =
     (if life s \<noteq> Alive then None
      else case m of
        MainTurn \<Rightarrow> mainTurn w s
      | WatcherInterrupt \<Rightarrow>
          if watcherAt s = Watching \<and> interrupts s
          then Some (s\<lparr>interrupts := False, terminal := oldState s, watcherAt := Leaving\<rparr>) else None
      | WatcherFinished \<Rightarrow>
          if watcherAt s = Watching \<and> finishedClosed s then Some (s\<lparr>watcherAt := WatcherDone\<rparr>) else None
      | WatcherExits \<Rightarrow> if watcherAt s = Leaving then Some (s\<lparr>life := ExitedWith 130\<rparr>) else None
      | InterruptKey \<Rightarrow>
          Some (if notified s then s\<lparr>interrupts := True\<rparr> else s\<lparr>life := KilledBySignal\<rparr>))"

definition startPrompt :: "termMode \<Rightarrow> prompt" where
  "startPrompt m = \<lparr>terminal = m, oldState = m, foundMode = m, secretAt = CheckTerminal, watcherAt = NotStarted,
     interrupts = False, notified = False, finishedClosed = False, life = Alive\<rparr>"

abbreviation promptReaches :: "world \<Rightarrow> termMode \<Rightarrow> prompt \<Rightarrow> bool" where
  "promptReaches w m \<equiv> reachable (\<lambda>s. s = startPrompt m) (moves (promptMoveTo w))"

section \<open>Invariants\<close>

text \<open>Inside \<open>ReadPassword\<close> the mode may be the hidden one; everywhere else it is the original one. What the
  prompt has learnt so far is what \<open>secretInput\<close> would answer.\<close>

fun inReading :: "secretPc \<Rightarrow> bool" where
  "inReading ReadHidden = True"
| "inReading (TurnEchoOn x) = True"
| "inReading _ = False"

text \<open>Between the two calls an interrupt goes to the channel.\<close>

fun whileNotified :: "secretPc \<Rightarrow> bool" where
  "whileNotified TurnEchoOff = True"
| "whileNotified ReadHidden = True"
| "whileNotified (TurnEchoOn x) = True"
| "whileNotified (EndLine v) = True"
| "whileNotified (StopWatching r) = True"
| "whileNotified (StopSignals r) = True"
| "whileNotified _ = False"

definition secretResult :: "world \<Rightarrow> (cliErr, byte list) result" where
  "secretResult w =
     (if \<not> hasTty w \<and> \<not> stdinIsTerminal w then Inl (msg ''hidden input needs a terminal; use --stdin'')
      else if stderrFails w then Inl (msg ''write standard error'')
      else if terminalStateFails w then Inl (ioFailure ''read terminal state'')
      else case hidden w of Some v # _ \<Rightarrow> lastLine w v | _ \<Rightarrow> Inl (ioFailure ''read hidden input''))"

lemma secretResult_eq: "fst (secretInput prompt w) = secretResult w"
  by (simp add: secretInput_def secretResult_def lastLine_def attempt_def putErr_def result_simps
      split: list.split option.split)

fun learnt :: "world \<Rightarrow> secretPc \<Rightarrow> bool" where
  "learnt w CheckTerminal = True"
| "learnt w WritePrompt = (hasTty w \<or> stdinIsTerminal w)"
| "learnt w SaveMode = ((hasTty w \<or> stdinIsTerminal w) \<and> \<not> stderrFails w)"
| "learnt w (TurnEchoOn x) = ((hasTty w \<or> stdinIsTerminal w) \<and> \<not> stderrFails w \<and> \<not> terminalStateFails w \<and>
     x = (case hidden w of [] \<Rightarrow> None | v # _ \<Rightarrow> v))"
| "learnt w (EndLine v) = ((hasTty w \<or> stdinIsTerminal w) \<and> \<not> stderrFails w \<and> \<not> terminalStateFails w \<and>
     (\<exists>rest. hidden w = Some v # rest))"
| "learnt w (StopWatching r) = (r = secretResult w)"
| "learnt w (StopSignals r) = (r = secretResult w)"
| "learnt w (SecretDone r) = (r = secretResult w)"
| "learnt w _ = ((hasTty w \<or> stdinIsTerminal w) \<and> \<not> stderrFails w \<and> \<not> terminalStateFails w)"

definition modeInv :: "termMode \<Rightarrow> prompt \<Rightarrow> bool" where
  "modeInv m s \<longleftrightarrow>
     oldState s = m \<and> (inReading (secretAt s) \<longrightarrow> foundMode s = m) \<and> notified s = whileNotified (secretAt s) \<and>
     (terminal s = m \<or> inReading (secretAt s) \<and> terminal s = hiddenMode m) \<and>
     (finishedClosed s \<longrightarrow> (\<exists>r. secretAt s = StopSignals r \<or> secretAt s = SecretDone r)) \<and>
     (life s = KilledBySignal \<longrightarrow> \<not> notified s) \<and>
     (\<forall>n. life s = ExitedWith n \<longrightarrow> n = 130 \<and> watcherAt s = Leaving)"

definition promptInv :: "world \<Rightarrow> termMode \<Rightarrow> prompt \<Rightarrow> bool" where
  "promptInv w m s \<longleftrightarrow> learnt w (secretAt s) \<and> modeInv m s"

lemma mainTurn_learnt:
  assumes "learnt w (secretAt s)" and "mainTurn w s = Some t"
  shows "learnt w (secretAt t)"
proof (cases "secretAt s")
  case (TurnEchoOn x)
  with assms show ?thesis
    by (cases x) (auto simp: mainTurn_def secretResult_def split: list.splits option.splits)
next
  case (EndLine v)
  with assms show ?thesis by (auto simp: mainTurn_def secretResult_def)
qed (use assms in \<open>auto simp: mainTurn_def secretResult_def split: if_splits\<close>)

lemma mainTurn_mode:
  assumes "modeInv m s" and "mainTurn w s = Some t" and "life s = Alive"
  shows "modeInv m t"
proof (cases "secretAt s")
  case (TurnEchoOn x)
  with assms show ?thesis by (cases x) (auto simp: mainTurn_def modeInv_def)
qed (use assms in \<open>auto simp: mainTurn_def modeInv_def split: if_splits\<close>)

lemma promptInv_step:
  assumes "promptInv w m s" and "promptMoveTo w mv s = Some t"
  shows "promptInv w m t"
proof (cases mv)
  case MainTurn
  with assms show ?thesis
    using mainTurn_learnt mainTurn_mode by (auto simp: promptInv_def split: if_splits)
qed (use assms in \<open>auto simp: promptInv_def modeInv_def split: if_splits\<close>)

interpretation promptSys: transition_system "\<lambda>s. s = startPrompt m" "moves (promptMoveTo w)" "promptInv w m" for w m
proof
  show "promptInv w m s" if "s = startPrompt m" for s
    using that by (simp add: promptInv_def modeInv_def startPrompt_def)
  show "promptInv w m t" if "promptInv w m s" "moves (promptMoveTo w) s t" for s t
    using that by (auto intro: promptInv_step)
qed

lemmas prompt_inv = promptSys.inv_reachable [unfolded promptInv_def]

text \<open>Once the echo is off, a watcher that has not yet seen an interrupt will put the mode back when it does.\<close>

fun afterHiding :: "secretPc \<Rightarrow> bool" where
  "afterHiding ReadHidden = True"
| "afterHiding (TurnEchoOn x) = True"
| "afterHiding (EndLine v) = True"
| "afterHiding (StopWatching r) = True"
| "afterHiding (StopSignals r) = True"
| "afterHiding (SecretDone r) = True"
| "afterHiding _ = False"

definition hiddenInv :: "world \<Rightarrow> termMode \<Rightarrow> prompt \<Rightarrow> bool" where
  "hiddenInv w m s \<longleftrightarrow> promptInv w m s \<and> afterHiding (secretAt s) \<and> (watcherAt s = Watching \<or> terminal s = m)"

lemma mainTurn_hidden:
  assumes "modeInv m s" and "afterHiding (secretAt s)" and "watcherAt s = Watching \<or> terminal s = m"
    and "mainTurn w s = Some t"
  shows "afterHiding (secretAt t) \<and> (watcherAt t = Watching \<or> terminal t = m)"
proof (cases "secretAt s")
  case (TurnEchoOn x)
  with assms show ?thesis by (cases x) (auto simp: modeInv_def mainTurn_def)
qed (use assms in \<open>auto simp: mainTurn_def\<close>)

lemma hiddenInv_step:
  assumes "hiddenInv w m s" and "promptMoveTo w mv s = Some t"
  shows "hiddenInv w m t"
proof -
  have "promptInv w m t" using assms promptInv_step by (auto simp: hiddenInv_def)
  moreover have "afterHiding (secretAt t) \<and> (watcherAt t = Watching \<or> terminal t = m)"
  proof (cases mv)
    case MainTurn
    with assms mainTurn_hidden [of m s w t] show ?thesis
      by (simp add: hiddenInv_def promptInv_def split: if_splits)
  next
    case WatcherFinished
    with assms show ?thesis
      by (auto simp: hiddenInv_def promptInv_def modeInv_def split: if_splits)
  qed (use assms in \<open>auto simp: hiddenInv_def promptInv_def modeInv_def split: if_splits\<close>)
  ultimately show ?thesis by (simp add: hiddenInv_def)
qed

interpretation hiddenSys: transition_system "hiddenInv w m" "moves (promptMoveTo w)" "hiddenInv w m" for w m
  by unfold_locales (auto intro: hiddenInv_step)

section \<open>Properties\<close>

text \<open>C22: A hidden prompt gives the terminal back in these three cases, whatever the order in which interrupts
  and the two goroutines move. When \<open>Secret\<close> returns, the terminal is in the mode it was in before, and the
  answer is the one \<open>secretInput\<close> computes. A process that an interrupt kills because the prompt does not yet,
  or no longer, watch for it is in that mode. And once the echo is off and the watcher has not yet seen an
  interrupt, every end of the process is an exit with status 130 in that mode. What is left out is an
  interrupt that the watcher has seen before the echo goes off, which the next property is about.\<close>

theorem prompt_restores_terminal:
  assumes "promptReaches w m s"
  shows "(\<forall>r prompt. secretAt s = SecretDone r \<longrightarrow> terminal s = m \<and> r = fst (secretInput prompt w)) \<and>
    (life s = KilledBySignal \<longrightarrow> terminal s = m) \<and>
    (\<forall>t n. secretAt s = ReadHidden \<and> watcherAt s = Watching \<and> (moves (promptMoveTo w))\<^sup>*\<^sup>* s t \<and>
       life t = ExitedWith n \<longrightarrow> n = 130 \<and> terminal t = m)"
proof -
  note inv = prompt_inv [OF assms]
  have "terminal s = m \<and> r = fst (secretInput prompt w)" if "secretAt s = SecretDone r" for r prompt
    using inv that by (auto simp: modeInv_def secretResult_eq)
  moreover have "terminal s = m" if "life s = KilledBySignal"
    using inv that by (cases "secretAt s") (auto simp: modeInv_def)
  moreover have "n = 130 \<and> terminal t = m"
    if "secretAt s = ReadHidden" "watcherAt s = Watching" "(moves (promptMoveTo w))\<^sup>*\<^sup>* s t" "life t = ExitedWith n" for t n
  proof -
    have "hiddenInv w m s" using inv that(1,2) by (simp add: hiddenInv_def promptInv_def)
    from hiddenSys.inv_steps [OF this that(3)] that(4) show ?thesis
      by (auto simp: hiddenInv_def promptInv_def modeInv_def)
  qed
  ultimately show ?thesis by blast
qed

theorem prompt_restores_terminal_witness:
  "\<exists>(m :: termMode) (s :: prompt) (t :: prompt). promptReaches (quietWorld noServer) m s \<and> secretAt s = ReadHidden \<and>
     watcherAt s = Watching \<and> terminal s \<noteq> m \<and> (moves (promptMoveTo (quietWorld noServer)))\<^sup>*\<^sup>* s t \<and>
     life t = ExitedWith 130 \<and> terminal t = m"
proof -
  let ?f = "promptMoveTo (quietWorld noServer)" and ?m = "\<lparr>echoes = True, canonical = True, signalKeys = True, mapsReturn = True\<rparr>"
  let ?ms = "[MainTurn, MainTurn, MainTurn, MainTurn, MainTurn]"
  have "\<exists>s. runMoves ?f ?ms (startPrompt ?m) = Some s \<and> secretAt s = ReadHidden \<and> watcherAt s = Watching \<and>
      terminal s \<noteq> ?m \<and> (\<exists>t1 t2 t. ?f InterruptKey s = Some t1 \<and> ?f WatcherInterrupt t1 = Some t2 \<and>
        ?f WatcherExits t2 = Some t \<and> life t = ExitedWith 130)"
    by (simp add: startPrompt_def mainTurn_def quietWorld_def hiddenMode_def)
  then obtain s t1 t2 t where s: "runMoves ?f ?ms (startPrompt ?m) = Some s" "secretAt s = ReadHidden" "watcherAt s = Watching"
    "terminal s \<noteq> ?m" and t: "?f InterruptKey s = Some t1" "?f WatcherInterrupt t1 = Some t2" "?f WatcherExits t2 = Some t"
    "life t = ExitedWith 130" by blast
  have r: "promptReaches (quietWorld noServer) ?m s" by (rule runMoves_reachable [OF reach_init s(1)]) simp
  have "moves ?f s t1" and "moves ?f t1 t2" and "moves ?f t2 t"
    using t(1-3) by (simp_all only: moves.simps) blast+
  then have st: "(moves ?f)\<^sup>*\<^sup>* s t"
    by (blast intro: converse_rtranclp_into_rtranclp)
  from prompt_restores_terminal [OF r] have "terminal t = ?m"
    using s(2,3) st t(4) by blast
  with r s st t(4) show ?thesis by blast
qed

text \<open>C40: There is one moment in which an interrupt does leave the echo off: the watcher may see it, put the
  mode back and be on its way to exit while \<open>Secret\<close> goes on to turn the echo off. From every mode this run
  is possible, and the process ends with the terminal hidden.\<close>

theorem prompt_interrupt_race:
  "\<exists>s. promptReaches (quietWorld noServer) m s \<and> life s = ExitedWith 130 \<and> terminal s = hiddenMode m"
proof -
  let ?ms = "[MainTurn, MainTurn, MainTurn, MainTurn, InterruptKey, WatcherInterrupt, MainTurn, WatcherExits]"
  have "\<exists>s. runMoves (promptMoveTo (quietWorld noServer)) ?ms (startPrompt m) = Some s \<and>
      life s = ExitedWith 130 \<and> terminal s = hiddenMode m"
    by (simp add: startPrompt_def mainTurn_def quietWorld_def)
  then obtain s where s: "runMoves (promptMoveTo (quietWorld noServer)) ?ms (startPrompt m) = Some s"
    "life s = ExitedWith 130" "terminal s = hiddenMode m" by blast
  have "promptReaches (quietWorld noServer) m s" by (rule runMoves_reachable [OF reach_init s(1)]) simp
  with s show ?thesis by blast
qed

end
