(* ===== verification/Spec2Isabelle.thy ===== *)
theory Spec2Isabelle
  imports Agent_Service Cli_Main Cli_Scope Cli_Requests Cli_Create Cli_Output Cli_Ssh Cli_Options
    Cli_Login Cli_Delivery Cli_Changes Cli_Typed Cli_Prompt
begin

text \<open>
  A verification library for the Go programs of this repository: the workload agent
  (\<open>src/agent\<close>), which runs inside a Biot's container and serves shells and ports to the node, and the
  command line client (\<open>src/cli\<close>), with which people create and use Biots through a Biot server. All
  nineteen implementation files of both programs are modelled.

  \<^bold>\<open>The parts and how they interact.\<close> The agent accepts connections on a socket
  (\<open>cmd/biot-agent/main.go\<close>). Each begins with one line, a JSON request (\<open>protocol/request.go\<close>) for a port
  or a shell, and gets one reply line. A port connection is then copied both ways
  (\<open>portrelay/relay.go\<close>); a shell connection carries frames (\<open>protocol/frame.go\<close>) between the node and
  a pseudo terminal with its process (\<open>shellsession/session.go\<close>). The client finds the command a line of
  arguments names (\<open>internal/command\<close>, \<open>cmd/biot/main.go\<close>), loads the saved login
  (\<open>internal/config\<close>), turns a name into a Biot (\<open>internal/resolve\<close>, \<open>internal/id\<close>), reads values from
  people or pipes (\<open>internal/input\<close>), and talks to the server (\<open>internal/api\<close>), whose error vocabulary is
  embedded as a table. The commands themselves are the other files of \<open>cmd/biot\<close>.

  \<^bold>\<open>Foundations.\<close>
  \<^item> \<open>Biot_Prelude\<close>: results, stateful actions (\<open>attempt\<close>, \<open>succeed\<close>, \<open>failWith\<close>, \<open>wrapErr\<close>), the relational
    frame rule \<open>keeps\<close>, the Hoare logic \<open>leads\<close>, the locale of transition systems with invariants, and what the
    concurrent components share: \<open>moves\<close>, the step relation of a function that performs named moves,
    \<open>runMoves\<close> for a run of them and \<open>finishes\<close> for a goal that a bounded number of moves attains.
  \<^item> \<open>Go_Strings\<close>, \<open>Go_Utf8\<close>, \<open>Go_Io\<close>, \<open>Go_Wait\<close>, \<open>Go_Url\<close>: what the programs use of \<open>strings\<close>, \<open>strconv\<close>,
    \<open>unicode/utf8\<close>, \<open>io\<close>, \<open>bufio\<close>, \<open>syscall.WaitStatus\<close> and \<open>net/url\<close>.
  \<^item> \<open>Go_Json\<close>, \<open>Go_Marshal\<close>: \<open>encoding/json\<close>, a lexer and a pushdown machine with Go's depth limit,
    decoders that store into an existing value, and the encoder; what is printed is read back.
    \<open>Json_Spellings\<close>: the lines that spell a JSON value without white space, by the grammar of RFC 8259 and
    whatever characters an encoder escapes; each is read as the value it spells.

  \<^bold>\<open>The agent.\<close>
  \<^item> \<open>Agent_Frame\<close> (\<open>frame.go\<close>): \<open>readFrame\<close> and \<open>writeFrame\<close> over readers and writers that may end or fail at
    any byte. Whole streams round trip; exactly the encodings within 64 KiB are read, an announced
    excess is refused before its payload, and a cut frame is never taken for a frame.
  \<^item> \<open>Agent_Request\<close> (\<open>request.go\<close>): the bounded line, the strict JSON request and the replies. What is
    accepted is well formed, a request is read from whatever line spells it, and the invalid-request error
    is characterised.
  \<^item> \<open>Agent_Session\<close> (\<open>session.go\<close>): \<open>Run\<close> with its three goroutines and \<open>terminate\<close> as a step relation over
    every interleaving; a step is a goroutine's turn, an event of the terminal or the process, or the
    grace timer. Invariants by rule induction give delivery, reaping, stream form and that a session can
    always return; the input side is a function on the frames of the connection.
  \<^item> \<open>Agent_Relay\<close> (\<open>relay.go\<close>): two copying goroutines, each move of which is a read or a write, and the
    one that waits and closes the two connections in turn, as a step relation. What arrives is a front of
    what was sent; every run is finite and ends with both connections closed.
  \<^item> \<open>Agent_Main\<close> (\<open>main.go\<close>): the accept loop and the dispatch; each connection gets the one reply its request
    calls for.
  \<^item> \<open>Agent_Service\<close>: the composition: what a port or shell connection carries from its request line to its last
    byte, in every interleaving.

  \<^bold>\<open>The client: its parts.\<close> A command is an action over the \<open>world\<close> of \<open>Cli_World\<close>: the server (a function of
  all requests so far), standard streams and terminal, the file system with the calls that may fail, the
  clock, the random source, the browser and the SSH program. \<open>Cli_Error\<close> are its errors and how they print.
  \<^item> \<open>Cli_Vocabulary\<close>, \<open>Cli_Types\<close>, \<open>Cli_Api\<close> (\<open>internal/api\<close>): the embedded vocabulary and its start-up checks,
    the rendering of errors, the decoded types, one request with its response, and every endpoint.
  \<^item> \<open>Cli_Id\<close>, \<open>Cli_Config\<close>, \<open>Cli_Input\<close>, \<open>Cli_Resolve\<close>, \<open>Cli_Command\<close>: the other internal packages. Saving a login
    is atomic and the last one saved is loaded (locale \<open>store\<close>); a piped secret is taken whole or refused.
  \<^item> \<open>Cli_Prompt\<close>: the hidden prompt of \<open>internal/input\<close> with the goroutine that watches for an interrupt, as a
    step relation. It shows in which mode each end of the prompt leaves the terminal, and the one moment
    in which an interrupt leaves the echo off (a finding).
  \<^item> \<open>Cli_Commands\<close>, \<open>Cli_Secrets\<close>, \<open>Cli_Lifecycle\<close>, \<open>Cli_Publication\<close>, \<open>Cli_Access\<close>, \<open>Cli_Account\<close>,
    \<open>Cli_Operations\<close>, \<open>Cli_Main\<close>: the files of \<open>cmd/biot\<close>, each \<open>run...\<close> function a definition \<open>run...\<close>, and
    \<open>main\<close> as \<open>runMain\<close>, from the arguments to the exit status.

  \<^bold>\<open>The client: what its parts do together.\<close>
  \<^item> \<open>Cli_Policy\<close>: the locale \<open>request_policy\<close> (and \<open>open_policy\<close>, which adds the writing methods) says that
    every request made by a client satisfies a predicate; inside it the predicate is carried through
    every endpoint, the polling loops and every command once. \<open>Cli_Scope\<close> interprets it: every request of
    every command line goes to the saved server with the saved token, and the reporting commands only read.
    \<open>Cli_Create\<close> interprets it a third time, for the steps of a creation that cannot start anything.
  \<^item> \<open>Cli_Requests\<close>: paging is the concatenation of a run of pages; where a request goes, including that the
    escaping of path segments is undone (a finding).
  \<^item> \<open>Cli_Waiting\<close>: each polling loop is the unbounded loop of the source; waiting for an operation succeeds
    exactly when the answers of the run (the relation \<open>shownRun\<close>) show it pending or working and then
    succeeded; a create that succeeds has seen the Biot running. \<open>Cli_Create\<close>: nothing is started before every value was accepted.
    \<open>Cli_Restart\<close>: a restart stops and starts, each at the revision just read.
  \<^item> \<open>Cli_Changes\<close>: actions graded by the number of changes they ask the server for; grades add up along
    \<open>attempt\<close>, so that no command changes more than its command line says, and none succeeds with less.
  \<^item> \<open>Cli_Options\<close>, \<open>Cli_Login\<close>, \<open>Cli_Delivery\<close>, \<open>Cli_Ssh\<close>, \<open>Cli_Output\<close>: command lines and their meaning, the
    login that the server of the run has accepted, the piped secret from standard input to the request body, strict host keys, bounded
    output. \<open>Cli_Typed\<close>: decoded Biots have 64-bit integers and valid UTF-8, whatever the server sends.
  \<^item> This theory: the two programs agree on the exit status of a process.

  \<^bold>\<open>Bounds.\<close> Functions are total. The loops that the source bounds by time are bounded by two counts of the
  world, arbitrary in every theorem: \<open>ticks\<close>, how often the ticker fires before the deadline of the
  command (the loop itself, without a count, is the relation \<open>polled\<close>, and \<open>Cli_Waiting\<close> shows that they
  agree), and \<open>budget\<close>, how many requests the server answers before the deadline passes, which makes
  paging terminate even against a server that never ends its list. Session and relay are
  relations without any bound. Integers are words where the source computes on bits and where they wrap
  (\<open>wrap64\<close>), and elsewhere integers whose 64-bit range the decoders check.

  \<^bold>\<open>Not modelled.\<close> The Elixir server and node under \<open>src/apps\<close>, the Nix files, and vendored packages. Of the
  Go files: the terminal ioctls, the pseudo terminal and process start of a session beyond the events they
  cause, the clearing of buffers, and the inside of the SSH program and the browser. The HTTP transport is the server function with its
  failures; redirects and proxies are its business.
\<close>

unbundle bit_operations_syntax

section \<open>Properties\<close>

text \<open>C35: The agent and the client report the same status for the same end of a process: the byte the agent
  sends in the exit frame is the number the client exits with, for every wait status of a process that
  exited or was killed by a signal, 128 and the signal in the latter case.\<close>

theorem exit_statuses_agree:
  assumes "wsExited ws \<or> wsSignaled ws"
  shows "sshStatus (wsExitStatus ws) ws = uint (exitStatus (Some (ExitError (Some ws))))"
proof -
  have fits: "uint (word_of_int n :: byte) = n" if "0 \<le> n" "n < 256" for n
    using that by (simp add: uint_word_of_int)
  show ?thesis
  proof (cases "wsSignaled ws")
    case True
    then have "wsExitStatus ws = -1" "wsSignal ws = uint (ws AND 0x7F)"
      by (auto simp: wsExitStatus_def wsExited_def wsSignaled_def wsSignal_def)
    moreover have "uint (ws AND 0x7F) \<le> 0x7F" by (simp add: uint_and AND_upper2)
    ultimately have "0 \<le> 128 + wsSignal ws" "128 + wsSignal ws < 256" "wsExitStatus ws < 0" by simp_all
    with True fits [OF this(1,2)] show ?thesis unfolding sshStatus_def exitStatus_def option.case waitErr.case by simp
  next
    case False
    with assms have "wsExitStatus ws = uint (drop_bit 8 ws AND 0xFF)" by (simp add: wsExitStatus_def)
    moreover have "uint (drop_bit 8 ws AND 0xFF) \<le> 0xFF" by (simp add: uint_and AND_upper2)
    ultimately have "0 \<le> wsExitStatus ws" "wsExitStatus ws < 256" by simp_all
    with False fits [OF this] show ?thesis unfolding sshStatus_def exitStatus_def option.case waitErr.case by simp
  qed
qed

theorem exit_statuses_agree_witness:
  "sshStatus (wsExitStatus 9) 9 = 137 \<and> uint (exitStatus (Some (ExitError (Some 9)))) = 137"
proof -
  have "wsExited (9 :: 32 word) \<or> wsSignaled (9 :: 32 word)" by (simp add: wsSignaled_def)
  from exit_statuses_agree [OF this] show ?thesis by (simp add: sshStatus_def wsExitStatus_def wsExited_def wsSignaled_def wsSignal_def)
qed

end
